(* ===== verification/Prelude.thy ===== *)
theory Prelude
  imports Main "HOL-Library.Word"
begin

text \<open>
  What every component shares: the machine types of the C++ core (\<open>uint8_t\<close>, \<open>uint32_t\<close>,
  \<open>uint64_t\<close> and the 64-bit \<open>size_t\<close> as words, byte vectors as lists), C++ exceptions as
  values of a sum type, stateful code as a function from a state to an outcome and the new state,
  and the reads and writes of a byte buffer with their bounds: an access that is outside the buffer
  is the value \<open>OutOfBounds\<close>, so that memory safety is a theorem and not a silence.
\<close>

unbundle bit_operations_syntax

text \<open>
  The collections of the development: the operations of file streams, and the operations on the C heap
  and on the memory of a C caller.
\<close>

named_theorems stream_ops
named_theorems c_memory

section \<open>Machine types\<close>

type_synonym u8 = "8 word"
type_synonym u32 = "32 word"
type_synonym u64 = "64 word"
type_synonym bytes = "u8 list"
type_synonym address = nat

text \<open>
  The largest size of a \<open>std::vector<uint8_t>\<close> or a \<open>std::string\<close> on a 64-bit target is
  below \<open>2 ^ 63\<close> (\<open>PTRDIFF_MAX\<close>): a longer object does not exist.
\<close>

definition vec_limit :: nat where
  "vec_limit = 2 ^ 63"

definition vec_size :: "'a list \<Rightarrow> u64" where
  "vec_size xs = of_nat (length xs)"

section \<open>Exceptions\<close>

text \<open>
  \<open>RuntimeError\<close> is \<open>std::runtime_error\<close> with its message, \<open>AssertionFailure\<close> what the macros of
  \<open>mini_test.hpp\<close> throw, \<open>BadFunctionCall\<close> what the call of an empty \<open>std::function\<close> throws. \<open>Panic\<close> is a
  run-time panic of the Go daemon. \<open>OutOfBounds\<close> is no exception: it marks an access outside a buffer,
  through a pointer to no object or through an invalid iterator, which C++ leaves undefined.
\<close>

datatype failure =
    RuntimeError string
  | AssertionFailure string
  | BadFunctionCall
  | Panic string
  | OutOfBounds

type_synonym 'a result = "failure + 'a"

definition res_bind :: "'a result \<Rightarrow> ('a \<Rightarrow> 'b result) \<Rightarrow> 'b result" where
  "res_bind m f = (case m of Inl e \<Rightarrow> Inl e | Inr x \<Rightarrow> f x)"

lemma res_bind_simps [simp]:
  "res_bind (Inl e) f = Inl e"
  "res_bind (Inr x) f = f x"
  by (simp_all add: res_bind_def)

lemma res_bind_eq_Inr [simp]:
  "res_bind m f = Inr y \<longleftrightarrow> (\<exists>x. m = Inr x \<and> f x = Inr y)"
  by (cases m) simp_all

lemma res_bind_eq_Inl [simp]:
  "res_bind m f = Inl e \<longleftrightarrow> m = Inl e \<or> (\<exists>x. m = Inr x \<and> f x = Inl e)"
  by (cases m) simp_all

text \<open>An outcome is a C++ exception when it is an error other than an access outside a buffer.\<close>

fun memory_safe :: "'a result \<Rightarrow> bool" where
  "memory_safe (Inl OutOfBounds) = False"
| "memory_safe _ = True"

lemma memory_safe_iff: "memory_safe r \<longleftrightarrow> r \<noteq> Inl OutOfBounds"
  by (cases r rule: memory_safe.cases) auto

section \<open>Stateful code\<close>

text \<open>
  A stateful routine takes the state and returns its outcome and the new state: what was done
  before an exception stays done.
\<close>

type_synonym ('s, 'a) prog = "'s \<Rightarrow> 'a result \<times> 's"

definition prog_return :: "'a \<Rightarrow> ('s, 'a) prog" where
  "prog_return x s = (Inr x, s)"

definition prog_throw :: "failure \<Rightarrow> ('s, 'a) prog" where
  "prog_throw e s = (Inl e, s)"

definition prog_bind :: "('s, 'a) prog \<Rightarrow> ('a \<Rightarrow> ('s, 'b) prog) \<Rightarrow> ('s, 'b) prog" where
  "prog_bind m f s = (case m s of (Inl e, s') \<Rightarrow> (Inl e, s') | (Inr x, s') \<Rightarrow> f x s')"

lemma prog_simps [simp]:
  "prog_return x s = (Inr x, s)"
  "prog_throw e s = (Inl e, s)"
  by (simp_all add: prog_return_def prog_throw_def)

lemma prog_bind_step [simp]:
  "m s = (Inl e, s') \<Longrightarrow> prog_bind m f s = (Inl e, s')"
  "m s = (Inr x, s') \<Longrightarrow> prog_bind m f s = f x s'"
  by (simp_all add: prog_bind_def)

text \<open>A computation that has no state but can throw.\<close>

definition prog_of :: "'a result \<Rightarrow> ('s, 'a) prog" where
  "prog_of r s = (r, s)"

lemma prog_of_simp [simp]: "prog_of r s = (r, s)"
  by (simp add: prog_of_def)

text \<open>
  \<open>std::unique_ptr p(x, deleter)\<close> around a piece of code: the deleter runs when the scope is left, normally
  or by an exception. \<open>unique_ptr\<close> is the idiom of the core around a call that allocates: a null pointer is
  an exception and is not deleted. What a deleter does does not depend on the calls made with the
  object, so it gets the object as it was allocated.
\<close>

definition owned :: "('a \<Rightarrow> 's \<Rightarrow> 's) \<Rightarrow> 'a \<Rightarrow> ('s, 'b) prog \<Rightarrow> ('s, 'b) prog" where
  "owned deleter p m s = (case m s of (r, s) \<Rightarrow> (r, deleter p s))"

definition unique_ptr ::
    "('s \<Rightarrow> 'a option \<times> 's) \<Rightarrow> ('a \<Rightarrow> 's \<Rightarrow> 's) \<Rightarrow> failure \<Rightarrow> ('a \<Rightarrow> ('s, 'b) prog) \<Rightarrow> ('s, 'b) prog" where
  "unique_ptr allocate deleter e body s =
     (case allocate s of (None, s) \<Rightarrow> (Inl e, s) | (Some p, s) \<Rightarrow> owned deleter p (body p) s)"

lemma owned_simps [simp]:
  "m s = (r, s') \<Longrightarrow> owned deleter p m s = (r, deleter p s')"
  "fst (owned deleter p m s) = fst (m s)"
  by (simp_all add: owned_def split: prod.split)

lemma unique_ptr_simps [simp]:
  "allocate s = (None, s') \<Longrightarrow> unique_ptr allocate deleter e body s = (Inl e, s')"
  "allocate s = (Some p, s') \<Longrightarrow> unique_ptr allocate deleter e body s = owned deleter p (body p) s'"
  by (simp_all add: unique_ptr_def)

lemma unique_ptr_returns:
  assumes "unique_ptr allocate deleter e body s = (Inr x, s')"
  obtains p s1 where "allocate s = (Some p, s1)" and "fst (body p s1) = Inr x"
  using assms by (auto simp: unique_ptr_def owned_def split: prod.splits option.splits)

text \<open>A loop \<open>for (auto& x : xs) f(x);\<close> that an exception leaves.\<close>

fun deliver_all :: "('a \<Rightarrow> ('s, unit) prog) \<Rightarrow> 'a list \<Rightarrow> ('s, unit) prog" where
  "deliver_all f [] s = (Inr (), s)"
| "deliver_all f (x # xs) s =
     (case f x s of (Inl e, s) \<Rightarrow> (Inl e, s) | (Inr _, s) \<Rightarrow> deliver_all f xs s)"

text \<open>A loop that hands over every element and goes on after an exception, with the list of outcomes.\<close>

fun attempt_all :: "('a \<Rightarrow> ('s, unit) prog) \<Rightarrow> 'a list \<Rightarrow> 's \<Rightarrow> unit result list \<times> 's" where
  "attempt_all f [] s = ([], s)"
| "attempt_all f (x # xs) s =
     (let (r, s) = f x s; (rs, s) = attempt_all f xs s in (r # rs, s))"

text \<open>
  \<open>yields P m Q\<close>: from every state with \<open>P\<close>, the code \<open>m\<close> returns a value without an exception, and \<open>Q\<close> holds of
  the value and the new state.
\<close>

definition yields :: "('s \<Rightarrow> bool) \<Rightarrow> ('s, 'a) prog \<Rightarrow> ('a \<Rightarrow> 's \<Rightarrow> bool) \<Rightarrow> bool" where
  "yields P m Q \<longleftrightarrow> (\<forall>s. P s \<longrightarrow> (\<exists>x s'. m s = (Inr x, s') \<and> Q x s'))"

lemma yieldsI: "(\<And>s. P s \<Longrightarrow> \<exists>x s'. m s = (Inr x, s') \<and> Q x s') \<Longrightarrow> yields P m Q"
  by (simp add: yields_def)

lemma yieldsE: "yields P m Q \<Longrightarrow> P s \<Longrightarrow> \<exists>x s'. m s = (Inr x, s') \<and> Q x s'"
  by (simp add: yields_def)

lemma yields_step:
  assumes "yields P m (\<lambda>x s. A x \<and> Q x s)" and "\<And>x. A x \<Longrightarrow> yields (Q x) (f x) R"
  shows "yields P (prog_bind m f) R"
  using assms by (fastforce simp: yields_def prog_bind_def)

lemma yields_value:
  assumes "yields P m (\<lambda>x s. x = v \<and> Q s)" and "yields Q (f v) R"
  shows "yields P (prog_bind m f) R"
  using assms by (intro yields_step [where A = "\<lambda>x. x = v" and Q = "\<lambda>_. Q"]) simp_all

lemma yields_weaken: "yields P m Q \<Longrightarrow> (\<And>x s. Q x s \<Longrightarrow> R x s) \<Longrightarrow> yields P m R"
  by (fastforce simp: yields_def)

lemma yields_when: "(\<And>s. P s \<Longrightarrow> yields (\<lambda>t. t = s) m Q) \<Longrightarrow> yields P m Q"
  by (simp add: yields_def)

section \<open>Buffers\<close>

text \<open>\<open>p[i]\<close> on a buffer of which \<open>p\<close> lists the bytes from the pointer to the end.\<close>

definition read_byte :: "bytes \<Rightarrow> nat \<Rightarrow> u8 result" where
  "read_byte p i = (if i < length p then Inr (p ! i) else Inl OutOfBounds)"

text \<open>The vector built from the iterator range \<open>[begin + a, begin + b)\<close>.\<close>

definition vec_range :: "'a list \<Rightarrow> u64 \<Rightarrow> u64 \<Rightarrow> 'a list result" where
  "vec_range xs a b =
     (if a \<le> b \<and> unat b \<le> length xs then Inr (take (unat b - unat a) (drop (unat a) xs))
      else Inl OutOfBounds)"

text \<open>A callee that stores \<open>d\<close> through a pointer to position \<open>off\<close> of the buffer \<open>buf\<close>.\<close>

definition buf_store :: "bytes \<Rightarrow> nat \<Rightarrow> bytes \<Rightarrow> bytes result" where
  "buf_store buf off d =
     (if off + length d \<le> length buf then Inr (take off buf @ d @ drop (off + length d) buf)
      else Inl OutOfBounds)"

text \<open>\<open>v.resize(n)\<close>: cut, or pad with zero bytes.\<close>

definition vec_resize :: "bytes \<Rightarrow> nat \<Rightarrow> bytes" where
  "vec_resize v n = take n v @ replicate (n - length v) 0"

lemma vec_resize_same [simp]: "length v = n \<Longrightarrow> vec_resize v n = v"
  by (simp add: vec_resize_def)

lemma length_vec_resize [simp]: "length (vec_resize v n) = n"
  by (simp add: vec_resize_def)

lemma vec_resize_Nil [simp]: "vec_resize [] n = replicate n 0"
  by (simp add: vec_resize_def)

lemma buf_store_whole [simp]: "length d = length buf \<Longrightarrow> buf_store buf 0 d = Inr d"
  by (simp add: buf_store_def)

lemma buf_store_Nil [simp]: "off \<le> length buf \<Longrightarrow> buf_store buf off [] = Inr buf"
  by (simp add: buf_store_def)

section \<open>Sizes as words\<close>

lemma unat_of_nat_small: "n < vec_limit \<Longrightarrow> unat (of_nat n :: u64) = n"
  by (simp add: vec_limit_def unat_of_nat take_bit_nat_eq_self)

lemma unat_vec_size [simp]: "length xs < vec_limit \<Longrightarrow> unat (vec_size xs) = length xs"
  by (simp add: vec_size_def vec_limit_def unat_of_nat take_bit_nat_eq_self)

lemma unat_add_small:
  fixes x y :: "'a::len word"
  assumes "unat x + unat y < 2 ^ LENGTH('a)"
  shows "unat (x + y) = unat x + unat y"
  using assms by (simp add: unat_word_ariths)

text \<open>
  The bounds test of the parser, \<open>offset + n > buf.size()\<close> on 64-bit words, decides what it is meant
  to decide: \<open>n\<close> comes from a constant or a 32-bit length, so the sum does not wrap.
\<close>

lemma bounds_check:
  assumes "length buf < vec_limit" and "unat off \<le> length buf" and "unat (n :: u64) < 2 ^ 33"
  shows "off + n > vec_size buf \<longleftrightarrow> length buf < unat off + unat n"
    and "unat (off + n) = unat off + unat n"
proof -
  from assms show sum: "unat (off + n) = unat off + unat n"
    by (intro unat_add_small) (simp add: vec_limit_def)
  from assms(1) show "off + n > vec_size buf \<longleftrightarrow> length buf < unat off + unat n"
    by (simp add: word_less_nat_alt sum)
qed

lemma unat_ucast_up:
  assumes "LENGTH('a) \<le> LENGTH('b)"
  shows "unat (ucast (x :: 'a::len word) :: 'b::len word) = unat x"
proof -
  have "unat x < 2 ^ LENGTH('a)" by (rule unsigned_less)
  also have "\<dots> \<le> 2 ^ LENGTH('b)" using assms by simp
  finally show ?thesis by (simp add: unsigned_ucast_eq take_bit_nat_eq_self)
qed

lemma unat_u32_less: "unat (x :: u32) < 2 ^ 32"
  using unsigned_less [of x] by simp

lemma unat_less_33: "unat (ucast (x :: u32) :: u64) < 2 ^ 33"
proof -
  have "unat (ucast x :: u64) = unat x"
    by (rule unat_ucast_up)  simp
  moreover have "unat x < 2 ^ 32" using unsigned_less [of x] by simp
  ultimately show ?thesis by simp
qed

lemma of_nat_unat_add: "off + of_nat n = of_nat (unat (off :: u64) + n)"
  by simp

lemma sint_small:
  assumes "unat (y :: u64) < 2 ^ 63"
  shows "sint y = int (unat y)"
proof -
  have "int (unat y) < int (2 ^ 63)" using assms by (simp only: of_nat_less_iff)
  then have "uint y < 2 ^ 63" by simp
  then have "signed_take_bit 63 (uint y) = uint y"
    by (intro signed_take_bit_int_eq_self) (auto intro: order_trans [OF _ uint_ge_0])
  then show ?thesis by (simp add: sint_uint)
qed

lemma sint_large:
  assumes "2 ^ 63 \<le> unat (y :: u64)"
  shows "sint y < 0"
proof (rule ccontr)
  assume "\<not> sint y < 0"
  moreover have "sint y < 2 ^ 63" using sint_lt [of y] by simp
  ultimately have "take_bit 64 (sint y) = sint y"
    by (intro take_bit_int_eq_self) simp_all
  then have "uint y = sint y" by (simp add: uint_sint)
  with \<open>sint y < 2 ^ 63\<close> have "int (unat y) < int (2 ^ 63)" by simp
  with assms show False by (simp only: of_nat_less_iff)
qed

section \<open>Characters and bytes\<close>

text \<open>\<open>std::string\<close> holds bytes: \<open>char\<close> and \<open>uint8_t\<close> convert into each other without loss.\<close>

definition byte_of_char :: "char \<Rightarrow> u8" where
  "byte_of_char c = of_nat (of_char c)"

definition char_of_byte :: "u8 \<Rightarrow> char" where
  "char_of_byte b = char_of (unat b)"

lemma char_of_byte_of_char [simp]: "char_of_byte (byte_of_char c) = c"
proof -
  have "(of_char c :: nat) < 256" by simp
  then have "unat (of_nat (of_char c) :: u8) = of_char c"
    by (simp add: unat_of_nat take_bit_nat_eq_self)
  then show ?thesis by (simp add: char_of_byte_def byte_of_char_def)
qed

lemma byte_of_char_of_byte [simp]: "byte_of_char (char_of_byte b) = b"
proof -
  have "unat b < 256" using unsigned_less [of b] by simp
  then show ?thesis by (simp add: char_of_byte_def byte_of_char_def)
qed

lemma map_char_of_byte [simp]:
  "map char_of_byte (map byte_of_char s) = s"
  "map byte_of_char (map char_of_byte d) = d"
  by (simp_all add: comp_def)

end
