(* ===== verification/Wire.thy ===== *)
theory Wire
  imports Prelude
begin

text \<open>
  The little-endian and length-prefixed primitives of \<open>core/src/protocol.cpp\<close>.
\<close>

section \<open>Integers\<close>

definition PutU32 :: "bytes \<Rightarrow> u32 \<Rightarrow> bytes" where
  "PutU32 buf v =
     (let buf = buf @ [ucast (v AND 0xFF)];
          buf = buf @ [ucast (drop_bit 8 v AND 0xFF)];
          buf = buf @ [ucast (drop_bit 16 v AND 0xFF)];
          buf = buf @ [ucast (drop_bit 24 v AND 0xFF)]
      in buf)"

definition GetU32 :: "bytes \<Rightarrow> u32 result" where
  "GetU32 p =
     res_bind (read_byte p 0) (\<lambda>p0.
     res_bind (read_byte p 1) (\<lambda>p1.
     res_bind (read_byte p 2) (\<lambda>p2.
     res_bind (read_byte p 3) (\<lambda>p3.
       Inr (ucast p0 OR push_bit 8 (ucast p1) OR push_bit 16 (ucast p2)
            OR push_bit 24 (ucast p3))))))"

definition PutU64 :: "bytes \<Rightarrow> u64 \<Rightarrow> bytes" where
  "PutU64 buf v = foldl (\<lambda>buf i. buf @ [ucast (drop_bit (8 * i) v AND 0xFF)]) buf [0..<8]"

definition GetU64 :: "bytes \<Rightarrow> u64 result" where
  "GetU64 p =
     foldl (\<lambda>r i. res_bind r (\<lambda>v. res_bind (read_byte p i)
                    (\<lambda>b. Inr (v OR push_bit (8 * i) (ucast b)))))
       (Inr 0) [0..<8]"

lemma ucast_mask_byte [simp]: "(ucast ((x :: 'a::len word) AND 0xFF) :: u8) = ucast x"
proof -
  have "(0xFF :: 'a word) = mask 8" by (simp add: mask_eq_exp_minus_1)
  then have "bit (0xFF :: 'a word) n \<longleftrightarrow> n < LENGTH('a) \<and> n < 8" for n
    by (simp only: bit_mask_iff possible_bit_word)
  then show ?thesis
    using bit_imp_le_length [of x] by (intro bit_word_eqI) (auto simp add: bit_simps)
qed

text \<open>Shifting byte number \<open>k div 8\<close> of a word down and up again keeps exactly its bits.\<close>

lemma bit_byte:
  fixes v :: "'a::len word"
  shows "bit (push_bit k (ucast (ucast (drop_bit k v) :: u8)) :: 'a word) n
           \<longleftrightarrow> k \<le> n \<and> n < k + 8 \<and> bit v n"
  using bit_imp_le_length [of v n] by (auto simp add: bit_simps)

lemma bit_byte0:
  fixes v :: "'a::len word"
  shows "bit (ucast (ucast v :: u8) :: 'a word) n \<longleftrightarrow> n < 8 \<and> bit v n"
  using bit_byte [of 0 v n] by simp

lemma ucast_drop_push:
  fixes b :: u8
  assumes "k + 8 \<le> LENGTH('a)"
  shows "(ucast (drop_bit k (push_bit k (ucast b) :: 'a::len word)) :: u8) = b"
  by (rule bit_word_eqI) (use assms in \<open>auto simp add: bit_simps\<close>)

text \<open>Byte \<open>k div 8\<close> of a word in which another byte was placed at another position is zero.\<close>

lemma ucast_drop_push_other:
  fixes b :: u8
  assumes "k + 8 \<le> j \<or> j + 8 \<le> k"
  shows "(ucast (drop_bit k (push_bit j (ucast b) :: 'a::len word)) :: u8) = 0"
  by (rule bit_word_eqI)
     (use assms bit_imp_le_length [of b] in \<open>fastforce simp add: bit_simps\<close>)

lemma ucast_or: "(ucast (x OR y :: 'a::len word) :: u8) = ucast x OR ucast y"
  by (rule bit_word_eqI) (simp add: bit_simps)

lemma drop_bit_or: "drop_bit k (x OR y :: 'a::len word) = drop_bit k x OR drop_bit k y"
  by (rule bit_word_eqI) (simp add: bit_simps)

lemma PutU32_append: "PutU32 buf v = buf @ PutU32 [] v"
  by (simp add: PutU32_def Let_def)

lemma length_PutU32 [simp]: "length (PutU32 [] v) = 4"
  by (simp add: PutU32_def Let_def)

lemma PutU64_bytes:
  "PutU64 buf v = buf @ map (\<lambda>i. ucast (drop_bit (8 * i) v)) [0..<8]"
  by (simp add: PutU64_def upt_rec)

lemma length_PutU64 [simp]: "length (PutU64 [] v) = 8"
  by (simp add: PutU64_bytes)

lemma GetU32_bytes:
  "GetU32 (a # b # c # d # rest)
     = Inr (ucast a OR push_bit 8 (ucast b) OR push_bit 16 (ucast c) OR push_bit 24 (ucast d))"
  by (simp add: GetU32_def read_byte_def)

lemma GetU64_bytes:
  "GetU64 (a # b # c # d # e # f # g # h # rest)
     = Inr (ucast a OR push_bit 8 (ucast b) OR push_bit 16 (ucast c) OR push_bit 24 (ucast d)
            OR push_bit 32 (ucast e) OR push_bit 40 (ucast f) OR push_bit 48 (ucast g)
            OR push_bit 56 (ucast h))"
  by (simp add: GetU64_def read_byte_def upt_rec or.assoc)

lemma GetU32_PutU32: "GetU32 (PutU32 [] v @ rest) = Inr v"
proof -
  have "v = (ucast (ucast v :: u8) OR push_bit 8 (ucast (ucast (drop_bit 8 v) :: u8))
      OR push_bit 16 (ucast (ucast (drop_bit 16 v) :: u8))
      OR push_bit 24 (ucast (ucast (drop_bit 24 v) :: u8)))"
    by (rule bit_word_eqI) (auto simp only: bit_or_iff bit_byte bit_byte0 len_num1 len_bit0)
  then show ?thesis by (simp add: PutU32_def Let_def GetU32_bytes)
qed

lemmas byte_of_word =
  ucast_or drop_bit_or ucast_drop_push ucast_drop_push_other
  ucast_drop_push [of 0, simplified] ucast_drop_push_other [of 0, simplified]
  ucast_drop_push_other [where j = 0, simplified]

lemma PutU32_GetU32:
  "PutU32 [] (ucast a OR push_bit 8 (ucast b) OR push_bit 16 (ucast c) OR push_bit 24 (ucast d))
     = [a, b, c, d]"
  by (simp add: PutU32_def Let_def byte_of_word)

lemma GetU64_PutU64: "GetU64 (PutU64 [] v @ rest) = Inr v"
proof -
  have "v = (ucast (ucast v :: u8) OR push_bit 8 (ucast (ucast (drop_bit 8 v) :: u8))
      OR push_bit 16 (ucast (ucast (drop_bit 16 v) :: u8))
      OR push_bit 24 (ucast (ucast (drop_bit 24 v) :: u8))
      OR push_bit 32 (ucast (ucast (drop_bit 32 v) :: u8))
      OR push_bit 40 (ucast (ucast (drop_bit 40 v) :: u8))
      OR push_bit 48 (ucast (ucast (drop_bit 48 v) :: u8))
      OR push_bit 56 (ucast (ucast (drop_bit 56 v) :: u8)))"
    by (rule bit_word_eqI) (auto simp only: bit_or_iff bit_byte bit_byte0 len_num1 len_bit0)
  then show ?thesis by (simp add: PutU64_bytes upt_rec GetU64_bytes)
qed

lemma PutU64_GetU64:
  "PutU64 [] (ucast a OR push_bit 8 (ucast b) OR push_bit 16 (ucast c) OR push_bit 24 (ucast d)
              OR push_bit 32 (ucast e) OR push_bit 40 (ucast f) OR push_bit 48 (ucast g)
              OR push_bit 56 (ucast h))
     = [a, b, c, d, e, f, g, h]"
  by (simp add: PutU64_bytes upt_rec byte_of_word)

lemma length_ge_4D: "4 \<le> length p \<Longrightarrow> \<exists>a b c d rest. p = a # b # c # d # rest"
  by (auto simp: numeral_eq_Suc Suc_le_length_iff)

lemma length_ge_8D: "8 \<le> length p \<Longrightarrow> \<exists>a b c d e f g h rest. p = a # b # c # d # e # f # g # h # rest"
  by (auto simp: numeral_eq_Suc Suc_le_length_iff)

text \<open>Reading an integer succeeds exactly on the buffers that begin with its encoding.\<close>

lemma GetU32_iff: "GetU32 p = Inr v \<longleftrightarrow> (\<exists>rest. p = PutU32 [] v @ rest)"
proof
  assume ok: "GetU32 p = Inr v"
  then have "4 \<le> length p"
    by (auto simp: GetU32_def read_byte_def split: if_splits)
  then obtain a b c d rest where p: "p = a # b # c # d # rest" using length_ge_4D by blast
  with ok have "PutU32 [] v = [a, b, c, d]" by (auto simp: GetU32_bytes PutU32_GetU32)
  with p show "\<exists>rest. p = PutU32 [] v @ rest" by auto
qed (auto simp: GetU32_PutU32)

lemma GetU64_iff: "GetU64 p = Inr v \<longleftrightarrow> (\<exists>rest. p = PutU64 [] v @ rest)"
proof
  assume ok: "GetU64 p = Inr v"
  then have "8 \<le> length p"
    by (auto simp: GetU64_def read_byte_def upt_rec split: if_splits)
  then obtain a b c d e f g h rest where p: "p = a # b # c # d # e # f # g # h # rest"
    using length_ge_8D by blast
  with ok have "PutU64 [] v = [a, b, c, d, e, f, g, h]"
    by (auto simp: GetU64_bytes PutU64_GetU64)
  with p show "\<exists>rest. p = PutU64 [] v @ rest" by auto
qed (auto simp: GetU64_PutU64)

text \<open>The value of a run of bytes, the least significant byte first.\<close>

fun le_value :: "bytes \<Rightarrow> nat" where
  "le_value [] = 0"
| "le_value (b # bs) = unat b + 256 * le_value bs"

lemma le_value_append: "le_value (xs @ ys) = le_value xs + 256 ^ length xs * le_value ys"
  by (induction xs) (simp_all add: algebra_simps)

lemma unat_byte_of_word:
  "unat (ucast (drop_bit k v) :: u8) = unat (v :: 'a::len word) div 2 ^ k mod 256"
  by (simp add: unsigned_ucast_eq unsigned_drop_bit_eq take_bit_eq_mod flip: drop_bit_eq_div)

lemma le_value_bytes:
  "le_value (map (\<lambda>i. ucast (drop_bit (8 * i) v)) [0..<n]) = unat (v :: 'a::len word) mod 256 ^ n"
proof (induction n)
  case (Suc n)
  have "(2 :: nat) ^ (8 * n) = 256 ^ n" by (simp add: power_mult)
  moreover have "unat v mod 256 ^ Suc n = unat v mod 256 ^ n + 256 ^ n * (unat v div 256 ^ n mod 256)"
    using mod_mult2_eq [of "unat v" "256 ^ n" 256] by (simp add: mult.commute)
  ultimately show ?case
    by (simp add: Suc le_value_append unat_byte_of_word)
qed simp

lemma le_value_PutU32 [simp]: "le_value (PutU32 [] v) = unat v"
proof -
  have "PutU32 [] v = map (\<lambda>i. ucast (drop_bit (8 * i) v)) [0..<4]"
    by (simp add: PutU32_def Let_def upt_rec)
  moreover have "unat v < 256 ^ 4" using unsigned_less [of v] by simp
  ultimately show ?thesis by (simp only: le_value_bytes mod_less)
qed

lemma le_value_PutU64 [simp]: "le_value (PutU64 [] v) = unat v"
proof -
  have "PutU64 [] v = map (\<lambda>i. ucast (drop_bit (8 * i) v)) [0..<8]"
    by (simp add: PutU64_bytes)
  moreover have "unat v < 256 ^ 8" using unsigned_less [of v] by simp
  ultimately show ?thesis by (simp only: le_value_bytes mod_less)
qed

lemma GetU32_total: "4 \<le> length p \<Longrightarrow> \<exists>v. GetU32 p = Inr v"
  using length_ge_4D [of p] by (auto simp: GetU32_bytes)

lemma GetU64_total: "8 \<le> length p \<Longrightarrow> \<exists>v. GetU64 p = Inr v"
  using length_ge_8D [of p] by (auto simp: GetU64_bytes)

section \<open>Length-prefixed blocks\<close>

definition PutBytes :: "bytes \<Rightarrow> bytes \<Rightarrow> bytes" where
  "PutBytes buf data = (let buf = PutU32 buf (of_nat (length data)) in buf @ data)"

definition PutString :: "bytes \<Rightarrow> string \<Rightarrow> bytes" where
  "PutString buf s =
     (let buf = PutU32 buf (of_nat (length s)) in buf @ map byte_of_char s)"

text \<open>
  \<open>ReadBytes(buf, offset)\<close> advances its reference parameter \<open>offset\<close>: the new offset is part of the
  result. The sums are those of \<open>size_t\<close>.
\<close>

definition ReadBytes :: "bytes \<Rightarrow> u64 \<Rightarrow> (bytes \<times> u64) result" where
  "ReadBytes buf offset =
     (if offset + 4 > vec_size buf
      then Inl (RuntimeError ''protocol: truncated length prefix'')
      else res_bind (GetU32 (drop (unat offset) buf)) (\<lambda>len.
        let offset = offset + 4 in
        if offset + ucast len > vec_size buf
        then Inl (RuntimeError ''protocol: truncated payload'')
        else res_bind (vec_range buf offset (offset + ucast len)) (\<lambda>out.
          Inr (out, offset + ucast len))))"

definition ReadString :: "bytes \<Rightarrow> u64 \<Rightarrow> (string \<times> u64) result" where
  "ReadString buf offset =
     res_bind (ReadBytes buf offset) (\<lambda>(bytes, offset). Inr (map char_of_byte bytes, offset))"

text \<open>
  The decoders read their integers in place, each time by the same three lines: the bounds test with
  its message, the read, the advance of the offset.
\<close>

definition read_int_at ::
    "u64 \<Rightarrow> (bytes \<Rightarrow> 'a result) \<Rightarrow> string \<Rightarrow> bytes \<Rightarrow> u64 \<Rightarrow> ('a \<times> u64) result" where
  "read_int_at width get msg payload offset =
     (if offset + width > vec_size payload then Inl (RuntimeError msg)
      else res_bind (get (drop (unat offset) payload)) (\<lambda>v. Inr (v, offset + width)))"

lemma PutBytes_append: "PutBytes buf d = buf @ PutU32 [] (of_nat (length d)) @ d"
  by (simp add: PutBytes_def Let_def PutU32_append [of buf])

lemma PutString_bytes: "PutString buf s = PutBytes buf (map byte_of_char s)"
  by (simp add: PutString_def PutBytes_def)

section \<open>What a field of a message promises\<close>

text \<open>
  A parser position: an offset into a vector of possible size, at most one past its last byte.
\<close>

definition in_vec :: "bytes \<Rightarrow> u64 \<Rightarrow> bool" where
  "in_vec buf off \<longleftrightarrow> length buf < vec_limit \<and> unat off \<le> length buf"

lemma in_vec_0 [simp]: "length buf < vec_limit \<Longrightarrow> in_vec buf 0"
  by (simp add: in_vec_def)

text \<open>
  The contract between a writer and a reader of one field. Read at a parser position, \<open>get\<close> accepts
  exactly the bytes that \<open>put\<close> writes for a well-formed value, and stops right behind them;
  everything else is an exception, never an access outside the buffer.
\<close>

locale field_codec =
  fixes put :: "bytes \<Rightarrow> 'a \<Rightarrow> bytes"
    and get :: "bytes \<Rightarrow> u64 \<Rightarrow> ('a \<times> u64) result"
    and wf :: "'a \<Rightarrow> bool"
  assumes put_append: "put buf x = buf @ put [] x"
    and get_iff: "in_vec buf off \<Longrightarrow>
      get buf off = Inr (x, off') \<longleftrightarrow>
        wf x \<and> in_vec buf off' \<and> drop (unat off) buf = put [] x @ drop (unat off') buf"
    and get_error: "in_vec buf off \<Longrightarrow> get buf off = Inl e \<Longrightarrow> \<exists>m. e = RuntimeError m"
begin

lemma get_D:
  assumes "in_vec buf off" and "get buf off = Inr (x, off')"
  shows "wf x" and "in_vec buf off'"
    and "drop (unat off) buf = put [] x @ drop (unat off') buf"
  using assms by (simp_all add: get_iff)

lemma get_I:
  assumes pos: "in_vec buf off" and wf: "wf x" and bytes: "drop (unat off) buf = put [] x @ rest"
  shows "\<exists>off'. get buf off = Inr (x, off') \<and> in_vec buf off' \<and> drop (unat off') buf = rest"
proof -
  let ?n = "length buf - length rest"
  have len: "length buf - unat off = length (put [] x) + length rest"
    using arg_cong [OF bytes, of length] by simp
  have "unat (of_nat ?n :: u64) = ?n"
    using pos by (intro unat_of_nat_small) (auto simp: in_vec_def intro: le_less_trans [rotated])
  moreover have "drop ?n buf = rest"
  proof -
    have "?n = length (put [] x) + unat off \<or> rest = [] \<and> ?n = length buf"
      using len pos by (auto simp: in_vec_def)
    then show ?thesis
      using arg_cong [OF bytes, of "drop (length (put [] x))"] by (auto simp: add.commute)
  qed
  ultimately show ?thesis
    using pos wf bytes by (intro exI [of _ "of_nat ?n"]) (simp add: get_iff in_vec_def)
qed

lemma put_prefix_unique:
  assumes "wf x" and "wf y" and "put [] x @ r = put [] y @ r'"
    and "length (put [] x @ r) < vec_limit"
  shows "x = y \<and> r = r'"
proof -
  let ?buf = "put [] x @ r"
  have pos: "in_vec ?buf 0" using assms(4) by (rule in_vec_0)
  obtain o1 where "get ?buf 0 = Inr (x, o1)" and "drop (unat o1) ?buf = r"
    using get_I [OF pos assms(1), of r] by auto
  moreover obtain o2 where "get ?buf 0 = Inr (y, o2)" and "drop (unat o2) ?buf = r'"
    using get_I [OF pos assms(2), of r'] assms(3) by auto
  ultimately show ?thesis by auto
qed

end

lemma position_after:
  assumes "in_vec buf off" and "in_vec buf off'"
    and "drop (unat off) buf = d @ drop (unat off') buf"
  shows "unat off' = unat off + length d"
proof -
  have "length buf - unat off = length d + (length buf - unat off')"
    using arg_cong [OF assms(3), of length] by simp
  with assms(1,2) show ?thesis unfolding in_vec_def by linarith
qed

text \<open>The integers: a fixed number of bytes, and every such run of bytes is a value.\<close>

locale int_codec =
  fixes put :: "bytes \<Rightarrow> 'a \<Rightarrow> bytes"
    and get :: "bytes \<Rightarrow> 'a result"
    and width :: u64
  assumes put_append: "put buf v = buf @ put [] v"
    and get_iff: "get p = Inr v \<longleftrightarrow> (\<exists>rest. p = put [] v @ rest)"
    and get_total: "unat width \<le> length p \<Longrightarrow> \<exists>v. get p = Inr v"
    and length_put: "length (put [] v) = unat width"
    and width_small: "unat width < 2 ^ 33"
begin

lemma read_int_at_eq:
  assumes "in_vec buf off"
  shows "read_int_at width get msg buf off =
    (if unat off + unat width \<le> length buf
     then res_bind (get (drop (unat off) buf)) (\<lambda>v. Inr (v, off + width))
     else Inl (RuntimeError msg))"
  using bounds_check(1) [of buf off width] assms width_small
  by (simp add: read_int_at_def in_vec_def not_less)

lemma next_position:
  assumes "in_vec buf off" and "unat off + unat width \<le> length buf"
  shows "unat (off + width) = unat off + unat width" and "in_vec buf (off + width)"
  using bounds_check(2) [of buf off width] assms width_small by (simp_all add: in_vec_def)

lemma get_at:
  assumes "in_vec buf off" and "unat off + unat width \<le> length buf"
  obtains v where "get (drop (unat off) buf) = Inr v"
    and "drop (unat off) buf = put [] v @ drop (unat (off + width)) buf"
proof -
  have "unat width \<le> length (drop (unat off) buf)" using assms(2) by simp
  then obtain v where v: "get (drop (unat off) buf) = Inr v" using get_total by blast
  then obtain rest where rest: "drop (unat off) buf = put [] v @ rest" by (auto simp: get_iff)
  then have "drop (unat width) (drop (unat off) buf) = rest" by (simp add: length_put)
  then have "drop (unat (off + width)) buf = rest"
    using next_position [OF assms] by (simp add: add.commute)
  with v rest show ?thesis by (intro that) simp_all
qed

lemma read_int_at_sound:
  assumes pos: "in_vec buf off" and read: "read_int_at width get msg buf off = Inr (x, off')"
  shows "in_vec buf off' \<and> drop (unat off) buf = put [] x @ drop (unat off') buf"
proof -
  from read have fits: "unat off + unat width \<le> length buf"
    by (simp add: read_int_at_eq [OF pos] split: if_splits)
  obtain v where v: "get (drop (unat off) buf) = Inr v"
      "drop (unat off) buf = put [] v @ drop (unat (off + width)) buf"
    by (rule get_at [OF pos fits])
  from read have "x = v \<and> off' = off + width"
    by (simp add: read_int_at_eq [OF pos] fits v(1))
  with v(2) next_position [OF pos fits] show ?thesis by simp
qed

lemma read_int_at_complete:
  assumes pos: "in_vec buf off" and pos': "in_vec buf off'"
    and bytes: "drop (unat off) buf = put [] x @ drop (unat off') buf"
  shows "read_int_at width get msg buf off = Inr (x, off')"
proof -
  have after: "unat off' = unat off + unat width"
    using position_after [OF pos pos' bytes] by (simp add: length_put)
  then have fits: "unat off + unat width \<le> length buf"
    using pos' by (simp add: in_vec_def)
  have "off' = off + width"
    using after next_position(1) [OF pos fits] by (simp add: word_unat_eq_iff)
  moreover have "get (drop (unat off) buf) = Inr x"
    using bytes by (auto simp: get_iff)
  ultimately show ?thesis by (simp add: read_int_at_eq [OF pos] fits)
qed

lemma read_int_at_error:
  assumes pos: "in_vec buf off" and read: "read_int_at width get msg buf off = Inl e"
  shows "e = RuntimeError msg"
proof (cases "unat off + unat width \<le> length buf")
  case True
  obtain v where "get (drop (unat off) buf) = Inr v" by (rule get_at [OF pos True])
  with read True show ?thesis by (simp add: read_int_at_eq [OF pos])
next
  case False
  with read show ?thesis by (simp add: read_int_at_eq [OF pos])
qed

lemma field_codec_read_int_at: "field_codec put (read_int_at width get msg) (\<lambda>_. True)"
proof
  show "put buf x = buf @ put [] x" for buf x by (rule put_append)
  show "read_int_at width get msg buf off = Inr (x, off') \<longleftrightarrow>
      True \<and> in_vec buf off' \<and> drop (unat off) buf = put [] x @ drop (unat off') buf"
    if "in_vec buf off" for buf off x off'
    using read_int_at_sound [OF that] read_int_at_complete [OF that] by blast
  show "\<exists>m. e = RuntimeError m"
    if "in_vec buf off" and "read_int_at width get msg buf off = Inl e" for buf off e
    using read_int_at_error [OF that] by blast
qed

end

interpretation u32_codec: int_codec PutU32 GetU32 4
proof
  show "PutU32 buf v = buf @ PutU32 [] v" for buf v by (rule PutU32_append)
  show "GetU32 p = Inr v \<longleftrightarrow> (\<exists>rest. p = PutU32 [] v @ rest)" for p v by (rule GetU32_iff)
  show "\<exists>v. GetU32 p = Inr v" if "unat (4 :: u64) \<le> length p" for p
    using that by (intro GetU32_total) simp
qed simp_all

interpretation u64_codec: int_codec PutU64 GetU64 8
proof
  show "PutU64 buf v = buf @ PutU64 [] v" for buf v by (simp add: PutU64_bytes)
  show "GetU64 p = Inr v \<longleftrightarrow> (\<exists>rest. p = PutU64 [] v @ rest)" for p v by (rule GetU64_iff)
  show "\<exists>v. GetU64 p = Inr v" if "unat (8 :: u64) \<le> length p" for p
    using that by (intro GetU64_total) simp
qed simp_all

interpretation u32_field: field_codec PutU32 "read_int_at 4 GetU32 msg" "\<lambda>_. True" for msg
  by (rule u32_codec.field_codec_read_int_at)

interpretation u64_field: field_codec PutU64 "read_int_at 8 GetU64 msg" "\<lambda>_. True" for msg
  by (rule u64_codec.field_codec_read_int_at)

section \<open>Blocks and strings keep the promise\<close>

text \<open>A block is a 32-bit length, read as an integer field, and then that many bytes.\<close>

lemma ReadBytes_split:
  "ReadBytes buf off =
     res_bind (read_int_at 4 GetU32 ''protocol: truncated length prefix'' buf off) (\<lambda>(len, pos).
       if pos + ucast len > vec_size buf then Inl (RuntimeError ''protocol: truncated payload'')
       else res_bind (vec_range buf pos (pos + ucast len)) (\<lambda>out. Inr (out, pos + ucast len)))"
  by (auto simp: ReadBytes_def read_int_at_def res_bind_def Let_def split: sum.split)

lemma read_block:
  assumes pos: "in_vec buf pos"
  shows "(if pos + ucast (len :: u32) > vec_size buf
           then Inl (RuntimeError ''protocol: truncated payload'')
           else res_bind (vec_range buf pos (pos + ucast len)) (\<lambda>out. Inr (out, pos + ucast len))) =
         (if unat pos + unat len \<le> length buf
          then Inr (take (unat len) (drop (unat pos) buf), pos + ucast len)
          else Inl (RuntimeError ''protocol: truncated payload''))"
    and "unat pos + unat len \<le> length buf \<Longrightarrow> unat (pos + ucast len) = unat pos + unat len"
proof -
  have len: "unat (ucast len :: u64) = unat len" by (rule unat_ucast_up) simp
  note size = bounds_check [of buf pos "ucast len"]
  show sum: "unat (pos + ucast len) = unat pos + unat len" if "unat pos + unat len \<le> length buf"
    using size(2) pos unat_less_33 [of len] len by (simp add: in_vec_def)
  have "pos + ucast len > vec_size buf \<longleftrightarrow> length buf < unat pos + unat len"
    using size(1) pos unat_less_33 [of len] len by (simp add: in_vec_def)
  then show "(if pos + ucast (len :: u32) > vec_size buf
           then Inl (RuntimeError ''protocol: truncated payload'')
           else res_bind (vec_range buf pos (pos + ucast len)) (\<lambda>out. Inr (out, pos + ucast len))) =
         (if unat pos + unat len \<le> length buf
          then Inr (take (unat len) (drop (unat pos) buf), pos + ucast len)
          else Inl (RuntimeError ''protocol: truncated payload''))"
    using sum by (auto simp: vec_range_def word_le_nat_alt)
qed

lemma ReadBytes_eq:
  assumes "in_vec buf off"
  shows "ReadBytes buf off =
    res_bind (read_int_at 4 GetU32 ''protocol: truncated length prefix'' buf off) (\<lambda>(len, pos).
      if unat pos + unat len \<le> length buf
      then Inr (take (unat len) (drop (unat pos) buf), pos + ucast len)
      else Inl (RuntimeError ''protocol: truncated payload''))"
proof (cases "read_int_at 4 GetU32 ''protocol: truncated length prefix'' buf off")
  case (Inr r)
  then obtain len pos where r: "read_int_at 4 GetU32 ''protocol: truncated length prefix'' buf off = Inr (len, pos)"
    by (cases r) auto
  then have "in_vec buf pos" using u32_field.get_D(2) [OF assms] by blast
  then show ?thesis by (simp add: ReadBytes_split r read_block)
qed (simp add: ReadBytes_split)

lemma ReadBytes_sound:
  assumes pos: "in_vec buf off" and read: "ReadBytes buf off = Inr (d, off')"
  shows "length d < 2 ^ 32 \<and> in_vec buf off' \<and> drop (unat off) buf = PutBytes [] d @ drop (unat off') buf"
proof -
  from read obtain len p where len: "read_int_at 4 GetU32 ''protocol: truncated length prefix'' buf off = Inr (len, p)"
    and fits: "unat p + unat len \<le> length buf"
    and d: "d = take (unat len) (drop (unat p) buf)" and off': "off' = p + ucast len"
    by (auto simp: ReadBytes_eq [OF pos] split: if_splits)
  have p: "in_vec buf p" "drop (unat off) buf = PutU32 [] len @ drop (unat p) buf"
    using u32_field.get_D [OF pos len] by simp_all
  have d_len: "length d = unat len" using fits d by simp
  have next_p: "unat off' = unat p + unat len"
    using read_block(2) [OF p(1) fits] off' by simp
  have "drop (unat p) buf = d @ drop (unat off') buf"
    using append_take_drop_id [of "unat len" "drop (unat p) buf"]
    by (simp add: d next_p add.commute)
  moreover have "PutBytes [] d = PutU32 [] len @ d"
    by (simp add: PutBytes_append d_len)
  ultimately show ?thesis
    using p fits next_p d_len unsigned_less [of len] by (simp add: in_vec_def)
qed

lemma ReadBytes_complete:
  assumes pos: "in_vec buf off" and pos': "in_vec buf off'" and short: "length d < 2 ^ 32"
    and bytes: "drop (unat off) buf = PutBytes [] d @ drop (unat off') buf"
  shows "ReadBytes buf off = Inr (d, off')"
proof -
  let ?len = "of_nat (length d) :: u32"
  have len: "unat ?len = length d"
    using short by (simp add: unat_of_nat take_bit_nat_eq_self)
  from bytes have "drop (unat off) buf = PutU32 [] ?len @ (d @ drop (unat off') buf)"
    by (simp add: PutBytes_append)
  from u32_field.get_I [OF pos _ this]
  obtain p where p: "read_int_at 4 GetU32 ''protocol: truncated length prefix'' buf off = Inr (?len, p)"
      "in_vec buf p" "drop (unat p) buf = d @ drop (unat off') buf"
    by auto
  have after: "unat off' = unat p + length d" by (rule position_after [OF p(2) pos' p(3)])
  then have fits: "unat p + unat ?len \<le> length buf"
    using pos' len by (simp add: in_vec_def)
  have "off' = p + ucast ?len"
    using read_block(2) [OF p(2) fits] after len by (simp add: word_unat_eq_iff)
  then show ?thesis
    using fits len by (simp add: ReadBytes_eq [OF pos] p(1,3))
qed

lemma ReadBytes_error:
  "in_vec buf off \<Longrightarrow> ReadBytes buf off = Inl e \<Longrightarrow> \<exists>m. e = RuntimeError m"
  using u32_field.get_error [of buf off "''protocol: truncated length prefix''" e]
  by (auto simp: ReadBytes_eq split: if_splits)

interpretation bytes_field: field_codec PutBytes ReadBytes "\<lambda>d. length d < 2 ^ 32"
proof
  show "PutBytes buf d = buf @ PutBytes [] d" for buf d
    by (simp add: PutBytes_append)
  show "ReadBytes buf off = Inr (d, off') \<longleftrightarrow>
      length d < 2 ^ 32 \<and> in_vec buf off' \<and> drop (unat off) buf = PutBytes [] d @ drop (unat off') buf"
    if "in_vec buf off" for buf off d off'
    using ReadBytes_sound [OF that] ReadBytes_complete [OF that] by blast
qed (rule ReadBytes_error)

interpretation string_field: field_codec PutString ReadString "\<lambda>s. length s < 2 ^ 32"
proof
  show "PutString buf s = buf @ PutString [] s" for buf s
    by (simp add: PutString_bytes PutBytes_append)
  show "ReadString buf off = Inr (s, off') \<longleftrightarrow>
      length s < 2 ^ 32 \<and> in_vec buf off' \<and> drop (unat off) buf = PutString [] s @ drop (unat off') buf"
    if pos: "in_vec buf off" for buf off s off'
  proof -
    have "ReadString buf off = Inr (s, off') \<longleftrightarrow> ReadBytes buf off = Inr (map byte_of_char s, off')"
      using map_char_of_byte by (fastforce simp: ReadString_def simp del: map_map)
    then show ?thesis
      by (simp add: bytes_field.get_iff [OF pos] PutString_bytes)
  qed
  show "\<exists>m. e = RuntimeError m" if "in_vec buf off" and "ReadString buf off = Inl e" for buf off e
    using that bytes_field.get_error by (auto simp: ReadString_def)
qed

end
