(* ===== verification/Protocol.thy ===== *)
theory Protocol
  imports Wire
begin

text \<open>
  The message formats of \<open>core/include/protocol.hpp\<close> and \<open>core/src/protocol.cpp\<close>: the header, the
  three payloads, their encoders and decoders, and the contract every payload codec keeps.
\<close>

section \<open>Messages\<close>

definition kProtocolVersion :: u8 where
  "kProtocolVersion = 1"

definition kChunkSize :: u32 where
  "kChunkSize = 16 * 1024"

definition kHeaderSize :: nat where
  "kHeaderSize = 1 + 1 + 4"

text \<open>
  \<open>enum class MessageType : uint8_t\<close>. The cast from a byte is unchecked, and an enumeration with a
  fixed underlying type holds every byte: the values without a name are \<open>kUnnamed b\<close>.
\<close>

datatype MessageType =
    kHello
  | kHelloAck
  | kFileOffer
  | kFileAccept
  | kFileReject
  | kChunk
  | kFileDone
  | kError
  | kUnnamed u8

fun byte_of_type :: "MessageType \<Rightarrow> u8" where
  "byte_of_type kHello = 0x01"
| "byte_of_type kHelloAck = 0x02"
| "byte_of_type kFileOffer = 0x03"
| "byte_of_type kFileAccept = 0x04"
| "byte_of_type kFileReject = 0x05"
| "byte_of_type kChunk = 0x06"
| "byte_of_type kFileDone = 0x07"
| "byte_of_type kError = 0xFF"
| "byte_of_type (kUnnamed b) = b"

definition type_of_byte :: "u8 \<Rightarrow> MessageType" where
  "type_of_byte b =
     (if b = 0x01 then kHello
      else if b = 0x02 then kHelloAck
      else if b = 0x03 then kFileOffer
      else if b = 0x04 then kFileAccept
      else if b = 0x05 then kFileReject
      else if b = 0x06 then kChunk
      else if b = 0x07 then kFileDone
      else if b = 0xFF then kError
      else kUnnamed b)"

text \<open>A value of the enumeration is written by its name when it has one.\<close>

definition type_ok :: "MessageType \<Rightarrow> bool" where
  "type_ok t \<longleftrightarrow> type_of_byte (byte_of_type t) = t"

lemma byte_of_type_of_byte [simp]: "byte_of_type (type_of_byte b) = b"
  by (simp add: type_of_byte_def)

lemma type_ok_named [simp]:
  "type_ok kHello" "type_ok kHelloAck" "type_ok kFileOffer" "type_ok kFileAccept"
  "type_ok kFileReject" "type_ok kChunk" "type_ok kFileDone" "type_ok kError"
  by (simp_all add: type_ok_def type_of_byte_def)

record MessageHeader =
  version :: u8
  msg_type :: MessageType
  payload_len :: u32

record HelloPayload =
  device_name :: string
  x25519_public_key :: bytes

record FileOfferPayload =
  file_name :: string
  file_size :: u64
  sha256 :: bytes
  total_chunks :: u32

record ChunkPayload =
  chunk_index :: u32
  nonce :: bytes
  ciphertext :: bytes
  tag :: bytes

section \<open>Framing\<close>

definition FrameMessage :: "MessageType \<Rightarrow> bytes \<Rightarrow> bytes" where
  "FrameMessage type payload =
     (let out = [];
          out = out @ [kProtocolVersion];
          out = out @ [byte_of_type type];
          out = PutU32 out (of_nat (length payload))
      in out @ payload)"

definition ParseHeader :: "bytes \<Rightarrow> MessageHeader result" where
  "ParseHeader raw =
     (if length raw < kHeaderSize then Inl (RuntimeError ''protocol: header too short'')
      else
        res_bind (read_byte raw 0) (\<lambda>v.
        res_bind (read_byte raw 1) (\<lambda>t.
        res_bind (GetU32 (drop 2 raw)) (\<lambda>len.
        let h = \<lparr>version = v, msg_type = type_of_byte t, payload_len = len\<rparr> in
        if version h \<noteq> kProtocolVersion
        then Inl (RuntimeError
          ''protocol: version mismatch, peer uses a different protocol version'')
        else Inr h))))"

section \<open>Payloads\<close>

definition EncodeHello :: "HelloPayload \<Rightarrow> bytes" where
  "EncodeHello p =
     (let buf = PutString [] (device_name p)
      in PutBytes buf (x25519_public_key p))"

definition DecodeHello :: "bytes \<Rightarrow> HelloPayload result" where
  "DecodeHello payload =
     res_bind (ReadString payload 0) (\<lambda>(name, offset).
     res_bind (ReadBytes payload offset) (\<lambda>(key, offset).
     Inr \<lparr>device_name = name, x25519_public_key = key\<rparr>))"

definition EncodeFileOffer :: "FileOfferPayload \<Rightarrow> bytes" where
  "EncodeFileOffer p =
     (let buf = PutString [] (file_name p);
          buf = PutU64 buf (file_size p);
          buf = PutBytes buf (sha256 p)
      in PutU32 buf (total_chunks p))"

definition DecodeFileOffer :: "bytes \<Rightarrow> FileOfferPayload result" where
  "DecodeFileOffer payload =
     res_bind (ReadString payload 0) (\<lambda>(name, offset).
     res_bind (read_int_at 8 GetU64 ''protocol: truncated file_size'' payload offset) (\<lambda>(size, offset).
     res_bind (ReadBytes payload offset) (\<lambda>(hash, offset).
     res_bind (read_int_at 4 GetU32 ''protocol: truncated total_chunks'' payload offset) (\<lambda>(n, offset).
     Inr \<lparr>file_name = name, file_size = size, sha256 = hash, total_chunks = n\<rparr>))))"

definition EncodeChunk :: "ChunkPayload \<Rightarrow> bytes" where
  "EncodeChunk p =
     (let buf = PutU32 [] (chunk_index p);
          buf = PutBytes buf (nonce p);
          buf = PutBytes buf (ciphertext p)
      in PutBytes buf (tag p))"

definition DecodeChunk :: "bytes \<Rightarrow> ChunkPayload result" where
  "DecodeChunk payload =
     res_bind (read_int_at 4 GetU32 ''protocol: truncated chunk_index'' payload 0) (\<lambda>(i, offset).
     res_bind (ReadBytes payload offset) (\<lambda>(n, offset).
     res_bind (ReadBytes payload offset) (\<lambda>(c, offset).
     res_bind (ReadBytes payload offset) (\<lambda>(t, offset).
     Inr \<lparr>chunk_index = i, nonce = n, ciphertext = c, tag = t\<rparr>))))"

text \<open>The values whose lengths the 32-bit prefixes can hold.\<close>

definition hello_ok :: "HelloPayload \<Rightarrow> bool" where
  "hello_ok p \<longleftrightarrow> length (device_name p) < 2 ^ 32 \<and> length (x25519_public_key p) < 2 ^ 32"

definition offer_ok :: "FileOfferPayload \<Rightarrow> bool" where
  "offer_ok p \<longleftrightarrow> length (file_name p) < 2 ^ 32 \<and> length (sha256 p) < 2 ^ 32"

definition chunk_ok :: "ChunkPayload \<Rightarrow> bool" where
  "chunk_ok p \<longleftrightarrow> length (nonce p) < 2 ^ 32 \<and> length (ciphertext p) < 2 ^ 32 \<and> length (tag p) < 2 ^ 32"

section \<open>What a payload codec promises\<close>

text \<open>
  A decoder accepts exactly the byte strings that begin with the encoding of a well-formed payload,
  and returns that payload; every other byte string is an exception.
\<close>

locale payload_codec =
  fixes encode :: "'p \<Rightarrow> bytes"
    and decode :: "bytes \<Rightarrow> 'p result"
    and wf :: "'p \<Rightarrow> bool"
  assumes decode_iff: "length buf < vec_limit \<Longrightarrow>
      decode buf = Inr p \<longleftrightarrow> wf p \<and> (\<exists>rest. buf = encode p @ rest)"
    and decode_error: "length buf < vec_limit \<Longrightarrow> decode buf = Inl e \<Longrightarrow> \<exists>m. e = RuntimeError m"
begin

lemma roundtrip: "wf p \<Longrightarrow> length (encode p @ rest) < vec_limit \<Longrightarrow> decode (encode p @ rest) = Inr p"
  by (subst decode_iff) auto

lemma encode_prefix_free:
  assumes "wf p" and "wf q" and "encode p @ r = encode q @ r'" and "length (encode p @ r) < vec_limit"
  shows "p = q \<and> r = r'"
proof -
  have "decode (encode p @ r) = Inr p" using assms(1,4) by (rule roundtrip)
  moreover have "decode (encode p @ r) = Inr q"
    using roundtrip [OF assms(2), of r'] assms(3,4) by simp
  ultimately have "p = q" by simp
  with assms(3) show ?thesis by simp
qed

lemma truncated_rejected:
  assumes "wf p" and "length (encode p) < vec_limit" and "n < length (encode p)"
  shows "\<exists>m. decode (take n (encode p)) = Inl (RuntimeError m)"
proof (cases "decode (take n (encode p))")
  case (Inl e)
  then show ?thesis using decode_error [of "take n (encode p)" e] assms by auto
next
  case (Inr q)
  then obtain rest where q: "wf q" "take n (encode p) = encode q @ rest"
    using decode_iff [of "take n (encode p)" q] assms by auto
  then have "encode p @ [] = encode q @ (rest @ drop n (encode p))"
    by (metis append_assoc append_take_drop_id self_append_conv)
  from encode_prefix_free [OF assms(1) q(1) this] assms(2,3) show ?thesis by simp
qed

lemma decode_safe: "length buf < vec_limit \<Longrightarrow> memory_safe (decode buf)"
  using decode_error by (cases "decode buf") (auto simp: memory_safe_iff)

end

section \<open>The three payload codecs keep the promise\<close>

text \<open>
  Soundness follows the reads with \<open>get_D\<close> of each field, completeness walks the encoding with
  \<open>get_I\<close>; no word or offset arithmetic is left at this level.
\<close>

lemma DecodeHello_sound:
  assumes "length buf < vec_limit" and "DecodeHello buf = Inr p"
  shows "hello_ok p \<and> (\<exists>rest. buf = EncodeHello p @ rest)"
proof -
  from assms(2) obtain o1 o2 where
      r1: "ReadString buf 0 = Inr (device_name p, o1)"
    and r2: "ReadBytes buf o1 = Inr (x25519_public_key p, o2)"
    by (auto simp: DecodeHello_def split: prod.splits)
  note f1 = string_field.get_D [OF in_vec_0 [OF assms(1)] r1]
  note f2 = bytes_field.get_D [OF f1(2) r2]
  have "EncodeHello p = PutString [] (device_name p) @ PutBytes [] (x25519_public_key p)"
    unfolding EncodeHello_def Let_def by (rule bytes_field.put_append)
  then show ?thesis using f1(1,3) f2(1,3) by (auto simp: hello_ok_def)
qed

lemma DecodeHello_complete:
  assumes "length (EncodeHello p @ rest) < vec_limit" and "hello_ok p"
  shows "DecodeHello (EncodeHello p @ rest) = Inr p"
proof -
  let ?buf = "EncodeHello p @ rest"
  have buf: "drop (unat 0) ?buf = PutString [] (device_name p) @ PutBytes [] (x25519_public_key p) @ rest"
    using bytes_field.put_append [of "PutString [] (device_name p)"] by (simp add: EncodeHello_def Let_def)
  obtain o1 where o1: "ReadString ?buf 0 = Inr (device_name p, o1)" "in_vec ?buf o1"
      "drop (unat o1) ?buf = PutBytes [] (x25519_public_key p) @ rest"
    using string_field.get_I [OF in_vec_0 [OF assms(1)] _ buf] assms(2) by (auto simp: hello_ok_def)
  obtain o2 where "ReadBytes ?buf o1 = Inr (x25519_public_key p, o2)"
    using bytes_field.get_I [OF o1(2) _ o1(3)] assms(2) by (auto simp: hello_ok_def)
  with o1(1) show ?thesis by (simp add: DecodeHello_def)
qed

lemma DecodeHello_error:
  assumes "length buf < vec_limit" and "DecodeHello buf = Inl e"
  shows "\<exists>m. e = RuntimeError m"
  using assms string_field.get_error [of buf 0] bytes_field.get_error [of buf]
    string_field.get_D(2) [of buf 0]
  by (fastforce simp: DecodeHello_def)

interpretation hello: payload_codec EncodeHello DecodeHello hello_ok
proof
  show "DecodeHello buf = Inr p \<longleftrightarrow> hello_ok p \<and> (\<exists>rest. buf = EncodeHello p @ rest)"
    if "length buf < vec_limit" for buf p
    using DecodeHello_sound [OF that] DecodeHello_complete that by blast
qed (rule DecodeHello_error)

lemma EncodeFileOffer_fields:
  "EncodeFileOffer p = PutString [] (file_name p) @ PutU64 [] (file_size p)
     @ PutBytes [] (sha256 p) @ PutU32 [] (total_chunks p)"
  unfolding EncodeFileOffer_def Let_def
  by (simp add: u32_field.put_append [of "PutBytes _ _"] bytes_field.put_append [of "_ @ _"]
      u64_field.put_append [of "PutString _ _"] u32_field.put_append [of "_ @ _"])

lemma DecodeFileOffer_sound:
  assumes "length buf < vec_limit" and "DecodeFileOffer buf = Inr p"
  shows "offer_ok p \<and> (\<exists>rest. buf = EncodeFileOffer p @ rest)"
proof -
  from assms(2) obtain o1 o2 o3 o4 where
      r1: "ReadString buf 0 = Inr (file_name p, o1)"
    and r2: "read_int_at 8 GetU64 ''protocol: truncated file_size'' buf o1 = Inr (file_size p, o2)"
    and r3: "ReadBytes buf o2 = Inr (sha256 p, o3)"
    and r4: "read_int_at 4 GetU32 ''protocol: truncated total_chunks'' buf o3 = Inr (total_chunks p, o4)"
    by (auto simp: DecodeFileOffer_def split: prod.splits)
  note f1 = string_field.get_D [OF in_vec_0 [OF assms(1)] r1]
  note f2 = u64_field.get_D [OF f1(2) r2]
  note f3 = bytes_field.get_D [OF f2(2) r3]
  note f4 = u32_field.get_D [OF f3(2) r4]
  show ?thesis
    using f1(1,3) f2(3) f3(1,3) f4(3) by (auto simp: offer_ok_def EncodeFileOffer_fields)
qed

lemma DecodeFileOffer_complete:
  assumes "length (EncodeFileOffer p @ rest) < vec_limit" and "offer_ok p"
  shows "DecodeFileOffer (EncodeFileOffer p @ rest) = Inr p"
proof -
  let ?buf = "EncodeFileOffer p @ rest"
  have buf: "drop (unat 0) ?buf = PutString [] (file_name p) @ PutU64 [] (file_size p)
      @ PutBytes [] (sha256 p) @ PutU32 [] (total_chunks p) @ rest"
    by (simp add: EncodeFileOffer_fields)
  obtain o1 where o1: "ReadString ?buf 0 = Inr (file_name p, o1)" "in_vec ?buf o1"
      "drop (unat o1) ?buf = PutU64 [] (file_size p)
        @ PutBytes [] (sha256 p) @ PutU32 [] (total_chunks p) @ rest"
    using string_field.get_I [OF in_vec_0 [OF assms(1)] _ buf] assms(2) by (auto simp: offer_ok_def)
  obtain o2 where o2: "read_int_at 8 GetU64 ''protocol: truncated file_size'' ?buf o1 = Inr (file_size p, o2)"
      "in_vec ?buf o2" "drop (unat o2) ?buf = PutBytes [] (sha256 p) @ PutU32 [] (total_chunks p) @ rest"
    using u64_field.get_I [OF o1(2) _ o1(3)] by blast
  obtain o3 where o3: "ReadBytes ?buf o2 = Inr (sha256 p, o3)" "in_vec ?buf o3"
      "drop (unat o3) ?buf = PutU32 [] (total_chunks p) @ rest"
    using bytes_field.get_I [OF o2(2) _ o2(3)] assms(2) by (auto simp: offer_ok_def)
  obtain o4 where "read_int_at 4 GetU32 ''protocol: truncated total_chunks'' ?buf o3 = Inr (total_chunks p, o4)"
    using u32_field.get_I [OF o3(2) _ o3(3)] by blast
  with o1(1) o2(1) o3(1) show ?thesis by (simp add: DecodeFileOffer_def)
qed

lemma DecodeFileOffer_error:
  assumes "length buf < vec_limit" and "DecodeFileOffer buf = Inl e"
  shows "\<exists>m. e = RuntimeError m"
proof -
  note start = in_vec_0 [OF assms(1)]
  from assms(2) consider
      "ReadString buf 0 = Inl e"
    | n o1 where "ReadString buf 0 = Inr (n, o1)"
        "read_int_at 8 GetU64 ''protocol: truncated file_size'' buf o1 = Inl e"
    | n o1 z o2 where "ReadString buf 0 = Inr (n, o1)"
        "read_int_at 8 GetU64 ''protocol: truncated file_size'' buf o1 = Inr (z, o2)"
        "ReadBytes buf o2 = Inl e"
    | n o1 z o2 h o3 where "ReadString buf 0 = Inr (n, o1)"
        "read_int_at 8 GetU64 ''protocol: truncated file_size'' buf o1 = Inr (z, o2)"
        "ReadBytes buf o2 = Inr (h, o3)"
        "read_int_at 4 GetU32 ''protocol: truncated total_chunks'' buf o3 = Inl e"
    by (auto simp: DecodeFileOffer_def)
  then show ?thesis
    by cases (metis start string_field.get_error string_field.get_D(2) u64_field.get_error
      u64_field.get_D(2) bytes_field.get_error bytes_field.get_D(2) u32_field.get_error)+
qed

interpretation offer: payload_codec EncodeFileOffer DecodeFileOffer offer_ok
proof
  show "DecodeFileOffer buf = Inr p \<longleftrightarrow> offer_ok p \<and> (\<exists>rest. buf = EncodeFileOffer p @ rest)"
    if "length buf < vec_limit" for buf p
    using DecodeFileOffer_sound [OF that] DecodeFileOffer_complete that by blast
qed (rule DecodeFileOffer_error)

lemma EncodeChunk_fields:
  "EncodeChunk p = PutU32 [] (chunk_index p) @ PutBytes [] (nonce p)
     @ PutBytes [] (ciphertext p) @ PutBytes [] (tag p)"
  unfolding EncodeChunk_def Let_def
  by (simp add: bytes_field.put_append [of "PutBytes _ _"] bytes_field.put_append [of "_ @ _"]
      bytes_field.put_append [of "PutU32 _ _"])

lemma DecodeChunk_sound:
  assumes "length buf < vec_limit" and "DecodeChunk buf = Inr p"
  shows "chunk_ok p \<and> (\<exists>rest. buf = EncodeChunk p @ rest)"
proof -
  from assms(2) obtain o1 o2 o3 o4 where
      r1: "read_int_at 4 GetU32 ''protocol: truncated chunk_index'' buf 0 = Inr (chunk_index p, o1)"
    and r2: "ReadBytes buf o1 = Inr (nonce p, o2)"
    and r3: "ReadBytes buf o2 = Inr (ciphertext p, o3)"
    and r4: "ReadBytes buf o3 = Inr (tag p, o4)"
    by (auto simp: DecodeChunk_def split: prod.splits)
  note f1 = u32_field.get_D [OF in_vec_0 [OF assms(1)] r1]
  note f2 = bytes_field.get_D [OF f1(2) r2]
  note f3 = bytes_field.get_D [OF f2(2) r3]
  note f4 = bytes_field.get_D [OF f3(2) r4]
  show ?thesis
    using f1(3) f2(1,3) f3(1,3) f4(1,3) by (auto simp: chunk_ok_def EncodeChunk_fields)
qed

lemma DecodeChunk_complete:
  assumes "length (EncodeChunk p @ rest) < vec_limit" and "chunk_ok p"
  shows "DecodeChunk (EncodeChunk p @ rest) = Inr p"
proof -
  let ?buf = "EncodeChunk p @ rest"
  have buf: "drop (unat 0) ?buf = PutU32 [] (chunk_index p) @ PutBytes [] (nonce p)
      @ PutBytes [] (ciphertext p) @ PutBytes [] (tag p) @ rest"
    by (simp add: EncodeChunk_fields)
  obtain o1 where o1: "read_int_at 4 GetU32 ''protocol: truncated chunk_index'' ?buf 0 = Inr (chunk_index p, o1)"
      "in_vec ?buf o1" "drop (unat o1) ?buf = PutBytes [] (nonce p)
        @ PutBytes [] (ciphertext p) @ PutBytes [] (tag p) @ rest"
    using u32_field.get_I [OF in_vec_0 [OF assms(1)] _ buf] by blast
  obtain o2 where o2: "ReadBytes ?buf o1 = Inr (nonce p, o2)" "in_vec ?buf o2"
      "drop (unat o2) ?buf = PutBytes [] (ciphertext p) @ PutBytes [] (tag p) @ rest"
    using bytes_field.get_I [OF o1(2) _ o1(3)] assms(2) by (auto simp: chunk_ok_def)
  obtain o3 where o3: "ReadBytes ?buf o2 = Inr (ciphertext p, o3)" "in_vec ?buf o3"
      "drop (unat o3) ?buf = PutBytes [] (tag p) @ rest"
    using bytes_field.get_I [OF o2(2) _ o2(3)] assms(2) by (auto simp: chunk_ok_def)
  obtain o4 where "ReadBytes ?buf o3 = Inr (tag p, o4)"
    using bytes_field.get_I [OF o3(2) _ o3(3)] assms(2) by (auto simp: chunk_ok_def)
  with o1(1) o2(1) o3(1) show ?thesis by (simp add: DecodeChunk_def)
qed

lemma DecodeChunk_error:
  assumes "length buf < vec_limit" and "DecodeChunk buf = Inl e"
  shows "\<exists>m. e = RuntimeError m"
proof -
  note start = in_vec_0 [OF assms(1)]
  from assms(2) consider
      "read_int_at 4 GetU32 ''protocol: truncated chunk_index'' buf 0 = Inl e"
    | i o1 where "read_int_at 4 GetU32 ''protocol: truncated chunk_index'' buf 0 = Inr (i, o1)"
        "ReadBytes buf o1 = Inl e"
    | i o1 n o2 where "read_int_at 4 GetU32 ''protocol: truncated chunk_index'' buf 0 = Inr (i, o1)"
        "ReadBytes buf o1 = Inr (n, o2)" "ReadBytes buf o2 = Inl e"
    | i o1 n o2 c o3 where "read_int_at 4 GetU32 ''protocol: truncated chunk_index'' buf 0 = Inr (i, o1)"
        "ReadBytes buf o1 = Inr (n, o2)" "ReadBytes buf o2 = Inr (c, o3)" "ReadBytes buf o3 = Inl e"
    by (auto simp: DecodeChunk_def)
  then show ?thesis
    by cases (metis start u32_field.get_error u32_field.get_D(2) bytes_field.get_error
      bytes_field.get_D(2))+
qed

interpretation chunk: payload_codec EncodeChunk DecodeChunk chunk_ok
proof
  show "DecodeChunk buf = Inr p \<longleftrightarrow> chunk_ok p \<and> (\<exists>rest. buf = EncodeChunk p @ rest)"
    if "length buf < vec_limit" for buf p
    using DecodeChunk_sound [OF that] DecodeChunk_complete that by blast
qed (rule DecodeChunk_error)

text \<open>The encodings of well-formed payloads fit in a vector.\<close>

lemma length_PutBytes [simp]: "length (PutBytes [] d) = 4 + length d"
  by (simp add: PutBytes_append)

lemma length_PutString [simp]: "length (PutString [] s) = 4 + length s"
  by (simp add: PutString_bytes)

lemma length_EncodeHello:
  "length (EncodeHello p) = 8 + length (device_name p) + length (x25519_public_key p)"
  using bytes_field.put_append [of "PutString [] (device_name p)" "x25519_public_key p"]
  by (simp add: EncodeHello_def Let_def)

lemma length_EncodeFileOffer:
  "length (EncodeFileOffer p) = 20 + length (file_name p) + length (sha256 p)"
  by (simp add: EncodeFileOffer_fields)

lemma length_EncodeChunk:
  "length (EncodeChunk p) = 16 + length (nonce p) + length (ciphertext p) + length (tag p)"
  by (simp add: EncodeChunk_fields)

lemma encodings_fit:
  "hello_ok h \<Longrightarrow> length (EncodeHello h) < vec_limit"
  "offer_ok f \<Longrightarrow> length (EncodeFileOffer f) < vec_limit"
  "chunk_ok c \<Longrightarrow> length (EncodeChunk c) < vec_limit"
  by (simp_all add: hello_ok_def offer_ok_def chunk_ok_def vec_limit_def
      length_EncodeHello length_EncodeFileOffer length_EncodeChunk)

section \<open>The header\<close>

lemma FrameMessage_bytes:
  "FrameMessage t payload =
     kProtocolVersion # byte_of_type t # PutU32 [] (of_nat (length payload)) @ payload"
  using PutU32_append [of "[kProtocolVersion, byte_of_type t]"]
  by (simp add: FrameMessage_def Let_def)

lemma drop_header_FrameMessage [simp]: "drop kHeaderSize (FrameMessage t payload) = payload"
  by (simp add: FrameMessage_bytes kHeaderSize_def)

lemma length_FrameMessage [simp]: "length (FrameMessage t payload) = kHeaderSize + length payload"
  by (simp add: FrameMessage_bytes kHeaderSize_def)

lemma ParseHeader_bytes:
  "ParseHeader (v # t # PutU32 [] n @ rest) =
     (if v = kProtocolVersion
      then Inr \<lparr>version = v, msg_type = type_of_byte t, payload_len = n\<rparr>
      else Inl (RuntimeError
        ''protocol: version mismatch, peer uses a different protocol version''))"
  by (simp add: ParseHeader_def kHeaderSize_def read_byte_def GetU32_PutU32 Let_def)

lemma header_bytes:
  assumes "kHeaderSize \<le> length raw"
  obtains v t n rest where "raw = v # t # PutU32 [] n @ rest"
proof -
  from assms obtain v t r where raw: "raw = v # t # r" "4 \<le> length r"
    by (auto simp: kHeaderSize_def numeral_eq_Suc Suc_le_length_iff)
  then show ?thesis
    using GetU32_total [of r] that by (auto simp: GetU32_iff)
qed

lemma ParseHeader_cases:
  "ParseHeader raw =
     (if length raw < kHeaderSize then Inl (RuntimeError ''protocol: header too short'')
      else if raw ! 0 \<noteq> kProtocolVersion
      then Inl (RuntimeError ''protocol: version mismatch, peer uses a different protocol version'')
      else Inr \<lparr>version = kProtocolVersion, msg_type = type_of_byte (raw ! 1),
                payload_len = of_nat (le_value (take 4 (drop 2 raw)))\<rparr>)"
proof (cases "length raw < kHeaderSize")
  case False
  then obtain v t n rest where raw: "raw = v # t # PutU32 [] n @ rest"
    using header_bytes by (metis not_less)
  then have "of_nat (le_value (take 4 (drop 2 raw))) = n"
    by (simp add: le_value_PutU32)
  with raw False show ?thesis by (simp add: ParseHeader_bytes)
qed (simp add: ParseHeader_def)

end
