(* ===== verification/Protocol_Props.thy ===== *)
theory Protocol_Props
  imports Protocol
begin

text \<open>
  The properties of the message formats, each with a witness that applies it to a concrete message.
\<close>

definition sample_hello :: HelloPayload where
  "sample_hello = \<lparr>device_name = ''Mac'', x25519_public_key = replicate 4 0xAB\<rparr>"

definition sample_offer :: FileOfferPayload where
  "sample_offer = \<lparr>file_name = ''report.pdf'', file_size = 123456789, sha256 = replicate 4 0x11, total_chunks = 42\<rparr>"

definition sample_chunk :: ChunkPayload where
  "sample_chunk = \<lparr>chunk_index = 7, nonce = replicate 12 0x22, ciphertext = [1, 2, 3, 4, 5], tag = replicate 16 0x33\<rparr>"

lemma DecodeHello_accepts:
  assumes "length buf < vec_limit"
  shows "DecodeHello buf = Inr p \<longleftrightarrow> hello_ok p \<and> (\<exists>rest. buf = EncodeHello p @ rest)"
  using assms by (rule hello.decode_iff)

lemma DecodeFileOffer_accepts:
  assumes "length buf < vec_limit"
  shows "DecodeFileOffer buf = Inr p \<longleftrightarrow> offer_ok p \<and> (\<exists>rest. buf = EncodeFileOffer p @ rest)"
  using assms by (rule offer.decode_iff)

lemma DecodeChunk_accepts:
  assumes "length buf < vec_limit"
  shows "DecodeChunk buf = Inr p \<longleftrightarrow> chunk_ok p \<and> (\<exists>rest. buf = EncodeChunk p @ rest)"
  using assms by (rule chunk.decode_iff)

text \<open>
  C11: each decoder accepts a buffer if and only if it begins with the encoding of a payload whose variable
  fields fit their 32-bit length prefixes, and then it returns exactly that payload; what follows the
  encoding is not looked at. So decoding inverts encoding, and no two payloads have the same encoding.
\<close>

theorem decoders_accept_encodings:
  assumes "length buf < vec_limit"
  shows "(DecodeHello buf = Inr h \<longleftrightarrow>
      (length (device_name h) < 2 ^ 32 \<and> length (x25519_public_key h) < 2 ^ 32) \<and>
      (\<exists>rest. buf = EncodeHello h @ rest)) \<and>
    (DecodeFileOffer buf = Inr f \<longleftrightarrow>
      (length (file_name f) < 2 ^ 32 \<and> length (sha256 f) < 2 ^ 32) \<and>
      (\<exists>rest. buf = EncodeFileOffer f @ rest)) \<and>
    (DecodeChunk buf = Inr c \<longleftrightarrow>
      (length (nonce c) < 2 ^ 32 \<and> length (ciphertext c) < 2 ^ 32 \<and> length (tag c) < 2 ^ 32) \<and>
      (\<exists>rest. buf = EncodeChunk c @ rest))"
  using DecodeHello_accepts [OF assms] DecodeFileOffer_accepts [OF assms] DecodeChunk_accepts [OF assms]
  by (simp add: hello_ok_def offer_ok_def chunk_ok_def)

theorem decoders_accept_encodings_witness:
  "DecodeHello (EncodeHello sample_hello @ [1, 2]) = Inr sample_hello \<and>
   DecodeFileOffer (EncodeFileOffer sample_offer) = Inr sample_offer \<and>
   DecodeChunk (EncodeChunk sample_chunk) = Inr sample_chunk"
proof -
  have "length (EncodeHello sample_hello @ [1, 2]) < vec_limit"
    and "length (EncodeFileOffer sample_offer) < vec_limit" and "length (EncodeChunk sample_chunk) < vec_limit"
    by (simp_all add: length_EncodeHello length_EncodeFileOffer length_EncodeChunk
        sample_hello_def sample_offer_def sample_chunk_def vec_limit_def)
  from this [THEN decoders_accept_encodings] show ?thesis
    by (auto simp: sample_hello_def sample_offer_def sample_chunk_def)
qed

text \<open>
  C12: a message cut off anywhere is rejected with an exception: no proper prefix of the encoding of a
  payload decodes.
\<close>

theorem truncated_payloads_rejected:
  assumes "hello_ok h" and "offer_ok f" and "chunk_ok c"
    and "i < length (EncodeHello h)" and "j < length (EncodeFileOffer f)" and "k < length (EncodeChunk c)"
  shows "(\<exists>m. DecodeHello (take i (EncodeHello h)) = Inl (RuntimeError m)) \<and>
    (\<exists>m. DecodeFileOffer (take j (EncodeFileOffer f)) = Inl (RuntimeError m)) \<and>
    (\<exists>m. DecodeChunk (take k (EncodeChunk c)) = Inl (RuntimeError m))"
  using hello.truncated_rejected [OF assms(1) encodings_fit(1) [OF assms(1)] assms(4)]
    offer.truncated_rejected [OF assms(2) encodings_fit(2) [OF assms(2)] assms(5)]
    chunk.truncated_rejected [OF assms(3) encodings_fit(3) [OF assms(3)] assms(6)]
  by blast

theorem truncated_payloads_rejected_witness:
  "(\<exists>m. DecodeHello (take 10 (EncodeHello sample_hello)) = Inl (RuntimeError m)) \<and>
   (\<exists>m. DecodeFileOffer (take 20 (EncodeFileOffer sample_offer)) = Inl (RuntimeError m)) \<and>
   (\<exists>m. DecodeChunk (take 0 (EncodeChunk sample_chunk)) = Inl (RuntimeError m))"
  by (rule truncated_payloads_rejected)
     (simp_all add: hello_ok_def offer_ok_def chunk_ok_def sample_hello_def sample_offer_def sample_chunk_def
       length_EncodeHello length_EncodeFileOffer length_EncodeChunk)

text \<open>
  C13: on no input, however damaged, does the parsing of a header or a payload read outside the buffer:
  the outcome is a value or an exception.
\<close>

theorem parsing_memory_safe:
  assumes "length buf < vec_limit"
  shows "memory_safe (ParseHeader buf) \<and> memory_safe (DecodeHello buf) \<and>
    memory_safe (DecodeFileOffer buf) \<and> memory_safe (DecodeChunk buf)"
proof (intro conjI)
  show "memory_safe (ParseHeader buf)" by (simp add: ParseHeader_cases)
qed (use assms in \<open>simp_all add: hello.decode_safe offer.decode_safe chunk.decode_safe\<close>)

theorem parsing_memory_safe_witness:
  "length [1, 2, 3 :: u8] < vec_limit \<and> memory_safe (DecodeFileOffer [1, 2, 3])"
  using parsing_memory_safe [of "[1, 2, 3]"] by (simp add: vec_limit_def)

text \<open>
  C14: what \<open>FrameMessage\<close> builds is understood: \<open>ParseHeader\<close> returns the version, the type and the
  length of the payload, and the payload is what follows the header; this holds also with more bytes
  behind the message.
\<close>

theorem frame_parses_back:
  assumes "type_ok t" and "length payload < 2 ^ 32"
  shows "\<exists>h. ParseHeader (FrameMessage t payload @ rest) = Inr h \<and>
    version h = kProtocolVersion \<and> msg_type h = t \<and> unat (payload_len h) = length payload \<and>
    take (unat (payload_len h)) (drop kHeaderSize (FrameMessage t payload @ rest)) = payload"
proof -
  have "unat (of_nat (length payload) :: u32) = length payload"
    using assms(2) by (simp add: unat_of_nat take_bit_nat_eq_self)
  then show ?thesis
    using assms(1) ParseHeader_bytes [of kProtocolVersion "byte_of_type t" "of_nat (length payload)" "payload @ rest"]
    by (simp add: FrameMessage_bytes type_ok_def kHeaderSize_def)
qed

theorem frame_parses_back_witness:
  "\<exists>h. ParseHeader (FrameMessage kFileOffer [9, 9, 9] @ [1]) = Inr h \<and> msg_type h = kFileOffer \<and>
    unat (payload_len h) = 3"
  using frame_parses_back [of kFileOffer "[9, 9, 9]" "[1]"] by auto

text \<open>
  C34: \<open>ParseHeader\<close> on every input: too short, another version, or the three fields, the length in
  little-endian order. The type byte is not checked and the announced length is not compared with what
  follows.
\<close>

theorem ParseHeader_behaviour:
  "ParseHeader raw =
    (if length raw < 6 then Inl (RuntimeError ''protocol: header too short'')
     else if raw ! 0 \<noteq> 1
     then Inl (RuntimeError ''protocol: version mismatch, peer uses a different protocol version'')
     else Inr \<lparr>version = 1, msg_type = type_of_byte (raw ! 1),
               payload_len = of_nat (le_value [raw ! 2, raw ! 3, raw ! 4, raw ! 5])\<rparr>)"
proof -
  have "take 4 (drop 2 raw) = [raw ! 2, raw ! 3, raw ! 4, raw ! 5]" if "\<not> length raw < 6"
  proof -
    from that obtain a b r where raw: "raw = a # b # r" "4 \<le> length r"
      by (auto simp: numeral_eq_Suc Suc_le_length_iff not_less)
    then obtain c d e f q where "r = c # d # e # f # q"
      by (auto simp: numeral_eq_Suc Suc_le_length_iff)
    with raw show ?thesis by simp
  qed
  then show ?thesis
    by (auto simp: ParseHeader_cases kHeaderSize_def kProtocolVersion_def)
qed

text \<open>
  C35: the length prefix has 32 bits. A block of \<open>2 ^ 32\<close> bytes or more is written in full under its
  length modulo \<open>2 ^ 32\<close>, and reading it back yields only that many bytes: the round trip is lost
  without an error.
\<close>

theorem long_block_is_cut:
  assumes "length d < vec_limit - 4"
  shows "\<exists>off. ReadBytes (PutBytes [] d) 0 = Inr (take (length d mod 2 ^ 32) d, off) \<and>
    drop (unat off) (PutBytes [] d) = drop (length d mod 2 ^ 32) d"
proof -
  let ?n = "length d mod 2 ^ 32"
  have len: "(of_nat (length d) :: u32) = of_nat ?n"
    by (simp add: word_unat_eq_iff unat_of_nat take_bit_eq_mod)
  have short: "length (take ?n d) < 2 ^ 32"
    by (simp add: min_def) (meson le_less_trans mod_less_divisor zero_less_numeral)
  have "length (take ?n d) = ?n" by simp
  then have "PutBytes [] (take ?n d) = PutU32 [] (of_nat ?n) @ take ?n d"
    by (simp only: PutBytes_append append_Nil)
  then have bytes: "drop (unat 0) (PutBytes [] d) = PutBytes [] (take ?n d) @ drop ?n d"
    by (simp add: PutBytes_append len del: of_nat_mod)
  have "in_vec (PutBytes [] d) 0" using assms by (intro in_vec_0) simp
  from bytes_field.get_I [OF this short bytes] show ?thesis by blast
qed

theorem long_block_is_cut_witness:
  "\<exists>off. ReadBytes (PutBytes [] (replicate (2 ^ 32 + 1) 7)) 0 = Inr ([7], off)"
proof -
  have "take ((2 ^ 32 + 1) mod 2 ^ 32) (replicate (2 ^ 32 + 1) (7 :: u8)) = [7]"
    by (simp only: take_replicate) (simp add: min_def)
  then show ?thesis
    using long_block_is_cut [of "replicate (2 ^ 32 + 1) 7"]
    by (simp only: length_replicate) (auto simp: vec_limit_def)
qed

text \<open>
  Integers are little-endian on the wire: reading succeeds when the bytes are there, and the value
  read is the sum of the bytes weighted by powers of 256, the first byte lowest; writing is the inverse.
\<close>

theorem integers_little_endian:
  "(GetU32 p = Inr v \<longleftrightarrow> 4 \<le> length p \<and> le_value (take 4 p) = unat v) \<and>
   (GetU64 p = Inr w \<longleftrightarrow> 8 \<le> length p \<and> le_value (take 8 p) = unat w) \<and>
   GetU32 (PutU32 [] v) = Inr v \<and> GetU64 (PutU64 [] w) = Inr w"
proof (intro conjI)
  show "GetU32 p = Inr v \<longleftrightarrow> 4 \<le> length p \<and> le_value (take 4 p) = unat v"
  proof
    assume "GetU32 p = Inr v"
    then show "4 \<le> length p \<and> le_value (take 4 p) = unat v" by (auto simp: GetU32_iff)
  next
    assume a: "4 \<le> length p \<and> le_value (take 4 p) = unat v"
    then obtain v' where v': "GetU32 p = Inr v'" using GetU32_total by blast
    then have "le_value (take 4 p) = unat v'" by (auto simp: GetU32_iff)
    with a have "v' = v" by (simp add: word_unat_eq_iff)
    with v' show "GetU32 p = Inr v" by simp
  qed
  show "GetU64 p = Inr w \<longleftrightarrow> 8 \<le> length p \<and> le_value (take 8 p) = unat w"
  proof
    assume "GetU64 p = Inr w"
    then show "8 \<le> length p \<and> le_value (take 8 p) = unat w" by (auto simp: GetU64_iff)
  next
    assume a: "8 \<le> length p \<and> le_value (take 8 p) = unat w"
    then obtain w' where w': "GetU64 p = Inr w'" using GetU64_total by blast
    then have "le_value (take 8 p) = unat w'" by (auto simp: GetU64_iff)
    with a have "w' = w" by (simp add: word_unat_eq_iff)
    with w' show "GetU64 p = Inr w" by simp
  qed
qed (use GetU32_PutU32 [of v "[]"] GetU64_PutU64 [of w "[]"] in simp_all)

end
