(* ===== verification/Files.thy ===== *)
theory Files
  imports Prelude
begin

text \<open>
  What the core uses of \<open>std::filesystem\<close> and of \<open>std::ifstream\<close>, \<open>std::ofstream\<close> and
  \<open>std::fstream\<close> in binary mode. Regular files only: a path names a byte sequence or nothing.
  A file system can refuse a path for reading or writing, and holds no file longer than
  \<open>file_limit\<close>: a write that would exceed it stores what fits and leaves the stream bad, which the
  caller sees only if it asks.
\<close>

record filesystem =
  files :: "string \<rightharpoonup> bytes"
  readable :: "string \<Rightarrow> bool"
  writable :: "string \<Rightarrow> bool"
  file_limit :: nat

section \<open>Reading\<close>

text \<open>
  An open input stream reads the content the file had when it was opened. \<open>in_good\<close> is the stream's
  value as a condition; a read of \<open>n\<close> bytes that finds fewer delivers those and makes it false.
\<close>

record ifstream =
  in_data :: bytes
  in_pos :: nat
  in_good :: bool

definition ifstream_open :: "filesystem \<Rightarrow> string \<Rightarrow> ifstream option" where
  "ifstream_open fs path =
     (case files fs path of
        None \<Rightarrow> None
      | Some d \<Rightarrow> if readable fs path then Some \<lparr>in_data = d, in_pos = 0, in_good = True\<rparr> else None)"

text \<open>\<open>f.read(buf, n)\<close>: the bytes stored at \<open>buf\<close> (as many as \<open>f.gcount()\<close> says) and the stream.\<close>

definition istream_read :: "nat \<Rightarrow> ifstream \<Rightarrow> bytes \<times> ifstream" where
  "istream_read n f =
     (if in_good f
      then let d = take n (drop (in_pos f) (in_data f))
           in (d, f\<lparr>in_pos := in_pos f + length d, in_good := length d = n\<rparr>)
      else ([], f))"

text \<open>The bytes not yet read.\<close>

definition in_rest :: "ifstream \<Rightarrow> bytes" where
  "in_rest f = drop (in_pos f) (in_data f)"

lemma istream_read_bad [simp]: "\<not> in_good f \<Longrightarrow> istream_read n f = ([], f)"
  by (simp add: istream_read_def)

lemma istream_read_data: "in_good f \<Longrightarrow> istream_read n f = (d, f') \<Longrightarrow> d = take n (in_rest f)"
  by (auto simp: istream_read_def in_rest_def Let_def)

lemma istream_read_rest: "in_good f \<Longrightarrow> istream_read n f = (d, f') \<Longrightarrow> in_rest f' = drop n (in_rest f)"
  by (auto simp: istream_read_def in_rest_def Let_def add.commute min_def)

lemma istream_read_good:
  "in_good f \<Longrightarrow> istream_read n f = (d, f') \<Longrightarrow> in_good f' \<longleftrightarrow> n \<le> length (in_rest f)"
  by (auto simp: istream_read_def in_rest_def Let_def)

lemma ifstream_open_iff:
  "ifstream_open fs path = Some f \<longleftrightarrow>
     (\<exists>d. files fs path = Some d \<and> readable fs path \<and> f = \<lparr>in_data = d, in_pos = 0, in_good = True\<rparr>)"
  by (auto simp: ifstream_open_def split: option.splits)

lemma ifstream_open_rest:
  "ifstream_open fs path = Some f \<Longrightarrow> in_good f \<and> files fs path = Some (in_rest f)"
  by (auto simp: ifstream_open_iff in_rest_def)

section \<open>Writing\<close>

text \<open>
  The content after \<open>d\<close> is stored at offset \<open>off\<close>: a gap before it is filled with zero bytes, and
  nothing is stored at or beyond the limit.
\<close>

definition write_at :: "nat \<Rightarrow> nat \<Rightarrow> bytes \<Rightarrow> bytes \<Rightarrow> bytes" where
  "write_at limit off d f =
     (let d = take (limit - off) d
      in if d = [] then f
         else take off (f @ replicate (off - length f) 0) @ d @ drop (off + length d) f)"

record ostream =
  out_path :: string
  out_pos :: nat
  out_good :: bool

text \<open>\<open>std::ofstream f(path, binary | trunc)\<close> creates the file or empties it.\<close>

definition ofstream_open_trunc :: "string \<Rightarrow> filesystem \<Rightarrow> ostream option \<times> filesystem" where
  "ofstream_open_trunc path fs =
     (if writable fs path
      then (Some \<lparr>out_path = path, out_pos = 0, out_good = True\<rparr>, fs\<lparr>files := (files fs)(path \<mapsto> [])\<rparr>)
      else (None, fs))"

text \<open>\<open>std::fstream f(path, binary | in | out)\<close> opens an existing file and keeps its content.\<close>

definition fstream_open :: "string \<Rightarrow> filesystem \<Rightarrow> ostream option" where
  "fstream_open path fs =
     (if files fs path \<noteq> None \<and> readable fs path \<and> writable fs path
      then Some \<lparr>out_path = path, out_pos = 0, out_good = True\<rparr> else None)"

text \<open>\<open>f.seekp(off)\<close>: a negative offset makes the stream bad.\<close>

definition ostream_seekp :: "int \<Rightarrow> ostream \<Rightarrow> ostream" where
  "ostream_seekp off f =
     (if \<not> out_good f then f
      else if off < 0 then f\<lparr>out_good := False\<rparr> else f\<lparr>out_pos := nat off\<rparr>)"

text \<open>\<open>f.write(d, d.size())\<close>, and \<open>f.put(c)\<close> for one byte.\<close>

definition ostream_write :: "bytes \<Rightarrow> ostream \<Rightarrow> filesystem \<Rightarrow> ostream \<times> filesystem" where
  "ostream_write d f fs =
     (if \<not> out_good f then (f, fs)
      else
        (f\<lparr>out_pos := out_pos f + length d,
           out_good := out_pos f + length d \<le> file_limit fs \<or> d = []\<rparr>,
         fs\<lparr>files := (files fs)(out_path f \<mapsto>
           write_at (file_limit fs) (out_pos f) d
             (case files fs (out_path f) of None \<Rightarrow> [] | Some c \<Rightarrow> c))\<rparr>))"

definition ostream_put :: "u8 \<Rightarrow> ostream \<Rightarrow> filesystem \<Rightarrow> ostream \<times> filesystem" where
  "ostream_put c = ostream_write [c]"

declare ofstream_open_trunc_def [stream_ops] fstream_open_def [stream_ops] ostream_seekp_def [stream_ops]
  ostream_write_def [stream_ops] ostream_put_def [stream_ops]

lemma write_at_Nil [simp]: "write_at limit off [] f = f"
  by (simp add: write_at_def)

lemma write_at_fits:
  assumes "off + length d \<le> limit" and "off \<le> length f"
  shows "write_at limit off d f = take off f @ d @ drop (off + length d) f"
  using assms by (cases "d = []") (simp_all add: write_at_def)

lemma length_write_at:
  assumes "off + length d \<le> limit" and "off \<le> length f"
  shows "length (write_at limit off d f) = max (length f) (off + length d)"
  using assms by (simp add: write_at_fits max_def)

lemma nth_write_at:
  assumes "off + length d \<le> limit" and "off \<le> length f" and "i < max (length f) (off + length d)"
  shows "write_at limit off d f ! i =
    (if off \<le> i \<and> i < off + length d then d ! (i - off) else f ! i)"
  using assms by (auto simp: write_at_fits nth_append min_def max_def split: if_splits)

lemma write_at_limit: "length f \<le> limit \<Longrightarrow> length (write_at limit off d f) \<le> limit"
  by (auto simp: write_at_def Let_def)

lemma write_at_beyond: "limit \<le> off \<Longrightarrow> write_at limit off d f = f"
  by (simp add: write_at_def)

lemma write_at_gap:
  assumes "off < limit"
  shows "write_at limit off [c] [] = replicate off 0 @ [c]"
  using assms by (cases "limit - off") (simp_all add: write_at_def)

end
