(* ===== verification/Crypto.thy ===== *)
theory Crypto
  imports Files
begin

text \<open>
  \<open>core/src/crypto.cpp\<close>: the X25519 key exchange, AES-256-GCM on one chunk, SHA-256. OpenSSL is not
  part of the repository: its calls are the fields of three records of functions, every routine
  takes the record it uses, and each call, each return code test and each buffer write of the source
  is in the definitions. What OpenSSL documents about the calls is stated once, as the contracts
  \<open>gcm_contract\<close>, \<open>kex_contract\<close> and \<open>digest_contract\<close>.
\<close>

section \<open>Sizes and records\<close>

definition kX25519KeySize :: nat where
  "kX25519KeySize = 32"

definition kAesKeySize :: nat where
  "kAesKeySize = 32"

definition kGcmNonceSize :: nat where
  "kGcmNonceSize = 12"

definition kGcmTagSize :: nat where
  "kGcmTagSize = 16"

lemmas crypto_sizes = kX25519KeySize_def kAesKeySize_def kGcmNonceSize_def kGcmTagSize_def

text \<open>\<open>KeyBytes\<close> is an array of \<open>kX25519KeySize\<close> bytes.\<close>

type_synonym KeyBytes = bytes

definition key_ok :: "KeyBytes \<Rightarrow> bool" where
  "key_ok k \<longleftrightarrow> length k = kX25519KeySize"

record KeyPair =
  public_key :: KeyBytes
  private_key :: KeyBytes

record EncryptedChunk =
  enc_nonce :: bytes
  enc_ciphertext :: bytes
  enc_tag :: bytes

lemma EncryptedChunk_parts [simp]:
  "\<lparr>enc_nonce = enc_nonce c, enc_ciphertext = enc_ciphertext c, enc_tag = enc_tag c\<rparr> = c"
  for c :: EncryptedChunk
  by (cases c) simp

definition OpenSSLError :: "string \<Rightarrow> failure" where
  "OpenSSLError whr = RuntimeError (''crypto: OpenSSL error in '' @ whr)"

text \<open>The cast \<open>(int)n\<close> of a size.\<close>

definition c_int :: "nat \<Rightarrow> int" where
  "c_int n = sint (of_nat n :: 32 word)"

lemma c_int_small: "n < 2 ^ 31 \<Longrightarrow> c_int n = int n"
  by (simp add: c_int_def signed_of_nat signed_take_bit_int_eq_self)

section \<open>The cipher interface of OpenSSL\<close>

datatype evp_cipher = EVP_aes_256_gcm

datatype cipher_ctrl =
    EVP_CTRL_GCM_SET_IVLEN int
  | EVP_CTRL_GCM_GET_TAG int
  | EVP_CTRL_GCM_SET_TAG int bytes

text \<open>
  \<open>'o\<close> is the library's own state (random generator, allocator), \<open>'c\<close> a cipher context. A null
  pointer argument is \<open>None\<close>. A call returns its return code, the bytes it stored through its output
  pointer where it has one, and the context it was given, changed.
\<close>

record ('o, 'c) cipher_lib =
  RAND_bytes :: "int \<Rightarrow> 'o \<Rightarrow> int \<times> bytes \<times> 'o"
  EVP_CIPHER_CTX_new :: "'o \<Rightarrow> 'c option \<times> 'o"
  EVP_CIPHER_CTX_free :: "'c \<Rightarrow> 'o \<Rightarrow> 'o"
  EVP_CIPHER_CTX_ctrl :: "'c \<Rightarrow> cipher_ctrl \<Rightarrow> int \<times> bytes \<times> 'c"
  EVP_EncryptInit_ex :: "'c \<Rightarrow> evp_cipher option \<Rightarrow> bytes option \<Rightarrow> bytes option \<Rightarrow> int \<times> 'c"
  EVP_EncryptUpdate :: "'c \<Rightarrow> bytes \<Rightarrow> int \<Rightarrow> int \<times> bytes \<times> 'c"
  EVP_EncryptFinal_ex :: "'c \<Rightarrow> int \<times> bytes \<times> 'c"
  EVP_DecryptInit_ex :: "'c \<Rightarrow> evp_cipher option \<Rightarrow> bytes option \<Rightarrow> bytes option \<Rightarrow> int \<times> 'c"
  EVP_DecryptUpdate :: "'c \<Rightarrow> bytes \<Rightarrow> int \<Rightarrow> int \<times> bytes \<times> 'c"
  EVP_DecryptFinal_ex :: "'c \<Rightarrow> int \<times> bytes \<times> 'c"

section \<open>Encrypting and decrypting a chunk\<close>

text \<open>\<open>EncryptChunk\<close> from the allocation of its context on: no later call touches the library state.\<close>

definition EncryptWithCtx ::
    "('o, 'c) cipher_lib \<Rightarrow> KeyBytes \<Rightarrow> bytes \<Rightarrow> bytes \<Rightarrow> 'c \<Rightarrow> EncryptedChunk result" where
  "EncryptWithCtx lib session_key iv plaintext ctx =
     (let (rc, ctx) = EVP_EncryptInit_ex lib ctx (Some EVP_aes_256_gcm) None None in
      if rc \<noteq> 1 then Inl (OpenSSLError ''EncryptInit alg'') else
      let (rc, _, ctx) = EVP_CIPHER_CTX_ctrl lib ctx (EVP_CTRL_GCM_SET_IVLEN (c_int kGcmNonceSize)) in
      if rc \<noteq> 1 then Inl (OpenSSLError ''set ivlen'') else
      let (rc, ctx) = EVP_EncryptInit_ex lib ctx None (Some session_key) (Some iv) in
      if rc \<noteq> 1 then Inl (OpenSSLError ''EncryptInit key/iv'') else
      let out = vec_resize [] (length plaintext) in
      res_bind
        (if plaintext \<noteq> []
         then let (rc, d, ctx) = EVP_EncryptUpdate lib ctx plaintext (c_int (length plaintext)) in
              res_bind (buf_store out 0 d) (\<lambda>out.
              if rc \<noteq> 1 then Inl (OpenSSLError ''EncryptUpdate'') else Inr (out, length d, ctx))
         else Inr (out, 0, ctx))
        (\<lambda>(out, out_len1, ctx).
      let (rc, d, ctx) = EVP_EncryptFinal_ex lib ctx in
      res_bind (buf_store out out_len1 d) (\<lambda>out.
      if rc \<noteq> 1 then Inl (OpenSSLError ''EncryptFinal'') else
      let out = vec_resize out (out_len1 + length d);
          tag = vec_resize [] kGcmTagSize;
          (rc, d, ctx) = EVP_CIPHER_CTX_ctrl lib ctx (EVP_CTRL_GCM_GET_TAG (c_int kGcmTagSize)) in
      res_bind (buf_store tag 0 d) (\<lambda>tag.
      if rc \<noteq> 1 then Inl (OpenSSLError ''get tag'') else
      Inr \<lparr>enc_nonce = iv, enc_ciphertext = out, enc_tag = tag\<rparr>))))"

definition EncryptChunk ::
    "('o, 'c) cipher_lib \<Rightarrow> KeyBytes \<Rightarrow> bytes \<Rightarrow> ('o, EncryptedChunk) prog" where
  "EncryptChunk lib session_key plaintext os =
     (let iv = vec_resize [] kGcmNonceSize;
          (rc, d, os) = RAND_bytes lib (c_int (length iv)) os in
      case buf_store iv 0 d of
        Inl e \<Rightarrow> (Inl e, os)
      | Inr iv \<Rightarrow>
          if rc \<noteq> 1 then (Inl (OpenSSLError ''RAND_bytes nonce''), os) else
          unique_ptr (EVP_CIPHER_CTX_new lib) (EVP_CIPHER_CTX_free lib) (OpenSSLError ''CIPHER_CTX_new'')
            (\<lambda>ctx. prog_of (EncryptWithCtx lib session_key iv plaintext ctx)) os)"

definition auth_failed :: failure where
  "auth_failed = RuntimeError ''crypto: chunk authentication failed (tampered or corrupted data)''"

definition DecryptWithCtx ::
    "('o, 'c) cipher_lib \<Rightarrow> KeyBytes \<Rightarrow> EncryptedChunk \<Rightarrow> 'c \<Rightarrow> bytes result" where
  "DecryptWithCtx lib session_key chunk ctx =
     (let (rc, ctx) = EVP_DecryptInit_ex lib ctx (Some EVP_aes_256_gcm) None None in
      if rc \<noteq> 1 then Inl (OpenSSLError ''DecryptInit alg'') else
      let (rc, _, ctx) = EVP_CIPHER_CTX_ctrl lib ctx (EVP_CTRL_GCM_SET_IVLEN (c_int kGcmNonceSize)) in
      if rc \<noteq> 1 then Inl (OpenSSLError ''set ivlen'') else
      let (rc, ctx) = EVP_DecryptInit_ex lib ctx None (Some session_key) (Some (enc_nonce chunk)) in
      if rc \<noteq> 1 then Inl (OpenSSLError ''DecryptInit key/iv'') else
      let plaintext = vec_resize [] (length (enc_ciphertext chunk)) in
      res_bind
        (if enc_ciphertext chunk \<noteq> []
         then let (rc, d, ctx) = EVP_DecryptUpdate lib ctx (enc_ciphertext chunk)
                                   (c_int (length (enc_ciphertext chunk))) in
              res_bind (buf_store plaintext 0 d) (\<lambda>plaintext.
              if rc \<noteq> 1 then Inl (OpenSSLError ''DecryptUpdate'') else Inr (plaintext, length d, ctx))
         else Inr (plaintext, 0, ctx))
        (\<lambda>(plaintext, out_len1, ctx).
      let (rc, _, ctx) = EVP_CIPHER_CTX_ctrl lib ctx
                           (EVP_CTRL_GCM_SET_TAG (c_int kGcmTagSize) (enc_tag chunk)) in
      if rc \<noteq> 1 then Inl (OpenSSLError ''set tag'') else
      let (ok, d, ctx) = EVP_DecryptFinal_ex lib ctx in
      res_bind (buf_store plaintext out_len1 d) (\<lambda>plaintext.
      if ok \<le> 0 then Inl auth_failed
      else Inr (vec_resize plaintext (out_len1 + length d)))))"

definition DecryptChunk ::
    "('o, 'c) cipher_lib \<Rightarrow> KeyBytes \<Rightarrow> EncryptedChunk \<Rightarrow> ('o, bytes) prog" where
  "DecryptChunk lib session_key chunk os =
     (if length (enc_nonce chunk) \<noteq> kGcmNonceSize
      then (Inl (RuntimeError ''crypto: bad nonce size''), os)
      else if length (enc_tag chunk) \<noteq> kGcmTagSize
      then (Inl (RuntimeError ''crypto: bad tag size''), os)
      else
        unique_ptr (EVP_CIPHER_CTX_new lib) (EVP_CIPHER_CTX_free lib) (OpenSSLError ''CIPHER_CTX_new'')
          (\<lambda>ctx. prog_of (DecryptWithCtx lib session_key chunk ctx)) os)"

section \<open>What OpenSSL documents about the cipher calls\<close>

text \<open>
  The life of a GCM context, as seen from outside: the algorithm is chosen, the nonce length is set,
  key and nonce are set, data is processed, and then the tag is read (encrypting) or presented
  (decrypting). The flag says whether the context encrypts.
\<close>

datatype gcm_phase =
    CtxNew
  | AlgSet bool
  | IvLenSet bool
  | Keyed bool bytes bytes bytes
  | Sealed bytes bytes bytes
  | Tagged bytes bytes bytes bytes

text \<open>
  The algebra of the cipher: \<open>E key iv\<close> and \<open>D key iv\<close> are length-preserving and inverse, \<open>T key iv\<close>
  computes the 16-byte tag of a ciphertext.
\<close>

definition gcm_algebra ::
    "(bytes \<Rightarrow> bytes \<Rightarrow> bytes \<Rightarrow> bytes) \<Rightarrow> (bytes \<Rightarrow> bytes \<Rightarrow> bytes \<Rightarrow> bytes) \<Rightarrow>
     (bytes \<Rightarrow> bytes \<Rightarrow> bytes \<Rightarrow> bytes) \<Rightarrow> bool" where
  "gcm_algebra E D T \<longleftrightarrow>
     (\<forall>k n p. length (E k n p) = length p \<and> length (D k n p) = length p \<and>
              D k n (E k n p) = p \<and> length (T k n p) = kGcmTagSize)"

definition gcm_init_laws :: "('o, 'c) cipher_lib \<Rightarrow> ('c \<Rightarrow> gcm_phase) \<Rightarrow> bool" where
  "gcm_init_laws lib st \<longleftrightarrow>
     (\<forall>os c os'. EVP_CIPHER_CTX_new lib os = (Some c, os') \<longrightarrow> st c = CtxNew) \<and>
     (\<forall>c. st c = CtxNew \<longrightarrow>
        (\<exists>c'. EVP_EncryptInit_ex lib c (Some EVP_aes_256_gcm) None None = (1, c') \<and> st c' = AlgSet True)) \<and>
     (\<forall>c. st c = CtxNew \<longrightarrow>
        (\<exists>c'. EVP_DecryptInit_ex lib c (Some EVP_aes_256_gcm) None None = (1, c') \<and> st c' = AlgSet False)) \<and>
     (\<forall>c e. st c = AlgSet e \<longrightarrow>
        (\<exists>d c'. EVP_CIPHER_CTX_ctrl lib c (EVP_CTRL_GCM_SET_IVLEN 12) = (1, d, c') \<and> st c' = IvLenSet e)) \<and>
     (\<forall>c key iv. st c = IvLenSet True \<longrightarrow> length key = 32 \<longrightarrow> length iv = 12 \<longrightarrow>
        (\<exists>c'. EVP_EncryptInit_ex lib c None (Some key) (Some iv) = (1, c') \<and> st c' = Keyed True key iv [])) \<and>
     (\<forall>c key iv. st c = IvLenSet False \<longrightarrow> length key = 32 \<longrightarrow> length iv = 12 \<longrightarrow>
        (\<exists>c'. EVP_DecryptInit_ex lib c None (Some key) (Some iv) = (1, c') \<and> st c' = Keyed False key iv []))"

definition gcm_data_laws ::
    "('o, 'c) cipher_lib \<Rightarrow> ('c \<Rightarrow> gcm_phase) \<Rightarrow> (bytes \<Rightarrow> bytes \<Rightarrow> bytes \<Rightarrow> bytes) \<Rightarrow>
     (bytes \<Rightarrow> bytes \<Rightarrow> bytes \<Rightarrow> bytes) \<Rightarrow> (bytes \<Rightarrow> bytes \<Rightarrow> bytes \<Rightarrow> bytes) \<Rightarrow> bool" where
  "gcm_data_laws lib st E D T \<longleftrightarrow>
     (\<forall>c key iv d. st c = Keyed True key iv [] \<longrightarrow> length d < 2 ^ 31 \<longrightarrow>
        (\<exists>c'. EVP_EncryptUpdate lib c d (int (length d)) = (1, E key iv d, c') \<and>
              st c' = Keyed True key iv (E key iv d))) \<and>
     (\<forall>c key iv ct. st c = Keyed True key iv ct \<longrightarrow>
        (\<exists>c'. EVP_EncryptFinal_ex lib c = (1, [], c') \<and> st c' = Sealed key iv ct)) \<and>
     (\<forall>c key iv ct. st c = Sealed key iv ct \<longrightarrow>
        (\<exists>c'. EVP_CIPHER_CTX_ctrl lib c (EVP_CTRL_GCM_GET_TAG 16) = (1, T key iv ct, c'))) \<and>
     (\<forall>c key iv ct. st c = Keyed False key iv [] \<longrightarrow> length ct < 2 ^ 31 \<longrightarrow>
        (\<exists>c'. EVP_DecryptUpdate lib c ct (int (length ct)) = (1, D key iv ct, c') \<and>
              st c' = Keyed False key iv ct)) \<and>
     (\<forall>c key iv ct t. st c = Keyed False key iv ct \<longrightarrow> length t = 16 \<longrightarrow>
        (\<exists>d c'. EVP_CIPHER_CTX_ctrl lib c (EVP_CTRL_GCM_SET_TAG 16 t) = (1, d, c') \<and>
              st c' = Tagged key iv ct t)) \<and>
     (\<forall>c key iv ct t. st c = Tagged key iv ct t \<longrightarrow>
        (\<exists>rc c'. EVP_DecryptFinal_ex lib c = (rc, [], c') \<and> (0 < rc \<longleftrightarrow> t = T key iv ct)))"

text \<open>\<open>RAND_bytes\<close> stores the bytes it was asked for and returns 1, or fails with another code.\<close>

definition rand_law :: "('o, 'c) cipher_lib \<Rightarrow> bool" where
  "rand_law lib \<longleftrightarrow>
     (\<forall>n os rc d os'. RAND_bytes lib n os = (rc, d, os') \<longrightarrow>
        int (length d) \<le> max 0 n \<and> (rc = 1 \<longrightarrow> int (length d) = max 0 n))"

definition gcm_contract ::
    "('o, 'c) cipher_lib \<Rightarrow> ('c \<Rightarrow> gcm_phase) \<Rightarrow> (bytes \<Rightarrow> bytes \<Rightarrow> bytes \<Rightarrow> bytes) \<Rightarrow>
     (bytes \<Rightarrow> bytes \<Rightarrow> bytes \<Rightarrow> bytes) \<Rightarrow> (bytes \<Rightarrow> bytes \<Rightarrow> bytes \<Rightarrow> bytes) \<Rightarrow> bool" where
  "gcm_contract lib st E D T \<longleftrightarrow>
     gcm_algebra E D T \<and> gcm_init_laws lib st \<and> gcm_data_laws lib st E D T \<and> rand_law lib"

text \<open>The generator has entropy and the allocator has memory: no call fails for want of resources.\<close>

definition cipher_available :: "('o, 'c) cipher_lib \<Rightarrow> bool" where
  "cipher_available lib \<longleftrightarrow>
     (\<forall>os. \<exists>d os'. RAND_bytes lib 12 os = (1, d, os')) \<and>
     (\<forall>os. \<exists>c os'. EVP_CIPHER_CTX_new lib os = (Some c, os'))"

section \<open>What the two routines compute\<close>

text \<open>The chunk that encrypting \<open>plaintext\<close> under a nonce yields.\<close>

definition sealed_chunk ::
    "(bytes \<Rightarrow> bytes \<Rightarrow> bytes \<Rightarrow> bytes) \<Rightarrow> (bytes \<Rightarrow> bytes \<Rightarrow> bytes \<Rightarrow> bytes) \<Rightarrow>
     KeyBytes \<Rightarrow> bytes \<Rightarrow> bytes \<Rightarrow> EncryptedChunk" where
  "sealed_chunk E T key iv plaintext =
     \<lparr>enc_nonce = iv, enc_ciphertext = E key iv plaintext, enc_tag = T key iv (E key iv plaintext)\<rparr>"

lemma c_int_sizes [simp]: "c_int kGcmNonceSize = 12" "c_int kGcmTagSize = 16" "c_int 12 = 12"
  by (simp_all add: c_int_small crypto_sizes)

text \<open>One step of a context's life per documented call.\<close>

lemma gcm_init_steps:
  assumes "gcm_init_laws lib st"
  shows "EVP_CIPHER_CTX_new lib os = (Some c, os') \<Longrightarrow> st c = CtxNew"
    and "st c = CtxNew \<Longrightarrow>
      \<exists>c'. EVP_EncryptInit_ex lib c (Some EVP_aes_256_gcm) None None = (1, c') \<and> st c' = AlgSet True"
    and "st c = CtxNew \<Longrightarrow>
      \<exists>c'. EVP_DecryptInit_ex lib c (Some EVP_aes_256_gcm) None None = (1, c') \<and> st c' = AlgSet False"
    and "st c = AlgSet e \<Longrightarrow>
      \<exists>d c'. EVP_CIPHER_CTX_ctrl lib c (EVP_CTRL_GCM_SET_IVLEN 12) = (1, d, c') \<and> st c' = IvLenSet e"
    and "st c = IvLenSet True \<Longrightarrow> key_ok key \<Longrightarrow> length iv = kGcmNonceSize \<Longrightarrow>
      \<exists>c'. EVP_EncryptInit_ex lib c None (Some key) (Some iv) = (1, c') \<and> st c' = Keyed True key iv []"
    and "st c = IvLenSet False \<Longrightarrow> key_ok key \<Longrightarrow> length iv = kGcmNonceSize \<Longrightarrow>
      \<exists>c'. EVP_DecryptInit_ex lib c None (Some key) (Some iv) = (1, c') \<and> st c' = Keyed False key iv []"
  using assms unfolding gcm_init_laws_def key_ok_def crypto_sizes by blast+

lemma gcm_data_steps:
  assumes "gcm_data_laws lib st E D T"
  shows "st c = Keyed True key iv [] \<Longrightarrow> length d < 2 ^ 31 \<Longrightarrow>
      \<exists>c'. EVP_EncryptUpdate lib c d (int (length d)) = (1, E key iv d, c') \<and>
           st c' = Keyed True key iv (E key iv d)"
    and "st c = Keyed True key iv ct \<Longrightarrow>
      \<exists>c'. EVP_EncryptFinal_ex lib c = (1, [], c') \<and> st c' = Sealed key iv ct"
    and "st c = Sealed key iv ct \<Longrightarrow>
      \<exists>c'. EVP_CIPHER_CTX_ctrl lib c (EVP_CTRL_GCM_GET_TAG 16) = (1, T key iv ct, c')"
    and "st c = Keyed False key iv [] \<Longrightarrow> length d < 2 ^ 31 \<Longrightarrow>
      \<exists>c'. EVP_DecryptUpdate lib c d (int (length d)) = (1, D key iv d, c') \<and>
           st c' = Keyed False key iv d"
    and "st c = Keyed False key iv ct \<Longrightarrow> length t = kGcmTagSize \<Longrightarrow>
      \<exists>d c'. EVP_CIPHER_CTX_ctrl lib c (EVP_CTRL_GCM_SET_TAG 16 t) = (1, d, c') \<and>
             st c' = Tagged key iv ct t"
    and "st c = Tagged key iv ct t \<Longrightarrow>
      \<exists>rc c'. EVP_DecryptFinal_ex lib c = (rc, [], c') \<and> (0 < rc \<longleftrightarrow> t = T key iv ct)"
  using assms unfolding gcm_data_laws_def crypto_sizes by meson+

lemma EncryptWithCtx_sealed:
  assumes "gcm_contract lib st E D T" and "st c = CtxNew"
    and "key_ok key" and "length iv = kGcmNonceSize" and "length p < 2 ^ 31"
  shows "EncryptWithCtx lib key iv p c = Inr (sealed_chunk E T key iv p)"
proof -
  from assms(1) have alg: "gcm_algebra E D T" and ini: "gcm_init_laws lib st"
    and dat: "gcm_data_laws lib st E D T"
    by (simp_all add: gcm_contract_def)
  obtain c1 where c1: "EVP_EncryptInit_ex lib c (Some EVP_aes_256_gcm) None None = (1, c1)" "st c1 = AlgSet True"
    using gcm_init_steps(2) [OF ini assms(2)] by blast
  obtain d2 c2 where c2: "EVP_CIPHER_CTX_ctrl lib c1 (EVP_CTRL_GCM_SET_IVLEN 12) = (1, d2, c2)" "st c2 = IvLenSet True"
    using gcm_init_steps(4) [OF ini c1(2)] by blast
  obtain c3 where c3: "EVP_EncryptInit_ex lib c2 None (Some key) (Some iv) = (1, c3)" "st c3 = Keyed True key iv []"
    using gcm_init_steps(5) [OF ini c2(2) assms(3,4)] by blast
  obtain c4 where c4: "p \<noteq> [] \<Longrightarrow> EVP_EncryptUpdate lib c3 p (int (length p)) = (1, E key iv p, c4)"
      "p = [] \<Longrightarrow> c4 = c3" "st c4 = Keyed True key iv (E key iv p)"
  proof (cases "p = []")
    case True
    then have "E key iv p = []" using alg by (metis gcm_algebra_def length_0_conv)
    with True c3(2) that show ?thesis by auto
  next
    case False
    then show ?thesis using gcm_data_steps(1) [OF dat c3(2) assms(5)] that by blast
  qed
  obtain c5 where c5: "EVP_EncryptFinal_ex lib c4 = (1, [], c5)" "st c5 = Sealed key iv (E key iv p)"
    using gcm_data_steps(2) [OF dat c4(3)] by blast
  obtain c6 where c6: "EVP_CIPHER_CTX_ctrl lib c5 (EVP_CTRL_GCM_GET_TAG 16) = (1, T key iv (E key iv p), c6)"
    using gcm_data_steps(3) [OF dat c5(2)] by blast
  have len: "length (E key iv p) = length p" "length (T key iv (E key iv p)) = kGcmTagSize"
    using alg by (auto simp: gcm_algebra_def)
  show ?thesis
  proof (cases "p = []")
    case True
    with len(1) have "E key iv p = []" by simp
    with True show ?thesis
      using c1(1) c2(1) c3(1) c4(2) c5(1) c6 len(2)
      by (simp add: EncryptWithCtx_def sealed_chunk_def Let_def)
  next
    case False
    then show ?thesis
      using c1(1) c2(1) c3(1) c4(1) c5(1) c6 len assms(5)
      by (simp add: EncryptWithCtx_def sealed_chunk_def Let_def c_int_small)
  qed
qed

lemma DecryptWithCtx_checked:
  assumes "gcm_contract lib st E D T" and "st c = CtxNew"
    and "key_ok key" and "length (enc_nonce ch) = kGcmNonceSize" and "length (enc_tag ch) = kGcmTagSize"
    and "length (enc_ciphertext ch) < 2 ^ 31"
  shows "DecryptWithCtx lib key ch c =
    (if enc_tag ch = T key (enc_nonce ch) (enc_ciphertext ch)
     then Inr (D key (enc_nonce ch) (enc_ciphertext ch)) else Inl auth_failed)"
proof -
  let ?iv = "enc_nonce ch" and ?ct = "enc_ciphertext ch" and ?t = "enc_tag ch"
  from assms(1) have alg: "gcm_algebra E D T" and ini: "gcm_init_laws lib st"
    and dat: "gcm_data_laws lib st E D T"
    by (simp_all add: gcm_contract_def)
  obtain c1 where c1: "EVP_DecryptInit_ex lib c (Some EVP_aes_256_gcm) None None = (1, c1)" "st c1 = AlgSet False"
    using gcm_init_steps(3) [OF ini assms(2)] by blast
  obtain d2 c2 where c2: "EVP_CIPHER_CTX_ctrl lib c1 (EVP_CTRL_GCM_SET_IVLEN 12) = (1, d2, c2)" "st c2 = IvLenSet False"
    using gcm_init_steps(4) [OF ini c1(2)] by blast
  obtain c3 where c3: "EVP_DecryptInit_ex lib c2 None (Some key) (Some ?iv) = (1, c3)" "st c3 = Keyed False key ?iv []"
    using gcm_init_steps(6) [OF ini c2(2) assms(3,4)] by blast
  obtain c4 where c4: "?ct \<noteq> [] \<Longrightarrow> EVP_DecryptUpdate lib c3 ?ct (int (length ?ct)) = (1, D key ?iv ?ct, c4)"
      "?ct = [] \<Longrightarrow> c4 = c3" "st c4 = Keyed False key ?iv ?ct"
    using gcm_data_steps(4) [OF dat c3(2) assms(6)] c3(2) that by (cases "?ct = []") auto
  obtain d5 c5 where c5: "EVP_CIPHER_CTX_ctrl lib c4 (EVP_CTRL_GCM_SET_TAG 16 ?t) = (1, d5, c5)"
      "st c5 = Tagged key ?iv ?ct ?t"
    using gcm_data_steps(5) [OF dat c4(3) assms(5)] by blast
  obtain rc c6 where c6: "EVP_DecryptFinal_ex lib c5 = (rc, [], c6)" "0 < rc \<longleftrightarrow> ?t = T key ?iv ?ct"
    using gcm_data_steps(6) [OF dat c5(2)] by blast
  have len: "length (D key ?iv ?ct) = length ?ct"
    using alg by (auto simp: gcm_algebra_def)
  show ?thesis
  proof (cases "?ct = []")
    case True
    with len have "D key ?iv ?ct = []" by simp
    with True show ?thesis
      using c1(1) c2(1) c3(1) c4(2) c5(1) c6
      by (simp add: DecryptWithCtx_def Let_def not_less [symmetric])
  next
    case False
    then show ?thesis
      using c1(1) c2(1) c3(1) c4(1) c5(1) c6 len assms(6)
      by (simp add: DecryptWithCtx_def Let_def c_int_small not_less [symmetric])
  qed
qed

lemma rand_step:
  assumes "rand_law lib" and "RAND_bytes lib n os = (rc, d, os')" and "0 \<le> n"
  shows "int (length d) \<le> n" and "rc = 1 \<Longrightarrow> int (length d) = n"
proof -
  have "int (length d) \<le> max 0 n \<and> (rc = 1 \<longrightarrow> int (length d) = max 0 n)"
    using assms(1,2) unfolding rand_law_def by blast
  then show "int (length d) \<le> n" and "rc = 1 \<Longrightarrow> int (length d) = n"
    using assms(3) by simp_all
qed

lemma available_steps:
  assumes "cipher_available lib"
  shows "\<exists>d os'. RAND_bytes lib 12 os = (1, d, os')"
    and "\<exists>c os'. EVP_CIPHER_CTX_new lib os = (Some c, os')"
  using assms unfolding cipher_available_def by blast+

text \<open>
  Encrypting gives the sealed chunk of some 12-byte nonce, or fails for want of randomness or memory:
  no other outcome, and no write outside a buffer.
\<close>

lemma EncryptChunk_outcome:
  assumes con: "gcm_contract lib st E D T" and key: "key_ok key" and p: "length p < 2 ^ 31"
    and run: "EncryptChunk lib key p os = (r, os')"
  shows "(\<exists>iv. length iv = kGcmNonceSize \<and> r = Inr (sealed_chunk E T key iv p)) \<or>
    r = Inl (OpenSSLError ''RAND_bytes nonce'') \<or> r = Inl (OpenSSLError ''CIPHER_CTX_new'')"
proof -
  have rand: "rand_law lib" and ini: "gcm_init_laws lib st" using con by (simp_all add: gcm_contract_def)
  obtain rc d os1 where rb: "RAND_bytes lib 12 os = (rc, d, os1)" by (metis prod_cases3)
  have dlen: "length d \<le> 12" "rc = 1 \<Longrightarrow> length d = 12"
    using rand_step [OF rand rb] by auto
  show ?thesis
  proof (cases "rc = 1")
    case False
    then show ?thesis
      using run rb dlen(1)
      by (auto simp: EncryptChunk_def crypto_sizes buf_store_def)
  next
    case True
    with dlen have d: "length d = kGcmNonceSize" by (simp add: crypto_sizes)
    obtain co os2 where ctx: "EVP_CIPHER_CTX_new lib os1 = (co, os2)" by fastforce
    show ?thesis
    proof (cases co)
      case None
      then show ?thesis
        using run rb True d ctx by (simp add: EncryptChunk_def crypto_sizes)
    next
      case (Some c)
      with gcm_init_steps(1) [OF ini] ctx have "st c = CtxNew" by blast
      from EncryptWithCtx_sealed [OF con this key d p]
      show ?thesis
        using run rb True d ctx Some by (auto simp: EncryptChunk_def crypto_sizes)
    qed
  qed
qed

lemma EncryptChunk_succeeds:
  assumes "gcm_contract lib st E D T" and "cipher_available lib" and "key_ok key" and "length p < 2 ^ 31"
  shows "\<exists>iv os'. length iv = kGcmNonceSize \<and>
    EncryptChunk lib key p os = (Inr (sealed_chunk E T key iv p), os')"
proof -
  have rand: "rand_law lib" and ini: "gcm_init_laws lib st" using assms(1) by (simp_all add: gcm_contract_def)
  obtain d os1 where rb: "RAND_bytes lib 12 os = (1, d, os1)"
    using available_steps(1) [OF assms(2)] by blast
  with rand_step(2) [OF rand rb] have d: "length d = kGcmNonceSize" by (simp add: crypto_sizes)
  obtain c os2 where ctx: "EVP_CIPHER_CTX_new lib os1 = (Some c, os2)"
    using available_steps(2) [OF assms(2)] by blast
  with gcm_init_steps(1) [OF ini] have "st c = CtxNew" by blast
  from EncryptWithCtx_sealed [OF assms(1) this assms(3) d assms(4)] rb ctx d
  have "EncryptChunk lib key p os = (Inr (sealed_chunk E T key d p), EVP_CIPHER_CTX_free lib c os2)"
    by (simp add: EncryptChunk_def crypto_sizes)
  with d show ?thesis by blast
qed

text \<open>Decrypting: every outcome, in the order in which the code tests.\<close>

lemma DecryptChunk_outcome:
  assumes con: "gcm_contract lib st E D T" and key: "key_ok key"
    and ct: "length (enc_ciphertext ch) < 2 ^ 31"
  shows "fst (DecryptChunk lib key ch os) =
    (if length (enc_nonce ch) \<noteq> kGcmNonceSize then Inl (RuntimeError ''crypto: bad nonce size'')
     else if length (enc_tag ch) \<noteq> kGcmTagSize then Inl (RuntimeError ''crypto: bad tag size'')
     else if fst (EVP_CIPHER_CTX_new lib os) = None then Inl (OpenSSLError ''CIPHER_CTX_new'')
     else if enc_tag ch \<noteq> T key (enc_nonce ch) (enc_ciphertext ch) then Inl auth_failed
     else Inr (D key (enc_nonce ch) (enc_ciphertext ch)))"
proof -
  have ini: "gcm_init_laws lib st" using con by (simp add: gcm_contract_def)
  show ?thesis
  proof (cases "EVP_CIPHER_CTX_new lib os")
    case (Pair co os1)
    show ?thesis
    proof (cases co)
      case None
      with Pair show ?thesis by (simp add: DecryptChunk_def)
    next
      case (Some c)
      with gcm_init_steps(1) [OF ini] Pair have "st c = CtxNew" by blast
      with Pair Some DecryptWithCtx_checked [OF con this key _ _ ct]
      show ?thesis by (simp add: DecryptChunk_def)
    qed
  qed
qed

text \<open>
  A library that writes no more than it was given, whatever length it was told: decrypting stores as many bytes
  as there were at most, and finishing stores none, as GCM does. With it no buffer of \<open>DecryptChunk\<close> overflows,
  for any key and any chunk.
\<close>

definition writes_within :: "('o, 'c) cipher_lib \<Rightarrow> bool" where
  "writes_within lib \<longleftrightarrow>
     (\<forall>c d n rc p c'. EVP_DecryptUpdate lib c d n = (rc, p, c') \<longrightarrow> length p \<le> length d) \<and>
     (\<forall>c rc p c'. EVP_DecryptFinal_ex lib c = (rc, p, c') \<longrightarrow> p = [])"

lemma DecryptChunk_within:
  assumes "writes_within lib"
  shows "fst (DecryptChunk lib key ch os) \<noteq> Inl OutOfBounds"
proof -
  have update: "length p \<le> length d" if "EVP_DecryptUpdate lib c d n = (rc, p, c')" for c d n rc p c'
    using assms that unfolding writes_within_def by blast
  have final: "p = []" if "EVP_DecryptFinal_ex lib c = (rc, p, c')" for c rc p c'
    using assms that unfolding writes_within_def by blast
  have "DecryptWithCtx lib key ch ctx \<noteq> Inl OutOfBounds" for ctx
    by (auto simp: DecryptWithCtx_def buf_store_def res_bind_def Let_def OpenSSLError_def auth_failed_def
        dest: update dest!: final split: prod.splits sum.splits if_splits)
  then show ?thesis
    by (auto simp: DecryptChunk_def unique_ptr_def prog_of_def OpenSSLError_def split: prod.splits option.splits)
qed

lemma DecryptChunk_sealed:
  assumes con: "gcm_contract lib st E D T" and "cipher_available lib" and "key_ok key"
    and "length p < 2 ^ 31" and "length iv = kGcmNonceSize"
  shows "fst (DecryptChunk lib key (sealed_chunk E T key iv p) os) = Inr p"
proof -
  have "gcm_algebra E D T" using con by (simp add: gcm_contract_def)
  then have alg: "length (E key iv p) = length p" "D key iv (E key iv p) = p"
      "length (T key iv (E key iv p)) = kGcmTagSize"
    by (simp_all add: gcm_algebra_def)
  have "fst (EVP_CIPHER_CTX_new lib os) \<noteq> None"
    using available_steps(2) [OF assms(2), of os] by auto
  then show ?thesis
    using DecryptChunk_outcome [OF con assms(3), of "sealed_chunk E T key iv p" os] alg assms(4,5)
    by (simp add: sealed_chunk_def)
qed

section \<open>The cipher as its clients see it\<close>

text \<open>
  What \<open>chunking.cpp\<close> needs of the cipher: encrypting succeeds, the parts have their sizes, and
  whatever it returns decrypts to the plaintext under the same key, in any later state of the library.
\<close>

locale session_cipher =
  fixes ready :: "'lib \<Rightarrow> bool"
    and enc :: "'lib \<Rightarrow> KeyBytes \<Rightarrow> bytes \<Rightarrow> ('o, EncryptedChunk) prog"
    and dec :: "'lib \<Rightarrow> KeyBytes \<Rightarrow> EncryptedChunk \<Rightarrow> ('o, bytes) prog"
  assumes enc_dec: "ready lib \<Longrightarrow> key_ok k \<Longrightarrow> length p < 2 ^ 31 \<Longrightarrow>
      \<exists>c os'. enc lib k p os = (Inr c, os') \<and> (\<forall>os2. fst (dec lib k c os2) = Inr p) \<and>
        length (enc_nonce c) = 12 \<and> length (enc_ciphertext c) = length p \<and> length (enc_tag c) = 16"
begin

lemma decrypts_to_plaintext:
  assumes "ready lib" and "key_ok k" and "length p < 2 ^ 31" and "enc lib k p os = (Inr c, os')"
  shows "fst (dec lib k c os2) = Inr p"
  using enc_dec [OF assms(1-3), of os] assms(4) by auto

text \<open>A chunk determines its plaintext.\<close>

lemma ciphertext_injective:
  assumes "ready lib" and "key_ok k" and "length p < 2 ^ 31" and "length q < 2 ^ 31"
    and "enc lib k p os = (Inr c, os1)" and "enc lib k q os' = (Inr c, os2)"
  shows "p = q"
  using decrypts_to_plaintext [OF assms(1,2,3,5), of os]
    decrypts_to_plaintext [OF assms(1,2,4,6), of os] by simp

end

definition cipher_ready :: "('o, 'c) cipher_lib \<Rightarrow> bool" where
  "cipher_ready lib \<longleftrightarrow> cipher_available lib \<and> (\<exists>st E D T. gcm_contract lib st E D T)"

interpretation gcm: session_cipher cipher_ready EncryptChunk DecryptChunk
proof
  fix lib :: "('o, 'c) cipher_lib" and k p os
  assume "cipher_ready lib" and k: "key_ok k" and p: "length (p :: bytes) < 2 ^ 31"
  then obtain st E D T where con: "gcm_contract lib st E D T" and av: "cipher_available lib"
    by (auto simp: cipher_ready_def)
  then have alg: "gcm_algebra E D T" by (simp add: gcm_contract_def)
  obtain iv os' where enc: "length iv = kGcmNonceSize"
      "EncryptChunk lib k p os = (Inr (sealed_chunk E T k iv p), os')"
    using EncryptChunk_succeeds [OF con av k p] by blast
  show "\<exists>c os'. EncryptChunk lib k p os = (Inr c, os') \<and>
      (\<forall>os2. fst (DecryptChunk lib k c os2) = Inr p) \<and>
      length (enc_nonce c) = 12 \<and> length (enc_ciphertext c) = length p \<and> length (enc_tag c) = 16"
    using enc DecryptChunk_sealed [OF con av k p enc(1)] alg
    by (intro exI [of _ "sealed_chunk E T k iv p"] exI [of _ os'])
       (simp add: sealed_chunk_def gcm_algebra_def crypto_sizes)
qed

end
