(* ===== verification/Digest.thy ===== *)
theory Digest
  imports Crypto
begin

text \<open>
  SHA-256 in \<open>core/src/crypto.cpp\<close>: the one-shot \<open>Sha256Bytes\<close>, and \<open>Sha256File\<close>, which feeds a file
  to an incremental context in pieces of 64 KiB.
\<close>

definition SHA256_DIGEST_LENGTH :: nat where
  "SHA256_DIGEST_LENGTH = 32"

text \<open>
  \<open>'m\<close> is a digest context, \<open>'o\<close> the state of the library. The algorithm argument is \<open>EVP_sha256()\<close>
  in every call of the source.
\<close>

record ('o, 'm) digest_lib =
  EVP_Digest :: "bytes \<Rightarrow> 'o \<Rightarrow> int \<times> bytes \<times> 'o"
  EVP_MD_CTX_new :: "'o \<Rightarrow> 'm option \<times> 'o"
  EVP_MD_CTX_free :: "'m \<Rightarrow> 'o \<Rightarrow> 'o"
  EVP_DigestInit_ex :: "'m \<Rightarrow> int \<times> 'm"
  EVP_DigestUpdate :: "'m \<Rightarrow> bytes \<Rightarrow> int \<times> 'm"
  EVP_DigestFinal_ex :: "'m \<Rightarrow> int \<times> bytes \<times> 'm"

definition Sha256Bytes :: "('o, 'm) digest_lib \<Rightarrow> bytes \<Rightarrow> ('o, bytes) prog" where
  "Sha256Bytes lib data os =
     (let digest = vec_resize [] SHA256_DIGEST_LENGTH;
          (rc, d, os) = EVP_Digest lib data os in
      case buf_store digest 0 d of
        Inl e \<Rightarrow> (Inl e, os)
      | Inr digest \<Rightarrow>
          if rc \<noteq> 1 then (Inl (OpenSSLError ''EVP_Digest''), os) else (Inr digest, os))"

text \<open>The size of the read buffer, \<open>1 << 16\<close>.\<close>

definition hash_buf_size :: nat where
  "hash_buf_size = 65536"

text \<open>The loop \<open>while (f)\<close>: a read that delivers nothing updates nothing, and ends the stream.\<close>

function hash_loop :: "('o, 'm) digest_lib \<Rightarrow> ifstream \<Rightarrow> 'm \<Rightarrow> 'm result" where
  "hash_loop lib f ctx =
     (if \<not> in_good f then Inr ctx
      else
        let (d, f') = istream_read hash_buf_size f in
        if d \<noteq> []
        then (let (rc, ctx) = EVP_DigestUpdate lib ctx d in
              if rc \<noteq> 1 then Inl (OpenSSLError ''DigestUpdate'') else hash_loop lib f' ctx)
        else hash_loop lib f' ctx)"
  by pat_completeness auto
termination
proof (relation "measure (\<lambda>(lib, f, ctx). length (in_rest f) + (if in_good f then 1 else 0))", goal_cases)
  case (2 lib f ctx x d f' y rc ctx')
  then show ?case
    using istream_read_rest [of f hash_buf_size d f'] istream_read_data [of f hash_buf_size d f']
    by (auto simp: hash_buf_size_def)
next
  case (3 lib f ctx x d f')
  then show ?case
    using istream_read_rest [of f hash_buf_size d f'] istream_read_data [of f hash_buf_size d f']
      istream_read_good [of f hash_buf_size d f']
    by (auto simp: hash_buf_size_def)
qed simp

declare hash_loop.simps [simp del]

text \<open>The part of \<open>Sha256File\<close> that works on its context, with the file open.\<close>

definition HashWithCtx :: "('o, 'm) digest_lib \<Rightarrow> ifstream \<Rightarrow> 'm \<Rightarrow> bytes result" where
  "HashWithCtx lib f ctx =
     (let (rc, ctx) = EVP_DigestInit_ex lib ctx in
      if rc \<noteq> 1 then Inl (OpenSSLError ''DigestInit'') else
      res_bind (hash_loop lib f ctx) (\<lambda>ctx.
      let digest = vec_resize [] SHA256_DIGEST_LENGTH;
          (rc, d, ctx) = EVP_DigestFinal_ex lib ctx in
      res_bind (buf_store digest 0 d) (\<lambda>digest.
      if rc \<noteq> 1 then Inl (OpenSSLError ''DigestFinal'') else Inr digest)))"

definition Sha256File :: "('o, 'm) digest_lib \<Rightarrow> filesystem \<Rightarrow> string \<Rightarrow> ('o, bytes) prog" where
  "Sha256File lib fs path os =
     (case ifstream_open fs path of
        None \<Rightarrow> (Inl (RuntimeError (''crypto: cannot open file for hashing: '' @ path)), os)
      | Some f \<Rightarrow>
          unique_ptr (EVP_MD_CTX_new lib) (EVP_MD_CTX_free lib) (OpenSSLError ''EVP_MD_CTX_new'')
            (\<lambda>ctx. prog_of (HashWithCtx lib f ctx)) os)"

section \<open>What OpenSSL documents about digests\<close>

text \<open>
  \<open>absorbed c = Some m\<close>: the context is initialised and has been given the bytes \<open>m\<close>. \<open>H\<close> is the hash
  function.
\<close>

definition digest_contract ::
    "('o, 'm) digest_lib \<Rightarrow> ('m \<Rightarrow> bytes option) \<Rightarrow> (bytes \<Rightarrow> bytes) \<Rightarrow> bool" where
  "digest_contract lib absorbed H \<longleftrightarrow>
     (\<forall>m. length (H m) = SHA256_DIGEST_LENGTH) \<and>
     (\<forall>m os. \<exists>os'. EVP_Digest lib m os = (1, H m, os')) \<and>
     (\<forall>os. \<exists>c os'. EVP_MD_CTX_new lib os = (Some c, os')) \<and>
     (\<forall>c. \<exists>c'. EVP_DigestInit_ex lib c = (1, c') \<and> absorbed c' = Some []) \<and>
     (\<forall>c m d. absorbed c = Some m \<longrightarrow>
        (\<exists>c'. EVP_DigestUpdate lib c d = (1, c') \<and> absorbed c' = Some (m @ d))) \<and>
     (\<forall>c m. absorbed c = Some m \<longrightarrow> (\<exists>c'. EVP_DigestFinal_ex lib c = (1, H m, c')))"

lemma digest_steps:
  assumes "digest_contract lib absorbed H"
  shows "length (H m) = SHA256_DIGEST_LENGTH"
    and "\<exists>os'. EVP_Digest lib m os = (1, H m, os')"
    and "\<exists>c os'. EVP_MD_CTX_new lib os = (Some c, os')"
    and "\<exists>c'. EVP_DigestInit_ex lib c = (1, c') \<and> absorbed c' = Some []"
    and "absorbed c = Some m \<Longrightarrow> \<exists>c'. EVP_DigestUpdate lib c d = (1, c') \<and> absorbed c' = Some (m @ d)"
    and "absorbed c = Some m \<Longrightarrow> \<exists>c'. EVP_DigestFinal_ex lib c = (1, H m, c')"
  using assms unfolding digest_contract_def by meson+

section \<open>Both routines compute the hash\<close>

lemma istream_read_split:
  assumes "in_good f" and "istream_read n f = (d, f')"
  shows "in_rest f = d @ (if in_good f' then in_rest f' else [])"
  using istream_read_data [OF assms] istream_read_rest [OF assms] istream_read_good [OF assms]
  by simp

lemma hash_loop_absorbs:
  assumes con: "digest_contract lib absorbed H" and "absorbed ctx = Some m"
  shows "\<exists>ctx'. hash_loop lib f ctx = Inr ctx' \<and>
    absorbed ctx' = Some (m @ (if in_good f then in_rest f else []))"
  using assms
proof (induction lib f ctx arbitrary: m rule: hash_loop.induct)
  case (1 lib f ctx)
  note con = "1.prems"(1)
  show ?case
  proof (cases "in_good f")
    case False
    with "1.prems" show ?thesis by (simp add: hash_loop.simps [of lib f ctx])
  next
    case True
    obtain d f' where read: "istream_read hash_buf_size f = (d, f')" by fastforce
    note rest = istream_read_split [OF True read]
    show ?thesis
    proof (cases "d = []")
      case False
      obtain c' where c': "EVP_DigestUpdate lib ctx d = (1, c')" "absorbed c' = Some (m @ d)"
        using digest_steps(5) [OF con "1.prems"(2)] by blast
      have "\<exists>ctx'. hash_loop lib f' c' = Inr ctx' \<and>
          absorbed ctx' = Some ((m @ d) @ (if in_good f' then in_rest f' else []))"
        using "1.IH"(1) [OF _ read [symmetric] refl _ _ refl _ con c'(2)] True False c'(1) by simp
      then show ?thesis
        using True False read c'(1) rest by (simp add: hash_loop.simps [of lib f ctx])
    next
      case empty: True
      have "\<exists>ctx'. hash_loop lib f' ctx = Inr ctx' \<and>
          absorbed ctx' = Some (m @ (if in_good f' then in_rest f' else []))"
        using "1.IH"(2) [OF _ read [symmetric] refl _ con "1.prems"(2)] True empty by simp
      then show ?thesis
        using True empty read rest by (simp add: hash_loop.simps [of lib f ctx])
    qed
  qed
qed

lemma HashWithCtx_hash:
  assumes con: "digest_contract lib absorbed H" and "in_good f"
  shows "HashWithCtx lib f ctx = Inr (H (in_rest f))"
proof -
  obtain c1 where c1: "EVP_DigestInit_ex lib ctx = (1, c1)" "absorbed c1 = Some []"
    using digest_steps(4) [OF con] by blast
  obtain c2 where c2: "hash_loop lib f c1 = Inr c2" "absorbed c2 = Some (in_rest f)"
    using hash_loop_absorbs [OF con c1(2), of f] assms(2) by auto
  obtain c3 where "EVP_DigestFinal_ex lib c2 = (1, H (in_rest f), c3)"
    using digest_steps(6) [OF con c2(2)] by blast
  then show ?thesis
    using c1(1) c2(1) digest_steps(1) [OF con] by (simp add: HashWithCtx_def)
qed

lemma Sha256Bytes_hash:
  assumes con: "digest_contract lib absorbed H"
  shows "fst (Sha256Bytes lib data os) = Inr (H data)"
proof -
  obtain os' where "EVP_Digest lib data os = (1, H data, os')"
    using digest_steps(2) [OF con] by blast
  then show ?thesis using digest_steps(1) [OF con] by (simp add: Sha256Bytes_def)
qed

lemma Sha256File_hash:
  assumes con: "digest_contract lib absorbed H" and "files fs path = Some content" and "readable fs path"
  shows "\<exists>os'. Sha256File lib fs path os = (Inr (H content), os')"
proof -
  obtain f where f: "ifstream_open fs path = Some f" "in_good f" "in_rest f = content"
    using assms(2,3) by (simp add: ifstream_open_def in_rest_def)
  obtain c os' where "EVP_MD_CTX_new lib os = (Some c, os')"
    using digest_steps(3) [OF con] by blast
  then show ?thesis
    using HashWithCtx_hash [OF con f(2)] f(1,3) by (simp add: Sha256File_def)
qed

lemma Sha256File_missing:
  assumes "files fs path = None \<or> \<not> readable fs path"
  shows "Sha256File lib fs path os = (Inl (RuntimeError (''crypto: cannot open file for hashing: '' @ path)), os)"
  using assms by (auto simp: Sha256File_def ifstream_open_def split: option.splits)

section \<open>Hashing as its clients see it\<close>

text \<open>
  What the two ends of a transfer need: hashing a readable file succeeds, and depends on its content
  alone.
\<close>

locale file_hash =
  fixes ready :: "'lib \<Rightarrow> (bytes \<Rightarrow> bytes) \<Rightarrow> bool"
    and hash_file :: "'lib \<Rightarrow> filesystem \<Rightarrow> string \<Rightarrow> ('o, bytes) prog"
  assumes hash_content: "ready lib H \<Longrightarrow> files fs path = Some content \<Longrightarrow> readable fs path \<Longrightarrow>
      \<exists>os'. hash_file lib fs path os = (Inr (H content), os')"
begin

lemma same_content_same_hash:
  assumes "ready lib H"
    and "files fs p = Some content" and "readable fs p"
    and "files fs' p' = Some content" and "readable fs' p'"
  shows "fst (hash_file lib fs p os) = fst (hash_file lib fs' p' os2)"
  using hash_content [OF assms(1-3), of os] hash_content [OF assms(1,4,5), of os2] by auto

end

definition digest_ready :: "('o, 'm) digest_lib \<Rightarrow> (bytes \<Rightarrow> bytes) \<Rightarrow> bool" where
  "digest_ready lib H \<longleftrightarrow> (\<exists>absorbed. digest_contract lib absorbed H)"

interpretation sha: file_hash digest_ready Sha256File
proof
  fix lib :: "('o, 'm) digest_lib" and H and fs :: filesystem and path content os
  assume "digest_ready lib H" and "files fs path = Some content" and "readable fs path"
  then show "\<exists>os'. Sha256File lib fs path os = (Inr (H content), os')"
    unfolding digest_ready_def by (metis Sha256File_hash)
qed

end
