(* ===== verification/Chunking.thy ===== *)
theory Chunking
  imports Protocol Digest
begin

text \<open>
  \<open>core/src/chunking.cpp\<close>: the offer for a file, the loop that cuts it into encrypted chunks, and the
  receiver that puts the chunks back at their places.
\<close>

text \<open>What the two ends of a transfer act on: the file system and the state of OpenSSL.\<close>

record 'o world =
  disk :: filesystem
  openssl :: 'o

section \<open>The sending side\<close>

text \<open>\<open>fs::path(p).filename()\<close>: what follows the last separator.\<close>

definition path_filename :: "string \<Rightarrow> string" where
  "path_filename path = rev (takeWhile (\<lambda>c. c \<noteq> CHR ''/'') (rev path))"

definition PrepareFileOffer :: "('o, 'm) digest_lib \<Rightarrow> string \<Rightarrow> ('o world, FileOfferPayload) prog" where
  "PrepareFileOffer dlib file_path w =
     (case files (disk w) file_path of
        None \<Rightarrow> (Inl (RuntimeError (''chunking: file not found: '' @ file_path)), w)
      | Some content \<Rightarrow>
          let name = path_filename file_path;
              fsize = (of_nat (length content) :: u64) in
          (case Sha256File dlib (disk w) file_path (openssl w) of
             (Inl e, os) \<Rightarrow> (Inl e, w\<lparr>openssl := os\<rparr>)
           | (Inr hash, os) \<Rightarrow>
               let chunks = (ucast ((fsize + ucast kChunkSize - 1) div ucast kChunkSize) :: u32);
                   chunks = (if fsize = 0 then 0 else chunks)
               in (Inr \<lparr>file_name = name, file_size = fsize, sha256 = hash, total_chunks = chunks\<rparr>,
                   w\<lparr>openssl := os\<rparr>)))"

text \<open>
  A chunk sink is any code of the caller; \<open>'u\<close> is what it has captured. The loop ends because every
  turn that does not leave it has taken bytes from the stream.
\<close>

type_synonym ('o, 'u) sink = "ChunkPayload \<Rightarrow> ('o world \<times> 'u, unit) prog"

function send_loop ::
    "('o, 'c) cipher_lib \<Rightarrow> KeyBytes \<Rightarrow> ('o, 'u) sink \<Rightarrow> ifstream \<Rightarrow> u32 \<Rightarrow> ('o world \<times> 'u, unit) prog" where
  "send_loop lib session_key sink f index (w, u) =
     (if \<not> in_good f then (Inr (), (w, u))
      else
        let (plaintext, f') = istream_read (unat kChunkSize) f in
        if plaintext = [] then (Inr (), (w, u))
        else
          (case EncryptChunk lib session_key plaintext (openssl w) of
             (Inl e, os) \<Rightarrow> (Inl e, (w\<lparr>openssl := os\<rparr>, u))
           | (Inr enc, os) \<Rightarrow>
               let payload = \<lparr>chunk_index = index, nonce = enc_nonce enc,
                              ciphertext = enc_ciphertext enc, tag = enc_tag enc\<rparr> in
               (case sink payload (w\<lparr>openssl := os\<rparr>, u) of
                  (Inl e, s) \<Rightarrow> (Inl e, s)
                | (Inr _, s) \<Rightarrow> send_loop lib session_key sink f' (index + 1) s)))"
  by pat_completeness auto
termination
proof (relation "measure (\<lambda>(lib, key, sink, f, index, s). length (in_rest f))", goal_cases)
  case (2 lib session_key sink f index w u x plaintext f')
  then show ?case
    using istream_read_rest [of f "unat kChunkSize" plaintext f']
      istream_read_data [of f "unat kChunkSize" plaintext f']
    by (auto simp: kChunkSize_def)
qed simp

declare send_loop.simps [simp del]

definition SendFileChunks ::
    "('o, 'c) cipher_lib \<Rightarrow> string \<Rightarrow> KeyBytes \<Rightarrow> ('o, 'u) sink \<Rightarrow> ('o world \<times> 'u, unit) prog" where
  "SendFileChunks lib file_path session_key sink s =
     (case ifstream_open (disk (fst s)) file_path of
        None \<Rightarrow> (Inl (RuntimeError (''chunking: cannot open file: '' @ file_path)), s)
      | Some f \<Rightarrow> send_loop lib session_key sink f 0 s)"

section \<open>The receiving side\<close>

record FileReceiver =
  output_path :: string
  expected_size :: u64
  chunk_total :: u32
  received_count :: u32
  expected_sha256 :: bytes
  received_mask :: "bool list"

text \<open>The constructor: it creates the file and extends it to the expected size.\<close>

definition FileReceiver_new ::
    "string \<Rightarrow> u64 \<Rightarrow> u32 \<Rightarrow> bytes \<Rightarrow> ('o world, FileReceiver) prog" where
  "FileReceiver_new path fsize chunks hash w =
     (let this = \<lparr>output_path = path, expected_size = fsize, chunk_total = chunks,
                  received_count = 0, expected_sha256 = hash,
                  received_mask = replicate (unat chunks) False\<rparr> in
      case ofstream_open_trunc (output_path this) (disk w) of
        (None, d) \<Rightarrow>
          (Inl (RuntimeError (''chunking: cannot create output file: '' @ output_path this)), w\<lparr>disk := d\<rparr>)
      | (Some f, d) \<Rightarrow>
          if expected_size this > 0
          then (let f = ostream_seekp (sint (expected_size this - 1)) f;
                    (f, d) = ostream_put 0 f d
                in (Inr this, w\<lparr>disk := d\<rparr>))
          else (Inr this, w\<lparr>disk := d\<rparr>))"

definition ReceiveChunk ::
    "('o, 'c) cipher_lib \<Rightarrow> KeyBytes \<Rightarrow> ChunkPayload \<Rightarrow> ('o world \<times> FileReceiver, unit) prog" where
  "ReceiveChunk lib session_key chunk s =
     (let (w, this) = s in
      if chunk_index chunk \<ge> chunk_total this
      then (Inl (RuntimeError ''chunking: chunk_index out of range''), (w, this))
      else
        let enc = \<lparr>enc_nonce = nonce chunk, enc_ciphertext = ciphertext chunk, enc_tag = tag chunk\<rparr> in
        (case DecryptChunk lib session_key enc (openssl w) of
           (Inl e, os) \<Rightarrow> (Inl e, (w\<lparr>openssl := os\<rparr>, this))
         | (Inr plaintext, os) \<Rightarrow>
             let w = w\<lparr>openssl := os\<rparr> in
             (case fstream_open (output_path this) (disk w) of
                None \<Rightarrow>
                  (Inl (RuntimeError ''chunking: cannot open output file for writing''), (w, this))
              | Some f \<Rightarrow>
                  let offset = sint (ucast (chunk_index chunk) * ucast kChunkSize :: u64);
                      f = ostream_seekp offset f;
                      (f, d) = ostream_write plaintext f (disk w);
                      w = w\<lparr>disk := d\<rparr>;
                      i = unat (chunk_index chunk) in
                  if i \<ge> length (received_mask this) then (Inl OutOfBounds, (w, this))
                  else if \<not> received_mask this ! i
                  then (Inr (), (w, this\<lparr>received_mask := (received_mask this)[i := True],
                                         received_count := received_count this + 1\<rparr>))
                  else (Inr (), (w, this)))))"

definition IsComplete :: "FileReceiver \<Rightarrow> bool" where
  "IsComplete this \<longleftrightarrow> received_count this = chunk_total this"

definition VerifyIntegrity :: "('o, 'm) digest_lib \<Rightarrow> FileReceiver \<Rightarrow> ('o world, bool) prog" where
  "VerifyIntegrity dlib this w =
     (case Sha256File dlib (disk w) (output_path this) (openssl w) of
        (Inl e, os) \<Rightarrow> (Inl e, w\<lparr>openssl := os\<rparr>)
      | (Inr actual, os) \<Rightarrow> (Inr (actual = expected_sha256 this), w\<lparr>openssl := os\<rparr>))"

section \<open>Blocks of a file\<close>

text \<open>
  The abstract view of a transfer: a file is the sequence of its blocks of \<open>kChunkSize\<close> bytes, the
  last one possibly shorter.
\<close>

abbreviation chunk_bytes :: nat where
  "chunk_bytes \<equiv> 16384"

definition num_chunks :: "bytes \<Rightarrow> nat" where
  "num_chunks content = (length content + chunk_bytes - 1) div chunk_bytes"

definition block :: "bytes \<Rightarrow> nat \<Rightarrow> bytes" where
  "block content i = take chunk_bytes (drop (i * chunk_bytes) content)"

lemma unat_kChunkSize [simp]: "unat kChunkSize = chunk_bytes"
  by (simp add: kChunkSize_def)

lemma less_num_chunks: "i < num_chunks content \<longleftrightarrow> i * chunk_bytes < length content"
  unfolding num_chunks_def by linarith

lemma block_empty: "block content i = [] \<longleftrightarrow> num_chunks content \<le> i"
  using less_num_chunks [of i content] by (auto simp: block_def)

lemma length_block: "length (block content i) = min chunk_bytes (length content - i * chunk_bytes)"
  by (simp add: block_def)

lemma length_block_small: "length (block content i) < 2 ^ 31"
  by (simp add: length_block)

lemma concat_blocks: "concat (map (block content) [0..<num_chunks content]) = content"
proof -
  have "concat (map (block content) [0..<n]) = take (n * chunk_bytes) content" for n
  proof (induction n)
    case (Suc n)
    have "take (Suc n * chunk_bytes) content = take (n * chunk_bytes) content @ block content n"
      using take_add [of "n * chunk_bytes" chunk_bytes content]
      by (simp only: block_def mult_Suc add.commute)
    with Suc show ?case by simp
  qed simp
  moreover have "length content \<le> num_chunks content * chunk_bytes"
    unfolding num_chunks_def by linarith
  ultimately show ?thesis by simp
qed

text \<open>One turn of the loop: the block that is read, and where the stream stands behind it.\<close>

lemma file_block_read:
  assumes good: "in_good f" and rest: "in_rest f = drop (i * chunk_bytes) content"
    and read: "istream_read chunk_bytes f = (d, f')"
  shows "d = block content i"
    and "i < num_chunks content \<Longrightarrow>
      in_good f' \<and> in_rest f' = drop (Suc i * chunk_bytes) content \<or> \<not> in_good f' \<and> Suc i = num_chunks content"
proof -
  show "d = block content i"
    using istream_read_data [OF good read] rest by (simp add: block_def)
  have "in_rest f' = drop (Suc i * chunk_bytes) content"
    using istream_read_rest [OF good read] rest by (simp add: add.commute)
  moreover have "in_good f' \<longleftrightarrow> chunk_bytes \<le> length content - i * chunk_bytes"
    using istream_read_good [OF good read] rest by simp
  then have "\<not> in_good f' \<Longrightarrow> \<not> Suc i < num_chunks content"
    unfolding less_num_chunks by simp
  ultimately show "in_good f' \<and> in_rest f' = drop (Suc i * chunk_bytes) content
      \<or> \<not> in_good f' \<and> Suc i = num_chunks content" if "i < num_chunks content"
    using that by (cases "in_good f'") simp_all
qed

section \<open>What the sender asks of a sink\<close>

text \<open>
  A payload that decrypts to \<open>p\<close> under the key, in every state of the library, and whose fields have
  the sizes of the format.
\<close>

definition chunk_opens :: "('o, 'c) cipher_lib \<Rightarrow> KeyBytes \<Rightarrow> ChunkPayload \<Rightarrow> bytes \<Rightarrow> bool" where
  "chunk_opens lib key c p \<longleftrightarrow>
     (\<forall>os. fst (DecryptChunk lib key
        \<lparr>enc_nonce = nonce c, enc_ciphertext = ciphertext c, enc_tag = tag c\<rparr> os) = Inr p) \<and>
     length (nonce c) = 12 \<and> length (ciphertext c) = length p \<and> length (tag c) = 16"

text \<open>Chunk number \<open>i\<close> of a file: the index, and an encryption of that block.\<close>

definition chunk_of :: "('o, 'c) cipher_lib \<Rightarrow> KeyBytes \<Rightarrow> bytes \<Rightarrow> nat \<Rightarrow> ChunkPayload \<Rightarrow> bool" where
  "chunk_of lib key content i c \<longleftrightarrow>
     i < num_chunks content \<and> chunk_index c = of_nat i \<and> chunk_opens lib key c (block content i)"

text \<open>
  The contract between \<open>SendFileChunks\<close> and the sink it is given: a sink that follows the transfer
  with a predicate \<open>inv\<close>, which says what holds when the first \<open>i\<close> chunks have been handed over, accepts
  the next chunk, and does not depend on the state of the cipher library, which the sender changes
  between two chunks.
\<close>

locale chunk_sink =
  fixes lib :: "('o, 'c) cipher_lib"
    and key :: KeyBytes
    and content :: bytes
    and sink :: "('o, 'u) sink"
    and inv :: "nat \<Rightarrow> 'o world \<times> 'u \<Rightarrow> bool"
  assumes library_free: "inv i (w, u) \<Longrightarrow> inv i (w\<lparr>openssl := os\<rparr>, u)"
    and next_chunk: "inv i s \<Longrightarrow> chunk_of lib key content i c \<Longrightarrow>
      \<exists>s'. sink c s = (Inr (), s') \<and> inv (Suc i) s'"
begin

lemma one_chunk:
  assumes ready: "cipher_ready lib" and key: "key_ok key"
    and i: "i < num_chunks content" and inv: "inv i (w, u)"
  obtains enc os s where
      "EncryptChunk lib key (block content i) (openssl w) = (Inr enc, os)"
    and "sink \<lparr>chunk_index = of_nat i, nonce = enc_nonce enc,
            ciphertext = enc_ciphertext enc, tag = enc_tag enc\<rparr> (w\<lparr>openssl := os\<rparr>, u) = (Inr (), s)"
    and "inv (Suc i) s"
proof -
  obtain enc os where enc: "EncryptChunk lib key (block content i) (openssl w) = (Inr enc, os)"
      "\<forall>os2. fst (DecryptChunk lib key enc os2) = Inr (block content i)"
      "length (enc_nonce enc) = 12" "length (enc_ciphertext enc) = length (block content i)"
      "length (enc_tag enc) = 16"
    using gcm.enc_dec [OF ready key length_block_small] by blast
  let ?c = "\<lparr>chunk_index = of_nat i, nonce = enc_nonce enc,
      ciphertext = enc_ciphertext enc, tag = enc_tag enc\<rparr>"
  have "chunk_of lib key content i ?c"
    using enc(2-5) i by (simp add: chunk_of_def chunk_opens_def)
  with library_free [OF inv] obtain s where "sink ?c (w\<lparr>openssl := os\<rparr>, u) = (Inr (), s)" "inv (Suc i) s"
    using next_chunk by blast
  with enc(1) that show ?thesis by blast
qed

lemma send_loop_delivers:
  assumes ready: "cipher_ready lib" and key: "key_ok key"
    and "in_good f \<and> in_rest f = drop (i * chunk_bytes) content \<or> \<not> in_good f \<and> i = num_chunks content"
    and "i \<le> num_chunks content" and "inv i s"
  shows "\<exists>s'. send_loop lib key sink f (of_nat i) s = (Inr (), s') \<and> inv (num_chunks content) s'"
  using assms(3-5)
proof (induction "num_chunks content - i" arbitrary: i f s)
  case 0
  then have i: "i = num_chunks content" by simp
  obtain w u where s: "s = (w, u)" by fastforce
  obtain d f' where read: "istream_read chunk_bytes f = (d, f')" by fastforce
  show ?case
  proof (cases "in_good f")
    case True
    then have "d = block content i"
      using file_block_read(1) [OF True _ read] "0.prems"(1) by simp
    then have "d = []" using i by (simp add: block_empty)
    with True read "0.prems"(3) i s show ?thesis
      by (simp add: send_loop.simps)
  next
    case False
    with "0.prems"(3) i s show ?thesis by (simp add: send_loop.simps)
  qed
next
  case (Suc m)
  then have i: "i < num_chunks content" by simp
  obtain w u where s: "s = (w, u)" by fastforce
  obtain d f' where read: "istream_read chunk_bytes f = (d, f')" by fastforce
  from Suc.prems(1) i have good: "in_good f" and rest: "in_rest f = drop (i * chunk_bytes) content"
    by auto
  have d: "d = block content i"
    by (rule file_block_read(1) [OF good rest read])
  with i have d_ne: "d \<noteq> []" by (simp add: block_empty)
  obtain enc os s' where enc: "EncryptChunk lib key d (openssl w) = (Inr enc, os)"
      "sink \<lparr>chunk_index = of_nat i, nonce = enc_nonce enc,
            ciphertext = enc_ciphertext enc, tag = enc_tag enc\<rparr> (w\<lparr>openssl := os\<rparr>, u) = (Inr (), s')"
      "inv (Suc i) s'"
    using one_chunk [OF ready key i] Suc.prems(3) s d by metis
  from file_block_read(2) [OF good rest read i]
  have "\<exists>s''. send_loop lib key sink f' (of_nat (Suc i)) s' = (Inr (), s'') \<and> inv (num_chunks content) s''"
    using Suc.hyps(1) [of "Suc i" f' s'] Suc.hyps(2) i enc(3) by simp
  then show ?case
    using good read d_ne enc(1,2) s by (simp add: send_loop.simps [of lib key sink f] add.commute)
qed

lemma SendFileChunks_delivers:
  assumes "cipher_ready lib" and "key_ok key"
    and "files (disk w) path = Some content" and "readable (disk w) path" and "inv 0 (w, u)"
  shows "\<exists>s'. SendFileChunks lib path key sink (w, u) = (Inr (), s') \<and> inv (num_chunks content) s'"
proof -
  obtain f where f: "ifstream_open (disk w) path = Some f" "in_good f" "in_rest f = content"
    using assms(3,4) by (simp add: ifstream_open_def in_rest_def)
  then show ?thesis
    using send_loop_delivers [OF assms(1,2), of f 0 "(w, u)"] assms(5)
    by (simp add: SendFileChunks_def)
qed

end

text \<open>
  A sink may also take the chunks in any order and more than once: then it is followed by the set of
  the indices it has accepted. Such a sink is in particular one for the sender.
\<close>

locale slot_sink =
  fixes lib :: "('o, 'c) cipher_lib"
    and key :: KeyBytes
    and content :: bytes
    and sink :: "('o, 'u) sink"
    and state :: "nat set \<Rightarrow> 'o world \<times> 'u \<Rightarrow> bool"
  assumes slot_library_free: "state S (w, u) \<Longrightarrow> state S (w\<lparr>openssl := os\<rparr>, u)"
    and accept: "state S s \<Longrightarrow> chunk_of lib key content i c \<Longrightarrow>
      \<exists>s'. sink c s = (Inr (), s') \<and> state (insert i S) s'"

sublocale slot_sink \<subseteq> chunk_sink lib key content sink "\<lambda>i. state {..<i}"
proof
  show "state {..<i} (w\<lparr>openssl := os\<rparr>, u)" if "state {..<i} (w, u)" for i w u os
    using that by (rule slot_library_free)
  show "\<exists>s'. sink c s = (Inr (), s') \<and> state {..<Suc i} s'"
    if "state {..<i} s" and "chunk_of lib key content i c" for i s c
    using accept [OF that] by (simp add: lessThan_Suc)
qed

text \<open>Handing over a list of chunks one by one, as a caller does that has queued them.\<close>

context slot_sink
begin

lemma deliver_any_order:
  assumes "state S s" and "list_all2 (chunk_of lib key content) is cs"
  shows "\<exists>s'. deliver_all sink cs s = (Inr (), s') \<and> state (S \<union> set is) s'"
  using assms(2,1)
proof (induction "is" cs arbitrary: S s rule: list_all2_induct)
  case (Cons i "is" c cs)
  obtain s1 where s1: "sink c s = (Inr (), s1)" "state (insert i S) s1"
    using accept [OF Cons.prems Cons.hyps(1)] by blast
  from Cons.IH [OF s1(2)] s1(1) show ?case by simp
qed simp

end

section \<open>A sink that queues the chunks\<close>

text \<open>The lambda of the tests that pushes every chunk to a vector.\<close>

definition collect_sink :: "('o, ChunkPayload list) sink" where
  "collect_sink c s = (let (w, chunks) = s in (Inr (), (w, chunks @ [c])))"

definition collected ::
    "('o, 'c) cipher_lib \<Rightarrow> KeyBytes \<Rightarrow> bytes \<Rightarrow> filesystem \<Rightarrow> nat \<Rightarrow> 'o world \<times> ChunkPayload list \<Rightarrow> bool" where
  "collected lib key content d i s \<longleftrightarrow>
     (let (w, chunks) = s in
      disk w = d \<and> i \<le> num_chunks content \<and> list_all2 (chunk_of lib key content) [0..<i] chunks)"

interpretation collect: chunk_sink lib key content collect_sink "collected lib key content d" for lib key content d
proof
  show "collected lib key content d i (w\<lparr>openssl := os\<rparr>, u)" if "collected lib key content d i (w, u)" for i w u os
    using that by (simp add: collected_def)
  show "\<exists>s'. collect_sink c s = (Inr (), s') \<and> collected lib key content d (Suc i) s'"
    if "collected lib key content d i s" and "chunk_of lib key content i c" for i s c
    using that by (auto simp: collected_def collect_sink_def chunk_of_def intro!: list_all2_appendI)
qed

text \<open>What a transfer puts on the wire: every block once, in order, encrypted, under its index.\<close>

lemma SendFileChunks_collects:
  assumes "cipher_ready lib" and "key_ok key"
    and "files (disk w) path = Some content" and "readable (disk w) path"
  shows "\<exists>w' cs. SendFileChunks lib path key collect_sink (w, []) = (Inr (), (w', cs)) \<and>
    disk w' = disk w \<and> list_all2 (chunk_of lib key content) [0..<num_chunks content] cs"
proof -
  have "collected lib key content (disk w) 0 (w, [])" by (simp add: collected_def)
  from collect.SendFileChunks_delivers [OF assms this] show ?thesis
    by (auto simp: collected_def split: prod.splits)
qed

section \<open>The offer\<close>

text \<open>
  The number of chunks is computed on 64-bit words and cut to 32 bits: it is the number of blocks,
  modulo \<open>2 ^ 32\<close>.
\<close>

lemma ucast_of_unat: "(ucast (x :: u64) :: u32) = of_nat (unat x)"
  by simp

lemma offered_chunks:
  assumes "n < vec_limit"
  shows "(ucast ((of_nat n + ucast kChunkSize - 1 :: u64) div ucast kChunkSize) :: u32)
    = of_nat ((n + chunk_bytes - 1) div chunk_bytes)"
proof -
  have k: "unat (ucast kChunkSize :: u64) = chunk_bytes" by (simp add: unat_ucast_up)
  have "(of_nat n + ucast kChunkSize - 1 :: u64) = of_nat (n + chunk_bytes - 1)"
    by (simp add: kChunkSize_def)
  moreover have "unat (of_nat (n + chunk_bytes - 1) :: u64) = n + chunk_bytes - 1"
    using assms by (simp only: unat_of_nat) (simp add: vec_limit_def take_bit_nat_eq_self)
  ultimately have "unat ((of_nat n + ucast kChunkSize - 1 :: u64) div ucast kChunkSize)
      = (n + chunk_bytes - 1) div chunk_bytes"
    by (simp only: unat_div k)
  then show ?thesis by (simp only: ucast_of_unat)
qed

lemma PrepareFileOffer_offer:
  assumes "digest_ready dlib H" and "files (disk w) path = Some content" and "readable (disk w) path"
    and "length content < vec_limit"
  shows "\<exists>os. PrepareFileOffer dlib path w =
    (Inr \<lparr>file_name = path_filename path, file_size = of_nat (length content),
          sha256 = H content, total_chunks = of_nat (num_chunks content)\<rparr>, w\<lparr>openssl := os\<rparr>)"
proof -
  obtain os where h: "Sha256File dlib (disk w) path (openssl w) = (Inr (H content), os)"
    using sha.hash_content [OF assms(1-3)] by blast
  have "num_chunks content = 0" if "content = []"
    using that by (simp add: num_chunks_def)
  moreover have "(of_nat (length content) :: u64) = 0 \<longleftrightarrow> content = []"
    using unat_of_nat_small [OF assms(4)] by (auto simp: word_unat_eq_iff)
  ultimately show ?thesis
    using assms(2) h offered_chunks [OF assms(4)]
    by (auto simp: PrepareFileOffer_def Let_def num_chunks_def)
qed

lemma path_filename_last: "\<exists>dir. path = dir @ path_filename path \<and> (dir = [] \<or> last dir = CHR ''/'')"
proof (intro exI conjI)
  let ?P = "\<lambda>c. c \<noteq> CHR ''/''"
  show "path = rev (dropWhile ?P (rev path)) @ path_filename path"
    unfolding path_filename_def by (metis rev_append rev_rev_ident takeWhile_dropWhile_id)
  show "rev (dropWhile ?P (rev path)) = [] \<or> last (rev (dropWhile ?P (rev path))) = CHR ''/''"
    using hd_dropWhile [of ?P "rev path"] by (auto simp: last_rev)
qed

lemma path_filename_no_separator: "CHR ''/'' \<notin> set (path_filename path)"
  using set_takeWhileD by (fastforce simp: path_filename_def)

end
