(* ===== verification/Receiver.thy ===== *)
theory Receiver
  imports Chunking
begin

text \<open>
  The receiving side of \<open>core/src/chunking.cpp\<close>: the class invariant of \<open>FileReceiver\<close> and what every
  call does to it, and the state of the output file while the chunks come in.
\<close>

section \<open>The class invariant\<close>

text \<open>The mask has a flag for every chunk, and the counter counts the flags that are set.\<close>

definition receiver_ok :: "FileReceiver \<Rightarrow> bool" where
  "receiver_ok r \<longleftrightarrow>
     length (received_mask r) = unat (chunk_total r) \<and>
     unat (received_count r) = count_list (received_mask r) True"

lemma count_list_set_True:
  "i < length xs \<Longrightarrow> \<not> xs ! i \<Longrightarrow> count_list (xs[i := True]) True = Suc (count_list xs True)"
  by (induction xs arbitrary: i) (auto split: nat.split simp: nth_Cons')

lemma count_list_le_length: "count_list xs x \<le> length xs"
  by (induction xs) auto

lemma count_list_all: "count_list xs True = length xs \<longleftrightarrow> (\<forall>i < length xs. xs ! i)"
proof (induction xs)
  case (Cons b xs)
  then show ?case
    using count_list_le_length [of xs True] by (cases b) (auto simp: All_less_Suc2)
qed simp

lemma FileReceiver_new_ok:
  "FileReceiver_new path fsize chunks hash w = (Inr r, w') \<Longrightarrow> receiver_ok r"
proof -
  have "count_list (replicate n False) True = 0" for n by (induction n) simp_all
  then show "FileReceiver_new path fsize chunks hash w = (Inr r, w') \<Longrightarrow> receiver_ok r"
    by (auto simp: FileReceiver_new_def receiver_ok_def Let_def split: if_splits option.splits prod.splits)
qed

text \<open>The effect of marking a chunk as received.\<close>

definition mark_received :: "nat \<Rightarrow> FileReceiver \<Rightarrow> FileReceiver" where
  "mark_received i r =
     (if received_mask r ! i then r
      else r\<lparr>received_mask := (received_mask r)[i := True], received_count := received_count r + 1\<rparr>)"

lemma mark_received_ok:
  assumes "receiver_ok r" and "i < unat (chunk_total r)"
  shows "receiver_ok (mark_received i r)"
proof (cases "received_mask r ! i")
  case False
  let ?mask = "received_mask r"
  have i: "i < length ?mask" using assms by (simp add: receiver_ok_def)
  have "Suc (count_list ?mask True) \<le> length ?mask"
    using count_list_le_length [of "?mask[i := True]" True] count_list_set_True [OF i False] by simp
  then have "unat (received_count r) + 1 \<le> unat (chunk_total r)"
    using assms(1) by (simp add: receiver_ok_def)
  also have "\<dots> < 2 ^ 32" using unsigned_less [of "chunk_total r"] by simp
  finally have "unat (received_count r + 1) = unat (received_count r) + 1"
    using unat_add_small [of "received_count r" 1] by simp
  then show ?thesis
    using assms(1) False i by (simp add: mark_received_def receiver_ok_def count_list_set_True)
qed (simp add: assms(1) mark_received_def)

text \<open>
  \<open>ReceiveChunk\<close>, one equation per way out. A receiver in order never indexes its mask out of range.
\<close>

lemma ReceiveChunk_cases:
  assumes "receiver_ok r"
  shows "ReceiveChunk lib key c (w, r) =
    (if chunk_total r \<le> chunk_index c
     then (Inl (RuntimeError ''chunking: chunk_index out of range''), (w, r))
     else case DecryptChunk lib key
              \<lparr>enc_nonce = nonce c, enc_ciphertext = ciphertext c, enc_tag = tag c\<rparr> (openssl w) of
       (Inl e, os) \<Rightarrow> (Inl e, (w\<lparr>openssl := os\<rparr>, r))
     | (Inr d, os) \<Rightarrow>
         (case fstream_open (output_path r) (disk w) of
            None \<Rightarrow> (Inl (RuntimeError ''chunking: cannot open output file for writing''),
                     (w\<lparr>openssl := os\<rparr>, r))
          | Some f \<Rightarrow>
              (Inr (), (w\<lparr>openssl := os,
                          disk := snd (ostream_write d (ostream_seekp
                            (sint (ucast (chunk_index c) * ucast kChunkSize :: u64)) f) (disk w))\<rparr>,
                        mark_received (unat (chunk_index c)) r))))"
proof -
  have "length (received_mask r) \<le> unat (chunk_index c) \<longleftrightarrow> chunk_total r \<le> chunk_index c"
    using assms by (simp add: receiver_ok_def word_le_nat_alt)
  then show ?thesis
    by (auto simp: ReceiveChunk_def mark_received_def Let_def split: sum.split option.split prod.split)
qed

text \<open>The two kinds of outcome: refused with nothing changed, or accepted and marked.\<close>

lemma ReceiveChunk_elim:
  assumes "receiver_ok r" and "ReceiveChunk lib key c (w, r) = (res, (w', r'))"
  obtains (refused) e where "res = Inl e" and "r' = r" and "disk w' = disk w"
  | (accepted) "res = Inr ()" and "unat (chunk_index c) < unat (chunk_total r)"
      and "r' = mark_received (unat (chunk_index c)) r"
proof -
  have "(\<exists>e. res = Inl e \<and> r' = r \<and> disk w' = disk w) \<or>
      res = Inr () \<and> \<not> chunk_total r \<le> chunk_index c \<and> r' = mark_received (unat (chunk_index c)) r"
    using assms(2)
    by (auto simp: ReceiveChunk_cases [OF assms(1)] split: if_splits sum.splits option.splits prod.splits)
  then show thesis
    using refused accepted by (auto simp: word_less_nat_alt not_le)
qed

lemma ReceiveChunk_ok:
  assumes "receiver_ok r" and "ReceiveChunk lib key c (w, r) = (res, (w', r'))"
  shows "receiver_ok r'"
  by (rule ReceiveChunk_elim [OF assms]) (simp_all add: assms(1) mark_received_ok)

lemma ReceiveChunk_failure:
  assumes "receiver_ok r" and "ReceiveChunk lib key c (w, r) = (Inl e, (w', r'))"
  shows "r' = r \<and> disk w' = disk w"
  by (rule ReceiveChunk_elim [OF assms]) simp_all

lemma ReceiveChunk_accepts:
  assumes "receiver_ok r" and "ReceiveChunk lib key c (w, r) = (Inr (), (w', r'))"
  shows "unat (chunk_index c) < unat (chunk_total r) \<and> r' = mark_received (unat (chunk_index c)) r"
  by (rule ReceiveChunk_elim [OF assms]) simp_all

lemma IsComplete_iff:
  assumes "receiver_ok r"
  shows "IsComplete r \<longleftrightarrow> (\<forall>i < unat (chunk_total r). received_mask r ! i)"
proof -
  have "IsComplete r \<longleftrightarrow> count_list (received_mask r) True = length (received_mask r)"
    using assms by (auto simp: IsComplete_def receiver_ok_def word_unat_eq_iff)
  then show ?thesis using assms by (simp add: count_list_all receiver_ok_def)
qed

section \<open>The output file while the chunks come in\<close>

text \<open>
  The content when the chunks of the set \<open>S\<close> have been written into the pre-allocated file: their
  blocks are in place and the rest is zero.
\<close>

definition filled :: "bytes \<Rightarrow> nat set \<Rightarrow> bytes" where
  "filled content S =
     map (\<lambda>j. if j div chunk_bytes \<in> S then content ! j else 0) [0..<length content]"

lemma length_filled [simp]: "length (filled content S) = length content"
  by (simp add: filled_def)

lemma nth_filled [simp]:
  "j < length content \<Longrightarrow> filled content S ! j = (if j div chunk_bytes \<in> S then content ! j else 0)"
  by (simp add: filled_def)

lemma filled_none: "filled content {} = replicate (length content) 0"
  by (simp add: filled_def map_replicate_trivial)

lemma filled_all: "{..<num_chunks content} \<subseteq> S \<Longrightarrow> filled content S = content"
proof (rule nth_equalityI)
  fix j assume "{..<num_chunks content} \<subseteq> S" and "j < length (filled content S)"
  moreover from this have "j div chunk_bytes < num_chunks content"
    by (auto simp: less_num_chunks intro: le_less_trans [OF div_times_less_eq_dividend])
  ultimately show "filled content S ! j = content ! j" by auto
qed simp

text \<open>Writing a block at its place.\<close>

lemma write_block:
  assumes "i < num_chunks content" and "length content \<le> limit"
  shows "write_at limit (i * chunk_bytes) (block content i) (filled content S) = filled content (insert i S)"
proof -
  let ?off = "i * chunk_bytes" and ?b = "block content i"
  have off: "?off < length content" using assms(1) by (simp add: less_num_chunks)
  have len: "?off + length ?b \<le> length content"
    using off by (simp add: length_block)
  then have fits: "?off + length ?b \<le> limit" "?off \<le> length (filled content S)"
    using assms(2) off by simp_all
  show ?thesis
  proof (rule nth_equalityI)
    show "length (write_at limit ?off ?b (filled content S)) = length (filled content (insert i S))"
      using length_write_at [OF fits] len by simp
    fix j assume "j < length (write_at limit ?off ?b (filled content S))"
    then have j: "j < length content" using length_write_at [OF fits] len by simp
    have here: "?off \<le> j \<and> j < ?off + length ?b \<longleftrightarrow> j div chunk_bytes = i"
      using j by (auto simp: length_block)
    have "?b ! (j - ?off) = content ! j" if "?off \<le> j \<and> j < ?off + length ?b"
      using that j by (auto simp: block_def)
    then show "write_at limit ?off ?b (filled content S) ! j = filled content (insert i S) ! j"
      using nth_write_at [OF fits, of j] here j by auto
  qed
qed

text \<open>The offset computed on 64-bit words and cast to \<open>streamoff\<close> is the place of the block.\<close>

lemma chunk_offset: "sint (ucast (x :: u32) * ucast kChunkSize :: u64) = int (unat x * chunk_bytes)"
proof -
  have x: "unat x < 2 ^ 32" using unsigned_less [of x] by simp
  have "unat (ucast x * ucast kChunkSize :: u64) = unat x * chunk_bytes"
    using x by (simp add: unat_word_ariths unat_ucast_up kChunkSize_def)
  moreover have "unat x * chunk_bytes < 2 ^ 63" using x by simp
  ultimately show ?thesis using sint_small by metis
qed

section \<open>A receiver accepts the chunks in any order\<close>

text \<open>
  The state of a transfer into \<open>path\<close> when the chunks of \<open>S\<close> have arrived: the file system \<open>d0\<close> differs
  from the start only in that file, which holds the blocks of \<open>S\<close>, and the mask is \<open>S\<close>.
\<close>

definition assembling ::
    "bytes \<Rightarrow> string \<Rightarrow> bytes \<Rightarrow> filesystem \<Rightarrow> nat set \<Rightarrow> 'o world \<times> FileReceiver \<Rightarrow> bool" where
  "assembling content path hash d0 S s \<longleftrightarrow>
     (let (w, r) = s in
      receiver_ok r \<and> output_path r = path \<and> expected_sha256 r = hash \<and>
      unat (chunk_total r) = num_chunks content \<and> S \<subseteq> {..<num_chunks content} \<and>
      (\<forall>i < num_chunks content. received_mask r ! i \<longleftrightarrow> i \<in> S) \<and>
      readable d0 path \<and> writable d0 path \<and> length content \<le> file_limit d0 \<and>
      disk w = d0\<lparr>files := (files d0)(path \<mapsto> filled content S)\<rparr>)"

lemma mark_received_mask:
  "i < length (received_mask r) \<Longrightarrow> j < length (received_mask r) \<Longrightarrow>
    received_mask (mark_received i r) ! j \<longleftrightarrow> j = i \<or> received_mask r ! j"
  by (auto simp: mark_received_def nth_list_update)

lemma mark_received_fields [simp]:
  "output_path (mark_received i r) = output_path r"
  "expected_sha256 (mark_received i r) = expected_sha256 r"
  "chunk_total (mark_received i r) = chunk_total r"
  by (simp_all add: mark_received_def)

lemma ReceiveChunk_assembles:
  assumes st: "assembling content path hash d0 S (w, r)"
    and c: "chunk_of lib key content i c"
  shows "\<exists>s'. ReceiveChunk lib key c (w, r) = (Inr (), s') \<and> assembling content path hash d0 (insert i S) s'"
proof -
  have ok: "receiver_ok r" and total: "unat (chunk_total r) = num_chunks content"
    and disk: "disk w = d0\<lparr>files := (files d0)(path \<mapsto> filled content S)\<rparr>"
    and room: "length content \<le> file_limit d0"
    using st by (simp_all add: assembling_def)
  have i: "i < num_chunks content" and open_c: "chunk_opens lib key c (block content i)"
    using c by (simp_all add: chunk_of_def)
  have "i < 2 ^ 32" using i total unat_u32_less [of "chunk_total r"] by simp
  then have idx: "unat (chunk_index c) = i"
    using c by (simp add: chunk_of_def unat_of_nat take_bit_nat_eq_self)
  then have in_range: "\<not> chunk_total r \<le> chunk_index c"
    using i total by (simp add: word_le_nat_alt)
  obtain os where dec: "DecryptChunk lib key
      \<lparr>enc_nonce = nonce c, enc_ciphertext = ciphertext c, enc_tag = tag c\<rparr> (openssl w)
        = (Inr (block content i), os)"
    using open_c unfolding chunk_opens_def by (metis prod.collapse)
  have "i < length (received_mask r)" using ok i total by (simp add: receiver_ok_def)
  then have "receiver_ok (mark_received i r)"
    and "\<forall>j < num_chunks content. received_mask (mark_received i r) ! j \<longleftrightarrow> j \<in> insert i S"
    using mark_received_ok [OF ok, of i] mark_received_mask [of i r] st ok i total
    by (simp_all add: assembling_def receiver_ok_def)
  then show ?thesis
    using st i in_range dec idx disk write_block [OF i room]
    by (simp add: ReceiveChunk_cases [OF ok] assembling_def stream_ops chunk_offset nat_mult_distrib)
qed

interpretation receiver: slot_sink lib key content "ReceiveChunk lib key" "assembling content path hash d0"
  for lib key content path hash d0
proof
  show "assembling content path hash d0 S (w\<lparr>openssl := os\<rparr>, u)" if "assembling content path hash d0 S (w, u)"
    for S w u os
    using that by (simp add: assembling_def)
  show "\<exists>s'. ReceiveChunk lib key c s = (Inr (), s') \<and> assembling content path hash d0 (insert i S) s'"
    if "assembling content path hash d0 S s" and "chunk_of lib key content i c" for S s i c
    using ReceiveChunk_assembles that by (cases s) blast
qed

section \<open>From the constructor to the finished file\<close>

text \<open>
  The constructor on every size: the file is extended with zero bytes when the size fits a \<open>streamoff\<close>
  and the disk, and stays empty otherwise, without an error.
\<close>

lemma FileReceiver_new_file:
  assumes "writable (disk w) path"
  shows "FileReceiver_new path fsize chunks hash w =
    (Inr \<lparr>output_path = path, expected_size = fsize, chunk_total = chunks, received_count = 0,
          expected_sha256 = hash, received_mask = replicate (unat chunks) False\<rparr>,
     w\<lparr>disk := (disk w)\<lparr>files := (files (disk w))(path \<mapsto>
       if unat fsize \<le> 2 ^ 63 \<and> unat fsize \<le> file_limit (disk w) then replicate (unat fsize) 0 else [])\<rparr>\<rparr>)"
proof (cases "fsize = 0")
  case True
  with assms show ?thesis by (simp add: FileReceiver_new_def stream_ops Let_def)
next
  case False
  let ?n = "unat fsize"
  have pos: "0 < ?n" using False by (simp add: unat_gt_0)
  have pos': "fsize > 0" using False by (simp add: word_greater_zero_iff)
  have pred: "unat (fsize - 1) = ?n - 1" using pos' by (simp add: unat_minus_one)
  show ?thesis
  proof (cases "?n \<le> 2 ^ 63")
    case True
    then have off: "sint (fsize - 1) = int (?n - 1)"
      using pos pred by (subst sint_small) simp_all
    have "write_at (file_limit (disk w)) (?n - 1) [0] []
        = (if ?n \<le> file_limit (disk w) then replicate ?n 0 else [])"
    proof (cases "?n \<le> file_limit (disk w)")
      case le: True
      then have "write_at (file_limit (disk w)) (?n - 1) [0] [] = replicate (?n - 1) 0 @ [0]"
        using pos by (intro write_at_gap) simp
      also have "\<dots> = replicate ?n 0" using pos by (cases ?n) (simp_all add: replicate_append_same)
      finally show ?thesis using le by simp
    next
      case gt: False
      then show ?thesis by (simp add: write_at_beyond)
    qed
    then show ?thesis
      using assms True pos' off
      by (simp add: FileReceiver_new_def stream_ops Let_def)
  next
    case big: False
    then have "sint (fsize - 1) < 0" using pred by (intro sint_large) simp
    with assms pos' big show ?thesis
      by (simp add: FileReceiver_new_def stream_ops Let_def)
  qed
qed

lemma FileReceiver_new_starts:
  assumes "writable (disk w) path" and "readable (disk w) path"
    and "length content < vec_limit" and "length content \<le> file_limit (disk w)"
    and "num_chunks content < 2 ^ 32"
  shows "\<exists>w' r. FileReceiver_new path (of_nat (length content)) (of_nat (num_chunks content)) hash w
      = (Inr r, w') \<and> assembling content path hash (disk w) {} (w', r)"
proof -
  let ?n = "length content" and ?m = "num_chunks content"
  let ?r = "\<lparr>output_path = path, expected_size = of_nat ?n, chunk_total = of_nat ?m,
      received_count = 0, expected_sha256 = hash, received_mask = replicate (unat (of_nat ?m :: u32)) False\<rparr>"
  have m: "unat (of_nat ?m :: u32) = ?m"
    using assms(5) by (simp add: unat_of_nat take_bit_nat_eq_self)
  let ?d = "(disk w)\<lparr>files := (files (disk w))(path \<mapsto> replicate ?n 0)\<rparr>"
  have "unat (of_nat ?n :: u64) = ?n" using assms(3) by (rule unat_of_nat_small)
  then have "FileReceiver_new path (of_nat ?n) (of_nat ?m) hash w = (Inr ?r, w\<lparr>disk := ?d\<rparr>)"
    using FileReceiver_new_file [OF assms(1), of "of_nat ?n" "of_nat ?m" hash] assms(3,4)
    by (simp add: vec_limit_def)
  moreover have "receiver_ok ?r"
    using m by (simp add: receiver_ok_def)
  ultimately show ?thesis
    using assms m by (auto simp: assembling_def filled_none)
qed

lemma assembling_all:
  assumes "assembling content path hash d0 {..<num_chunks content} (w, r)"
  shows "IsComplete r" and "files (disk w) path = Some content"
  using assms by (simp_all add: assembling_def IsComplete_iff filled_all)

text \<open>The final check compares hashes: of the file as it is, and of what was offered.\<close>

lemma VerifyIntegrity_hash:
  assumes "digest_ready dlib H" and "files (disk w) (output_path r) = Some content"
    and "readable (disk w) (output_path r)"
  shows "fst (VerifyIntegrity dlib r w) = Inr (H content = expected_sha256 r)"
  using sha.hash_content [OF assms, of "openssl w"] by (auto simp: VerifyIntegrity_def)

lemma assembling_verifies:
  assumes "assembling content path (H content) d0 {..<num_chunks content} (w, r)" and "digest_ready dlib H"
  shows "fst (VerifyIntegrity dlib r w) = Inr True"
  using VerifyIntegrity_hash [OF assms(2), of w r content] assms(1) assembling_all(2) [OF assms(1)]
  by (simp add: assembling_def)

text \<open>An incomplete transfer leaves a file whose missing blocks are zero, and is not complete.\<close>

lemma assembling_incomplete:
  assumes "assembling content path hash d0 S (w, r)" and "i < num_chunks content" and "i \<notin> S"
  shows "\<not> IsComplete r"
  using assms by (auto simp: assembling_def IsComplete_iff)

section \<open>The life of a receiver\<close>

text \<open>
  What can happen to a receiver: it is constructed, it accepts chunks, it rejects chunks with an
  exception that the caller catches, and between the calls the file system and the library change in any
  way. The set is the history: the indices of the chunks accepted so far.
\<close>

inductive receiving :: "('o, 'c) cipher_lib \<Rightarrow> 'o world \<times> FileReceiver \<Rightarrow> nat set \<Rightarrow> bool"
  for lib :: "('o, 'c) cipher_lib"
where
  constructed: "FileReceiver_new path fsize chunks hash w = (Inr r, w') \<Longrightarrow> receiving lib (w', r) {}"
| accepted: "receiving lib s A \<Longrightarrow> ReceiveChunk lib key c s = (Inr (), s') \<Longrightarrow>
    receiving lib s' (insert (unat (chunk_index c)) A)"
| rejected: "receiving lib s A \<Longrightarrow> ReceiveChunk lib key c s = (Inl (RuntimeError m), s') \<Longrightarrow>
    receiving lib s' A"
| elsewhere: "receiving lib (w, r) A \<Longrightarrow> receiving lib (w', r) A"

text \<open>The mask is the history.\<close>

definition mask_is :: "FileReceiver \<Rightarrow> nat set \<Rightarrow> bool" where
  "mask_is r A \<longleftrightarrow> receiver_ok r \<and> A \<subseteq> {..<unat (chunk_total r)} \<and>
     (\<forall>i < unat (chunk_total r). received_mask r ! i \<longleftrightarrow> i \<in> A)"

lemma FileReceiver_new_mask:
  assumes "FileReceiver_new path fsize chunks hash w = (Inr r, w')"
  shows "mask_is r {}"
  using FileReceiver_new_ok [OF assms] assms
  by (auto simp: mask_is_def FileReceiver_new_def Let_def split: if_splits option.splits prod.splits)

lemma mark_received_mask_is:
  assumes "mask_is r A" and "i < unat (chunk_total r)"
  shows "mask_is (mark_received i r) (insert i A)"
  using assms mark_received_ok [of r i] mark_received_mask [of i r]
  by (auto simp: mask_is_def receiver_ok_def)

lemma receiving_mask:
  assumes "receiving lib s A"
  shows "mask_is (snd s) A"
  using assms
proof induction
  case (constructed path fsize chunks hash w r w')
  then show ?case by (simp add: FileReceiver_new_mask)
next
  case (accepted s A key c s')
  obtain w r where s: "s = (w, r)" by fastforce
  obtain w' r' where s': "s' = (w', r')" by fastforce
  from accepted.IH have r: "mask_is r A" by (simp add: s)
  then have "receiver_ok r" by (simp add: mask_is_def)
  from ReceiveChunk_accepts [OF this accepted.hyps(2) [unfolded s s']] mark_received_mask_is [OF r]
  show ?case by (simp add: s')
next
  case (rejected s A key c m s')
  obtain w r where s: "s = (w, r)" by fastforce
  obtain w' r' where s': "s' = (w', r')" by fastforce
  from rejected.IH have r: "mask_is r A" by (simp add: s)
  then have "receiver_ok r" by (simp add: mask_is_def)
  from ReceiveChunk_failure [OF this rejected.hyps(2) [unfolded s s']] r show ?case by (simp add: s')
qed simp

lemma mask_is_complete: "mask_is r A \<Longrightarrow> IsComplete r \<longleftrightarrow> A = {..<unat (chunk_total r)}"
  by (auto simp: mask_is_def IsComplete_iff)

text \<open>Writing the same bytes at the same place a second time changes nothing.\<close>

lemma write_at_twice: "write_at limit off d (write_at limit off d f) = write_at limit off d f"
proof -
  let ?d = "take (limit - off) d"
  let ?g = "take off (f @ replicate (off - length f) 0)"
  have "length ?g = off" by simp
  then show ?thesis
    by (cases "?d = []") (simp_all add: write_at_def Let_def)
qed

text \<open>The effect of a chunk that opens, on a receiver in order whose file can be written.\<close>

lemma ReceiveChunk_writes:
  assumes ok: "receiver_ok r" and idx: "chunk_index c < chunk_total r"
    and opens: "chunk_opens lib key c p"
    and path: "files (disk w) (output_path r) = Some old" "readable (disk w) (output_path r)"
      "writable (disk w) (output_path r)"
  shows "\<exists>os. ReceiveChunk lib key c (w, r) =
    (Inr (), (w\<lparr>openssl := os, disk := (disk w)\<lparr>files := (files (disk w))(output_path r \<mapsto>
        write_at (file_limit (disk w)) (unat (chunk_index c) * chunk_bytes) p old)\<rparr>\<rparr>,
      mark_received (unat (chunk_index c)) r))"
proof -
  obtain os where "DecryptChunk lib key
      \<lparr>enc_nonce = nonce c, enc_ciphertext = ciphertext c, enc_tag = tag c\<rparr> (openssl w) = (Inr p, os)"
    using opens unfolding chunk_opens_def by (metis prod.collapse)
  then show ?thesis
    using idx path
    by (intro exI [of _ os]) (simp add: not_le ReceiveChunk_cases [OF ok] stream_ops
        chunk_offset nat_mult_distrib)
qed

end
