(* ===== verification/KeyExchange.thy ===== *)
theory KeyExchange
  imports Crypto
begin

text \<open>
  The X25519 key pair and the HKDF-SHA256 session key of \<open>core/src/crypto.cpp\<close>. Its aliases \<open>PkeyCtxPtr\<close> and
  \<open>PkeyPtr\<close> are uses of \<open>unique_ptr\<close> with the deleter of the library.
\<close>

section \<open>The key interface of OpenSSL\<close>

datatype pkey_id = EVP_PKEY_X25519 | EVP_PKEY_HKDF

datatype evp_md = EVP_sha256

text \<open>
  \<open>'k\<close> is a key (\<open>EVP_PKEY\<close>), \<open>'p\<close> a key operation context (\<open>EVP_PKEY_CTX\<close>), \<open>'o\<close> the state of the
  library. A call that stores through an output pointer is given the size of the buffer and returns
  the bytes it stored.
\<close>

record ('o, 'k, 'p) pkey_lib =
  EVP_PKEY_CTX_new_id :: "pkey_id \<Rightarrow> 'o \<Rightarrow> 'p option \<times> 'o"
  EVP_PKEY_CTX_new :: "'k \<Rightarrow> 'o \<Rightarrow> 'p option \<times> 'o"
  EVP_PKEY_CTX_free :: "'p \<Rightarrow> 'o \<Rightarrow> 'o"
  EVP_PKEY_free :: "'k \<Rightarrow> 'o \<Rightarrow> 'o"
  EVP_PKEY_keygen_init :: "'p \<Rightarrow> int \<times> 'p"
  EVP_PKEY_keygen :: "'p \<Rightarrow> 'o \<Rightarrow> int \<times> 'k \<times> 'o"
  EVP_PKEY_get_raw_public_key :: "'k \<Rightarrow> nat \<Rightarrow> int \<times> bytes"
  EVP_PKEY_get_raw_private_key :: "'k \<Rightarrow> nat \<Rightarrow> int \<times> bytes"
  EVP_PKEY_new_raw_private_key :: "pkey_id \<Rightarrow> bytes \<Rightarrow> 'o \<Rightarrow> 'k option \<times> 'o"
  EVP_PKEY_new_raw_public_key :: "pkey_id \<Rightarrow> bytes \<Rightarrow> 'o \<Rightarrow> 'k option \<times> 'o"
  EVP_PKEY_derive_init :: "'p \<Rightarrow> int \<times> 'p"
  EVP_PKEY_derive_set_peer :: "'p \<Rightarrow> 'k \<Rightarrow> int \<times> 'p"
  EVP_PKEY_derive :: "'p \<Rightarrow> nat \<Rightarrow> int \<times> bytes"
  EVP_PKEY_CTX_set_hkdf_md :: "'p \<Rightarrow> evp_md \<Rightarrow> int \<times> 'p"
  EVP_PKEY_CTX_set1_hkdf_salt :: "'p \<Rightarrow> bytes \<Rightarrow> int \<Rightarrow> int \<times> 'p"
  EVP_PKEY_CTX_set1_hkdf_key :: "'p \<Rightarrow> bytes \<Rightarrow> int \<Rightarrow> int \<times> 'p"
  EVP_PKEY_CTX_add1_hkdf_info :: "'p \<Rightarrow> bytes \<Rightarrow> int \<Rightarrow> int \<times> 'p"

section \<open>Key pairs\<close>

definition GenerateKeyPair :: "('o, 'k, 'p) pkey_lib \<Rightarrow> ('o, KeyPair) prog" where
  "GenerateKeyPair lib =
     unique_ptr (EVP_PKEY_CTX_new_id lib EVP_PKEY_X25519) (EVP_PKEY_CTX_free lib)
       (OpenSSLError ''EVP_PKEY_CTX_new_id'') (\<lambda>pctx os.
     let (rc, pctx) = EVP_PKEY_keygen_init lib pctx in
     if rc \<le> 0 then (Inl (OpenSSLError ''keygen_init''), os) else
     let (rc, pkey, os) = EVP_PKEY_keygen lib pctx os in
     if rc \<le> 0 then (Inl (OpenSSLError ''keygen''), os) else
     owned (EVP_PKEY_free lib) pkey (prog_of
       (let kp = \<lparr>public_key = replicate kX25519KeySize 0, private_key = replicate kX25519KeySize 0\<rparr>;
            (rc, d) = EVP_PKEY_get_raw_public_key lib pkey kX25519KeySize in
        res_bind (buf_store (public_key kp) 0 d) (\<lambda>pub.
        let kp = kp\<lparr>public_key := pub\<rparr> in
        if rc \<le> 0 then Inl (OpenSSLError ''get_raw_public_key'') else
        let (rc, d) = EVP_PKEY_get_raw_private_key lib pkey kX25519KeySize in
        res_bind (buf_store (private_key kp) 0 d) (\<lambda>priv.
        let kp = kp\<lparr>private_key := priv\<rparr> in
        if rc \<le> 0 then Inl (OpenSSLError ''get_raw_private_key'') else Inr kp)))) os)"

section \<open>The session key\<close>

text \<open>The Diffie-Hellman secret, computed in a context for the own key.\<close>

definition DeriveSecret :: "('o, 'k, 'p) pkey_lib \<Rightarrow> 'k \<Rightarrow> 'p \<Rightarrow> bytes result" where
  "DeriveSecret lib peer_pkey dctx =
     (let (rc, dctx) = EVP_PKEY_derive_init lib dctx in
      if rc \<le> 0 then Inl (OpenSSLError ''derive_init'') else
      let (rc, dctx) = EVP_PKEY_derive_set_peer lib dctx peer_pkey in
      if rc \<le> 0 then Inl (OpenSSLError ''derive_set_peer'') else
      let shared_secret = replicate kX25519KeySize 0;
          (rc, d) = EVP_PKEY_derive lib dctx kX25519KeySize in
      res_bind (buf_store shared_secret 0 d) (\<lambda>shared_secret.
      if rc \<le> 0 then Inl (OpenSSLError ''derive'') else Inr shared_secret))"

text \<open>The secret through HKDF-SHA256 with an empty salt (a valid pointer and the length 0).\<close>

definition DeriveHkdf :: "('o, 'k, 'p) pkey_lib \<Rightarrow> bytes \<Rightarrow> string \<Rightarrow> 'p \<Rightarrow> KeyBytes result" where
  "DeriveHkdf lib shared_secret info hctx =
     (let (rc, hctx) = EVP_PKEY_derive_init lib hctx in
      if rc \<le> 0 then Inl (OpenSSLError ''hkdf derive_init'') else
      let (rc, hctx) = EVP_PKEY_CTX_set_hkdf_md lib hctx EVP_sha256 in
      if rc \<le> 0 then Inl (OpenSSLError ''hkdf set_md'') else
      let kEmptySalt = [0];
          (rc, hctx) = EVP_PKEY_CTX_set1_hkdf_salt lib hctx kEmptySalt 0 in
      if rc \<le> 0 then Inl (OpenSSLError ''hkdf salt'') else
      let (rc, hctx) = EVP_PKEY_CTX_set1_hkdf_key lib hctx shared_secret (c_int (length shared_secret)) in
      if rc \<le> 0 then Inl (OpenSSLError ''hkdf key'') else
      let (rc, hctx) = EVP_PKEY_CTX_add1_hkdf_info lib hctx (map byte_of_char info)
                         (c_int (length info)) in
      if rc \<le> 0 then Inl (OpenSSLError ''hkdf info'') else
      let session_key = replicate kX25519KeySize 0;
          (rc, d) = EVP_PKEY_derive lib hctx kAesKeySize in
      res_bind (buf_store session_key 0 d) (\<lambda>session_key.
      if rc \<le> 0 then Inl (OpenSSLError ''hkdf derive'') else Inr session_key))"

definition DeriveSessionKey ::
    "('o, 'k, 'p) pkey_lib \<Rightarrow> KeyBytes \<Rightarrow> KeyBytes \<Rightarrow> string \<Rightarrow> ('o, KeyBytes) prog" where
  "DeriveSessionKey lib my_private peer_public info =
     unique_ptr (EVP_PKEY_new_raw_private_key lib EVP_PKEY_X25519 my_private) (EVP_PKEY_free lib)
       (OpenSSLError ''new_raw_private_key'') (\<lambda>my_pkey.
     unique_ptr (EVP_PKEY_new_raw_public_key lib EVP_PKEY_X25519 peer_public) (EVP_PKEY_free lib)
       (OpenSSLError ''new_raw_public_key'') (\<lambda>peer_pkey.
     unique_ptr (EVP_PKEY_CTX_new lib my_pkey) (EVP_PKEY_CTX_free lib)
       (OpenSSLError ''CTX_new(derive)'') (\<lambda>dctx.
     prog_bind (prog_of (DeriveSecret lib peer_pkey dctx)) (\<lambda>shared_secret.
     unique_ptr (EVP_PKEY_CTX_new_id lib EVP_PKEY_HKDF) (EVP_PKEY_CTX_free lib)
       (OpenSSLError ''CTX_new(hkdf)'') (\<lambda>hctx.
     prog_of (DeriveHkdf lib shared_secret info hctx))))))"

section \<open>What OpenSSL documents about keys\<close>

text \<open>The life of a key operation context, with what it has been given.\<close>

datatype pkey_phase =
    KeygenNew
  | KeygenReady
  | DeriveNew bytes
  | DeriveReady bytes
  | DerivePeer bytes bytes
  | HkdfNew
  | HkdfReady
  | HkdfDigest
  | HkdfSalt bytes
  | HkdfKey bytes bytes
  | HkdfInfo bytes bytes bytes

text \<open>
  \<open>pub a\<close> is the public key of the private key \<open>a\<close>, \<open>dh a p\<close> their Diffie-Hellman secret; OpenSSL
  refuses a peer key of low order, for which \<open>dh\<close> is \<open>None\<close>. \<open>hkdf salt key info\<close> is the 32-byte
  output of HKDF-SHA256.
\<close>

definition dh_algebra ::
    "(bytes \<Rightarrow> bytes) \<Rightarrow> (bytes \<Rightarrow> bytes \<Rightarrow> bytes option) \<Rightarrow> (bytes \<Rightarrow> bytes \<Rightarrow> bytes \<Rightarrow> bytes) \<Rightarrow> bool" where
  "dh_algebra pub dh hkdf \<longleftrightarrow>
     (\<forall>a. length a = 32 \<longrightarrow> length (pub a) = 32) \<and>
     (\<forall>a b. length a = 32 \<longrightarrow> length b = 32 \<longrightarrow> dh a (pub b) = dh b (pub a)) \<and>
     (\<forall>a p s. dh a p = Some s \<longrightarrow> length s = 32) \<and>
     (\<forall>s k i. length (hkdf s k i) = 32)"

text \<open>\<open>priv k\<close> and \<open>pubk k\<close> are the two halves a key object holds, \<open>st c\<close> the phase of a context.\<close>

definition keygen_laws ::
    "('o, 'k, 'p) pkey_lib \<Rightarrow> ('p \<Rightarrow> pkey_phase) \<Rightarrow> ('k \<Rightarrow> bytes) \<Rightarrow> ('k \<Rightarrow> bytes) \<Rightarrow>
     (bytes \<Rightarrow> bytes) \<Rightarrow> bool" where
  "keygen_laws lib st priv pubk pub \<longleftrightarrow>
     (\<forall>os. \<exists>c os'. EVP_PKEY_CTX_new_id lib EVP_PKEY_X25519 os = (Some c, os') \<and> st c = KeygenNew) \<and>
     (\<forall>c. st c = KeygenNew \<longrightarrow> (\<exists>c'. EVP_PKEY_keygen_init lib c = (1, c') \<and> st c' = KeygenReady)) \<and>
     (\<forall>c os. st c = KeygenReady \<longrightarrow>
        (\<exists>k os'. EVP_PKEY_keygen lib c os = (1, k, os') \<and> length (priv k) = 32 \<and> pubk k = pub (priv k))) \<and>
     (\<forall>k. EVP_PKEY_get_raw_public_key lib k 32 = (1, pubk k)) \<and>
     (\<forall>k. EVP_PKEY_get_raw_private_key lib k 32 = (1, priv k))"

definition derive_laws ::
    "('o, 'k, 'p) pkey_lib \<Rightarrow> ('p \<Rightarrow> pkey_phase) \<Rightarrow> ('k \<Rightarrow> bytes) \<Rightarrow> ('k \<Rightarrow> bytes) \<Rightarrow>
     (bytes \<Rightarrow> bytes \<Rightarrow> bytes option) \<Rightarrow> bool" where
  "derive_laws lib st priv pubk dh \<longleftrightarrow>
     (\<forall>a os. length a = 32 \<longrightarrow>
        (\<exists>k os'. EVP_PKEY_new_raw_private_key lib EVP_PKEY_X25519 a os = (Some k, os') \<and> priv k = a)) \<and>
     (\<forall>p os. length p = 32 \<longrightarrow>
        (\<exists>k os'. EVP_PKEY_new_raw_public_key lib EVP_PKEY_X25519 p os = (Some k, os') \<and> pubk k = p)) \<and>
     (\<forall>k os. \<exists>c os'. EVP_PKEY_CTX_new lib k os = (Some c, os') \<and> st c = DeriveNew (priv k)) \<and>
     (\<forall>c a. st c = DeriveNew a \<longrightarrow> (\<exists>c'. EVP_PKEY_derive_init lib c = (1, c') \<and> st c' = DeriveReady a)) \<and>
     (\<forall>c a k. st c = DeriveReady a \<longrightarrow>
        (\<exists>c'. EVP_PKEY_derive_set_peer lib c k = (1, c') \<and> st c' = DerivePeer a (pubk k))) \<and>
     (\<forall>c a p. st c = DerivePeer a p \<longrightarrow>
        EVP_PKEY_derive lib c 32 = (case dh a p of None \<Rightarrow> (0, []) | Some s \<Rightarrow> (1, s)))"

definition hkdf_laws ::
    "('o, 'k, 'p) pkey_lib \<Rightarrow> ('p \<Rightarrow> pkey_phase) \<Rightarrow> (bytes \<Rightarrow> bytes \<Rightarrow> bytes \<Rightarrow> bytes) \<Rightarrow> bool" where
  "hkdf_laws lib st hkdf \<longleftrightarrow>
     (\<forall>os. \<exists>c os'. EVP_PKEY_CTX_new_id lib EVP_PKEY_HKDF os = (Some c, os') \<and> st c = HkdfNew) \<and>
     (\<forall>c. st c = HkdfNew \<longrightarrow> (\<exists>c'. EVP_PKEY_derive_init lib c = (1, c') \<and> st c' = HkdfReady)) \<and>
     (\<forall>c. st c = HkdfReady \<longrightarrow> (\<exists>c'. EVP_PKEY_CTX_set_hkdf_md lib c EVP_sha256 = (1, c') \<and> st c' = HkdfDigest)) \<and>
     (\<forall>c d n. st c = HkdfDigest \<longrightarrow> n \<le> length d \<longrightarrow>
        (\<exists>c'. EVP_PKEY_CTX_set1_hkdf_salt lib c d (int n) = (1, c') \<and> st c' = HkdfSalt (take n d))) \<and>
     (\<forall>c s d n. st c = HkdfSalt s \<longrightarrow> n \<le> length d \<longrightarrow>
        (\<exists>c'. EVP_PKEY_CTX_set1_hkdf_key lib c d (int n) = (1, c') \<and> st c' = HkdfKey s (take n d))) \<and>
     (\<forall>c s k d n. st c = HkdfKey s k \<longrightarrow> n \<le> length d \<longrightarrow> n \<le> 1024 \<longrightarrow>
        (\<exists>c'. EVP_PKEY_CTX_add1_hkdf_info lib c d (int n) = (1, c') \<and> st c' = HkdfInfo s k (take n d))) \<and>
     (\<forall>c s k i. st c = HkdfInfo s k i \<longrightarrow> EVP_PKEY_derive lib c 32 = (1, hkdf s k i))"

definition kex_contract ::
    "('o, 'k, 'p) pkey_lib \<Rightarrow> ('p \<Rightarrow> pkey_phase) \<Rightarrow> ('k \<Rightarrow> bytes) \<Rightarrow> ('k \<Rightarrow> bytes) \<Rightarrow>
     (bytes \<Rightarrow> bytes) \<Rightarrow> (bytes \<Rightarrow> bytes \<Rightarrow> bytes option) \<Rightarrow> (bytes \<Rightarrow> bytes \<Rightarrow> bytes \<Rightarrow> bytes) \<Rightarrow> bool" where
  "kex_contract lib st priv pubk pub dh hkdf \<longleftrightarrow>
     dh_algebra pub dh hkdf \<and> keygen_laws lib st priv pubk pub \<and>
     derive_laws lib st priv pubk dh \<and> hkdf_laws lib st hkdf"

text \<open>The Diffie-Hellman function is defined on the public keys that \<open>keygen\<close> makes.\<close>

definition honest_dh :: "(bytes \<Rightarrow> bytes) \<Rightarrow> (bytes \<Rightarrow> bytes \<Rightarrow> bytes option) \<Rightarrow> bool" where
  "honest_dh pub dh \<longleftrightarrow> (\<forall>a b. length a = 32 \<longrightarrow> length b = 32 \<longrightarrow> dh a (pub b) \<noteq> None)"

section \<open>What the routines compute\<close>

lemma keygen_steps:
  assumes "keygen_laws lib st priv pubk pub"
  shows "\<exists>c os'. EVP_PKEY_CTX_new_id lib EVP_PKEY_X25519 os = (Some c, os') \<and> st c = KeygenNew"
    and "st c = KeygenNew \<Longrightarrow> \<exists>c'. EVP_PKEY_keygen_init lib c = (1, c') \<and> st c' = KeygenReady"
    and "st c = KeygenReady \<Longrightarrow>
      \<exists>k os'. EVP_PKEY_keygen lib c os = (1, k, os') \<and> length (priv k) = 32 \<and> pubk k = pub (priv k)"
    and "EVP_PKEY_get_raw_public_key lib k 32 = (1, pubk k)"
    and "EVP_PKEY_get_raw_private_key lib k 32 = (1, priv k)"
  using assms unfolding keygen_laws_def by meson+

lemma GenerateKeyPair_fresh:
  assumes "kex_contract lib st priv pubk pub dh hkdf"
  shows "\<exists>a os'. GenerateKeyPair lib os = (Inr \<lparr>public_key = pub a, private_key = a\<rparr>, os') \<and>
    length a = 32 \<and> length (pub a) = 32"
proof -
  have gen: "keygen_laws lib st priv pubk pub" and alg: "dh_algebra pub dh hkdf"
    using assms by (simp_all add: kex_contract_def)
  note steps = keygen_steps [OF gen]
  obtain c os1 where c: "EVP_PKEY_CTX_new_id lib EVP_PKEY_X25519 os = (Some c, os1)" "st c = KeygenNew"
    using steps(1) by blast
  obtain c' where c': "EVP_PKEY_keygen_init lib c = (1, c')" "st c' = KeygenReady"
    using steps(2) [OF c(2)] by blast
  obtain k os2 where k: "EVP_PKEY_keygen lib c' os1 = (1, k, os2)" "length (priv k) = 32" "pubk k = pub (priv k)"
    using steps(3) [OF c'(2)] by blast
  have "length (pub (priv k)) = 32" using alg k(2) by (simp add: dh_algebra_def)
  then show ?thesis
    using c(1) c'(1) k steps(4,5) [of k]
    by (intro exI [of _ "priv k"] exI) (simp add: GenerateKeyPair_def crypto_sizes)
qed

lemma derive_steps:
  assumes "derive_laws lib st priv pubk dh"
  shows "length a = 32 \<Longrightarrow>
      \<exists>k os'. EVP_PKEY_new_raw_private_key lib EVP_PKEY_X25519 a os = (Some k, os') \<and> priv k = a"
    and "length p = 32 \<Longrightarrow>
      \<exists>k os'. EVP_PKEY_new_raw_public_key lib EVP_PKEY_X25519 p os = (Some k, os') \<and> pubk k = p"
    and "\<exists>c os'. EVP_PKEY_CTX_new lib k os = (Some c, os') \<and> st c = DeriveNew (priv k)"
    and "st c = DeriveNew a \<Longrightarrow> \<exists>c'. EVP_PKEY_derive_init lib c = (1, c') \<and> st c' = DeriveReady a"
    and "st c = DeriveReady a \<Longrightarrow>
      \<exists>c'. EVP_PKEY_derive_set_peer lib c k = (1, c') \<and> st c' = DerivePeer a (pubk k)"
    and "st c = DerivePeer a p \<Longrightarrow>
      EVP_PKEY_derive lib c 32 = (case dh a p of None \<Rightarrow> (0, []) | Some s \<Rightarrow> (1, s))"
  using assms unfolding derive_laws_def by meson+

lemma hkdf_steps:
  assumes "hkdf_laws lib st hkdf"
  shows "\<exists>c os'. EVP_PKEY_CTX_new_id lib EVP_PKEY_HKDF os = (Some c, os') \<and> st c = HkdfNew"
    and "st c = HkdfNew \<Longrightarrow> \<exists>c'. EVP_PKEY_derive_init lib c = (1, c') \<and> st c' = HkdfReady"
    and "st c = HkdfReady \<Longrightarrow>
      \<exists>c'. EVP_PKEY_CTX_set_hkdf_md lib c EVP_sha256 = (1, c') \<and> st c' = HkdfDigest"
    and "st c = HkdfDigest \<Longrightarrow> n \<le> length d \<Longrightarrow>
      \<exists>c'. EVP_PKEY_CTX_set1_hkdf_salt lib c d (int n) = (1, c') \<and> st c' = HkdfSalt (take n d)"
    and "st c = HkdfSalt s \<Longrightarrow> n \<le> length d \<Longrightarrow>
      \<exists>c'. EVP_PKEY_CTX_set1_hkdf_key lib c d (int n) = (1, c') \<and> st c' = HkdfKey s (take n d)"
    and "st c = HkdfKey s k \<Longrightarrow> n \<le> length d \<Longrightarrow> n \<le> 1024 \<Longrightarrow>
      \<exists>c'. EVP_PKEY_CTX_add1_hkdf_info lib c d (int n) = (1, c') \<and> st c' = HkdfInfo s k (take n d)"
    and "st c = HkdfInfo s k i \<Longrightarrow> EVP_PKEY_derive lib c 32 = (1, hkdf s k i)"
  using assms unfolding hkdf_laws_def by meson+

lemma DeriveSecret_dh:
  assumes laws: "derive_laws lib st priv pubk dh" and alg: "dh_algebra pub dh hkdf"
    and start: "st c = DeriveNew a"
  shows "DeriveSecret lib k c =
    (case dh a (pubk k) of None \<Rightarrow> Inl (OpenSSLError ''derive'') | Some s \<Rightarrow> Inr s)"
proof -
  note steps = derive_steps [OF laws]
  obtain c1 where c1: "EVP_PKEY_derive_init lib c = (1, c1)" "st c1 = DeriveReady a"
    using steps(4) [OF start] by blast
  obtain c2 where c2: "EVP_PKEY_derive_set_peer lib c1 k = (1, c2)" "st c2 = DerivePeer a (pubk k)"
    using steps(5) [OF c1(2)] by blast
  show ?thesis
    using c1(1) c2(1) steps(6) [OF c2(2)] alg
    by (auto simp: DeriveSecret_def crypto_sizes dh_algebra_def split: option.split)
qed

lemma DeriveHkdf_hkdf:
  assumes laws: "hkdf_laws lib st hkdf" and alg: "dh_algebra pub dh hkdf"
    and start: "st c = HkdfNew" and s: "length s = 32" and info: "length info \<le> 1024"
  shows "DeriveHkdf lib s info c = Inr (hkdf [] s (map byte_of_char info))"
proof -
  note steps = hkdf_steps [OF laws]
  obtain c1 where c1: "EVP_PKEY_derive_init lib c = (1, c1)" "st c1 = HkdfReady"
    using steps(2) [OF start] by blast
  obtain c2 where c2: "EVP_PKEY_CTX_set_hkdf_md lib c1 EVP_sha256 = (1, c2)" "st c2 = HkdfDigest"
    using steps(3) [OF c1(2)] by blast
  obtain c3 where c3: "EVP_PKEY_CTX_set1_hkdf_salt lib c2 [0] 0 = (1, c3)" "st c3 = HkdfSalt []"
    using steps(4) [OF c2(2), of 0 "[0]"] by auto
  obtain c4 where c4: "EVP_PKEY_CTX_set1_hkdf_key lib c3 s 32 = (1, c4)" "st c4 = HkdfKey [] s"
    using steps(5) [OF c3(2), of 32 s] s by auto
  obtain c5 where c5: "EVP_PKEY_CTX_add1_hkdf_info lib c4 (map byte_of_char info) (int (length info)) = (1, c5)"
      "st c5 = HkdfInfo [] s (map byte_of_char info)"
    using steps(6) [OF c4(2), of "length info" "map byte_of_char info"] info by auto
  have "length (hkdf [] s (map byte_of_char info)) = 32" using alg by (simp add: dh_algebra_def)
  then show ?thesis
    using c1(1) c2(1) c3(1) c4(1) c5(1) steps(7) [OF c5(2)] s info
    by (simp add: DeriveHkdf_def crypto_sizes c_int_small)
qed

lemma DeriveSessionKey_outcome:
  assumes con: "kex_contract lib st priv pubk pub dh hkdf"
    and a: "key_ok a" and p: "key_ok p" and info: "length info \<le> 1024"
  shows "\<exists>os'. DeriveSessionKey lib a p info os =
    ((case dh a p of None \<Rightarrow> Inl (OpenSSLError ''derive'')
      | Some s \<Rightarrow> Inr (hkdf [] s (map byte_of_char info))), os')"
proof -
  have der: "derive_laws lib st priv pubk dh" and hk: "hkdf_laws lib st hkdf"
    and alg: "dh_algebra pub dh hkdf"
    using con by (simp_all add: kex_contract_def)
  note steps = derive_steps [OF der]
  obtain k1 os1 where k1: "EVP_PKEY_new_raw_private_key lib EVP_PKEY_X25519 a os = (Some k1, os1)" "priv k1 = a"
    using steps(1) a unfolding key_ok_def crypto_sizes by blast
  obtain k2 os2 where k2: "EVP_PKEY_new_raw_public_key lib EVP_PKEY_X25519 p os1 = (Some k2, os2)" "pubk k2 = p"
    using steps(2) p unfolding key_ok_def crypto_sizes by blast
  obtain c os3 where c: "EVP_PKEY_CTX_new lib k1 os2 = (Some c, os3)" "st c = DeriveNew a"
    using steps(3) [of k1 os2] k1(2) by blast
  have secret: "DeriveSecret lib k2 c = (case dh a p of None \<Rightarrow> Inl (OpenSSLError ''derive'') | Some s \<Rightarrow> Inr s)"
    using DeriveSecret_dh [OF der alg c(2), of k2] k2(2) by simp
  show ?thesis
  proof (cases "dh a p")
    case None
    with secret show ?thesis using k1(1) k2(1) c(1) by (simp add: DeriveSessionKey_def)
  next
    case (Some s)
    then have "length s = 32" using alg by (auto simp: dh_algebra_def)
    moreover obtain h os4 where h: "EVP_PKEY_CTX_new_id lib EVP_PKEY_HKDF os3 = (Some h, os4)" "st h = HkdfNew"
      using hkdf_steps(1) [OF hk] by blast
    ultimately have "DeriveHkdf lib s info h = Inr (hkdf [] s (map byte_of_char info))"
      using DeriveHkdf_hkdf [OF hk alg h(2) _ info] by blast
    then show ?thesis
      using Some secret k1(1) k2(1) c(1) h(1) by (simp add: DeriveSessionKey_def)
  qed
qed

text \<open>Two parties with each other's public key derive the same session key.\<close>

lemma DeriveSessionKey_agrees:
  assumes con: "kex_contract lib st priv pubk pub dh hkdf"
    and "key_ok a" and "key_ok b" and "length info \<le> 1024"
  shows "fst (DeriveSessionKey lib a (pub b) info os) = fst (DeriveSessionKey lib b (pub a) info os2)"
proof -
  have "dh_algebra pub dh hkdf" using con by (simp add: kex_contract_def)
  then have "dh a (pub b) = dh b (pub a)" and "key_ok (pub a)" and "key_ok (pub b)"
    using assms(2,3) by (simp_all add: dh_algebra_def key_ok_def crypto_sizes)
  then show ?thesis
    using DeriveSessionKey_outcome [OF con assms(2) _ assms(4), of "pub b" os]
      DeriveSessionKey_outcome [OF con assms(3) _ assms(4), of "pub a" os2]
    by auto
qed

end
