(* ===== verification/Transport.thy ===== *)
theory Transport
  imports Protocol
begin

text \<open>
  \<open>core/include/transport.hpp\<close>: the interface \<open>ITransport\<close> with the code that uses it, what it promises
  about sending, and the in-memory \<open>LoopbackTransport\<close>.
\<close>

section \<open>The interface\<close>

record PeerInfo =
  info_id :: string
  display_name :: string
  rssi :: "32 word"

text \<open>
  The eight virtual methods of \<open>ITransport\<close> as a datatype of calls. \<open>'f\<close>, \<open>'g\<close> and \<open>'h\<close> are the types of the
  callbacks for a peer found, the result of a connection and data received; a \<open>std::function\<close> handed to
  the transport may be empty, which is \<open>None\<close>.
\<close>

datatype ('f, 'g, 'h) ITransport =
    CallStartAdvertising string
  | CallStopAdvertising
  | CallStartScanning "'f option"
  | CallStopScanning
  | CallConnect string "'g option"
  | CallDisconnect string
  | CallSend string bytes
  | CallSetOnDataReceived "'h option"

text \<open>
  The code that makes the calls is a tree: it ends, normally or by an exception, or calls a method of the
  transport at \<open>'a\<close> and goes on from the state \<open>'u\<close> that the call leaves. \<open>'u\<close> is what the client and its
  callbacks share. A callback is a client for every argument: it may itself call transports.
\<close>

datatype ('a, dead 'u) client =
    Return 'u
  | Throw failure 'u
  | Call 'a "(PeerInfo \<Rightarrow> 'u \<Rightarrow> ('a, 'u) client, bool \<Rightarrow> 'u \<Rightarrow> ('a, 'u) client,
      string \<Rightarrow> bytes \<Rightarrow> 'u \<Rightarrow> ('a, 'u) client) ITransport" 'u "'u \<Rightarrow> ('a, 'u) client"

type_synonym ('a, 'u) transport_call =
  "(PeerInfo \<Rightarrow> 'u \<Rightarrow> ('a, 'u) client, bool \<Rightarrow> 'u \<Rightarrow> ('a, 'u) client,
    string \<Rightarrow> bytes \<Rightarrow> 'u \<Rightarrow> ('a, 'u) client) ITransport"

text \<open>Induction along the continuations of a client, whatever callbacks it hands over.\<close>

lemma client_calls_induct [case_names Return Throw Call]:
  assumes "\<And>u. P (Return u)" and "\<And>e u. P (Throw e u)"
    and "\<And>a c u k. (\<And>u. P (k u)) \<Longrightarrow> P (Call a c u k)"
  shows "P (code :: ('a, 'u) client)"
  by (induction code) (auto intro: assms)

section \<open>Loopback transports\<close>

text \<open>
  Two transports point at each other, so they live in a store: an address names an object, \<open>peer\<close> is
  the pointer \<open>peer_\<close>, possibly null, and \<open>on_data\<close> the callback \<open>on_data_\<close>, possibly empty. The record is
  polymorphic in the callbacks it stores. A \<open>data_callback\<close> acts on the state \<open>'u\<close> that it captured and does
  not call a transport itself; callbacks that do are the subject of the theory \<open>Loopback_Clients\<close>.
\<close>

type_synonym 'u data_callback = "string \<Rightarrow> bytes \<Rightarrow> ('u, unit) prog"

record 'f LoopbackTransport =
  self_id :: string
  peer :: "address option"
  on_data :: "'f option"

type_synonym 'f loopback_store = "address \<rightharpoonup> 'f LoopbackTransport"

type_synonym 'u loopbacks = "'u data_callback loopback_store"

text \<open>The constructor, for an object that the caller has placed at \<open>a\<close>.\<close>

definition LoopbackTransport_new :: "address \<Rightarrow> string \<Rightarrow> 'f loopback_store \<Rightarrow> 'f loopback_store" where
  "LoopbackTransport_new a name h = h(a \<mapsto> \<lparr>self_id = name, peer = None, on_data = None\<rparr>)"

text \<open>Access through a reference or pointer to \<open>a\<close>; no object there is undefined behaviour.\<close>

definition deref :: "'f loopback_store \<Rightarrow> address \<Rightarrow> 'f LoopbackTransport result" where
  "deref h a = (case h a of None \<Rightarrow> Inl OutOfBounds | Some t \<Rightarrow> Inr t)"

definition ConnectPeers :: "address \<Rightarrow> address \<Rightarrow> 'f loopback_store \<Rightarrow> 'f loopback_store result" where
  "ConnectPeers a b h =
     res_bind (deref h a) (\<lambda>ta.
     let h = h(a \<mapsto> ta\<lparr>peer := Some b\<rparr>) in
     res_bind (deref h b) (\<lambda>tb.
     Inr (h(b \<mapsto> tb\<lparr>peer := Some a\<rparr>))))"

definition SetOnDataReceived ::
    "address \<Rightarrow> 'f option \<Rightarrow> 'f loopback_store \<Rightarrow> 'f loopback_store result" where
  "SetOnDataReceived a cb h = res_bind (deref h a) (\<lambda>t. Inr (h(a \<mapsto> t\<lparr>on_data := cb\<rparr>)))"

definition Connect :: "string \<Rightarrow> (bool \<Rightarrow> ('u, unit) prog) option \<Rightarrow> ('u, unit) prog" where
  "Connect peer_id on_result =
     (case on_result of None \<Rightarrow> prog_return () | Some f \<Rightarrow> f True)"

definition Send :: "'u loopbacks \<Rightarrow> address \<Rightarrow> string \<Rightarrow> bytes \<Rightarrow> ('u, unit) prog" where
  "Send h a peer_id data =
     (case deref h a of
        Inl e \<Rightarrow> prog_throw e
      | Inr this \<Rightarrow>
          (case peer this of
             None \<Rightarrow> prog_return ()
           | Some p \<Rightarrow>
               (case deref h p of
                  Inl e \<Rightarrow> prog_throw e
                | Inr t \<Rightarrow>
                    (case on_data t of
                       None \<Rightarrow> prog_return ()
                     | Some cb \<Rightarrow> cb (self_id this) data))))"

section \<open>What a transport promises\<close>

text \<open>
  The promise written next to \<open>ITransport::Send\<close>: a block sent over an established connection arrives
  whole, and blocks arrive in the order they were sent. \<open>linked h a me cb\<close>: the transport at \<open>a\<close> is
  connected, is known as \<open>me\<close> to its peer, and \<open>cb\<close> is the peer's callback.
\<close>

locale transport =
  fixes send :: "'h \<Rightarrow> address \<Rightarrow> string \<Rightarrow> bytes \<Rightarrow> ('u, unit) prog"
    and linked :: "'h \<Rightarrow> address \<Rightarrow> string \<Rightarrow> 'u data_callback \<Rightarrow> bool"
  assumes send_delivers: "linked h a me cb \<Longrightarrow> send h a to d u = cb me d u"
begin

lemma send_in_order:
  assumes "linked h a me cb"
  shows "deliver_all (send h a to) ds u = deliver_all (cb me) ds u"
  by (induction ds arbitrary: u) (simp_all add: send_delivers [OF assms] split: prod.split sum.split)

text \<open>A framed message arrives as a header that tells its type, and the payload behind it.\<close>

lemma framed_message_arrives:
  assumes "linked h a me cb" and "type_ok t"
    and cb: "\<And>raw u. cb me raw u =
      (case ParseHeader raw of Inl e \<Rightarrow> (Inl e, u)
       | Inr hdr \<Rightarrow> if msg_type hdr = t then handle (drop kHeaderSize raw) u else other raw u)"
  shows "send h a to (FrameMessage t payload) u = handle payload u"
proof -
  have "msg_type \<lparr>version = kProtocolVersion, msg_type = type_of_byte (byte_of_type t),
      payload_len = of_nat (length payload)\<rparr> = t"
    using assms(2) by (simp add: type_ok_def)
  then show ?thesis
    using drop_header_FrameMessage [of t payload]
    by (simp add: send_delivers [OF assms(1)] cb FrameMessage_bytes ParseHeader_bytes)
qed

end

definition loopback_linked :: "'u loopbacks \<Rightarrow> address \<Rightarrow> string \<Rightarrow> 'u data_callback \<Rightarrow> bool" where
  "loopback_linked h a me cb \<longleftrightarrow>
     (\<exists>this p t. h a = Some this \<and> self_id this = me \<and> peer this = Some p \<and>
        h p = Some t \<and> on_data t = Some cb)"

interpretation loopback: transport Send loopback_linked
  by unfold_locales (auto simp: loopback_linked_def Send_def deref_def)

text \<open>Connecting two live transports and setting a callback on one links the other to it.\<close>

lemma ConnectPeers_links:
  assumes "h a = Some ta" and "h b = Some tb"
  shows "\<exists>h'. ConnectPeers a b h = Inr h' \<and> dom h' = dom h \<and>
    (\<forall>cb. \<exists>h''. SetOnDataReceived b (Some cb) h' = Inr h'' \<and> loopback_linked h'' a (self_id ta) cb)"
proof (cases "a = b")
  case True
  then show ?thesis
    using assms
    by (auto simp: ConnectPeers_def SetOnDataReceived_def deref_def loopback_linked_def)
next
  case False
  then show ?thesis
    using assms
    by (auto simp: ConnectPeers_def SetOnDataReceived_def deref_def loopback_linked_def)
qed

text \<open>A transport that nobody was connected to drops what it is given, and says nothing.\<close>

lemma Send_unconnected:
  "h a = Some this \<Longrightarrow> peer this = None \<Longrightarrow> Send h a to d u = (Inr (), u)"
  by (simp add: Send_def deref_def)

end
