(* ===== verification/EndToEnd.thy ===== *)
theory EndToEnd
  imports Receiver KeyExchange Transport
begin

text \<open>
  The whole transfer as \<open>core/tests/test_chunking_e2e.cpp\<close> assembles it: key exchange, offer, chunks
  encoded, framed, sent over a pair of loopback transports, parsed, decoded and received.
\<close>

section \<open>The two callbacks\<close>

text \<open>\<open>ASSERT_TRUE(cond)\<close> of \<open>mini_test.hpp\<close>.\<close>

definition ASSERT_TRUE :: "string \<Rightarrow> bool \<Rightarrow> ('s, unit) prog" where
  "ASSERT_TRUE txt cond s =
     (if \<not> cond then (Inl (AssertionFailure (''ASSERT_TRUE failed: '' @ txt)), s) else (Inr (), s))"

text \<open>\<open>ASSERT_EQ(a, b)\<close>, with the texts of both arguments.\<close>

definition ASSERT_EQ :: "string \<Rightarrow> string \<Rightarrow> 'a \<Rightarrow> 'a \<Rightarrow> ('s, unit) prog" where
  "ASSERT_EQ ta tb a b s =
     (if \<not> a = b then (Inl (AssertionFailure (''ASSERT_EQ failed: '' @ ta @ '' != '' @ tb)), s)
      else (Inr (), s))"

text \<open>The callback that the receiving side sets on its transport.\<close>

definition bob_on_data ::
    "('o, 'c) cipher_lib \<Rightarrow> KeyBytes \<Rightarrow> ('o world \<times> FileReceiver) data_callback" where
  "bob_on_data lib session_key_bob from_peer raw s =
     (case ParseHeader raw of
        Inl e \<Rightarrow> (Inl e, s)
      | Inr hdr \<Rightarrow>
          prog_bind (ASSERT_TRUE ''header.type == MessageType::kChunk'' (msg_type hdr = kChunk)) (\<lambda>_ s.
          case vec_range raw (of_nat kHeaderSize) (vec_size raw) of
            Inl e \<Rightarrow> (Inl e, s)
          | Inr payload \<Rightarrow>
              (case DecodeChunk payload of
                 Inl e \<Rightarrow> (Inl e, s)
               | Inr c \<Rightarrow> ReceiveChunk lib session_key_bob c s)) s)"

text \<open>The sink that the sending side gives to \<open>SendFileChunks\<close>.\<close>

definition alice_sink :: "('o world \<times> 'u) loopbacks \<Rightarrow> address \<Rightarrow> ('o, 'u) sink" where
  "alice_sink h alice c =
     (let payload = EncodeChunk c;
          framed = FrameMessage kChunk payload
      in Send h alice ''bob'' framed)"

text \<open>The two connected transports.\<close>

definition loopback_pair ::
    "'u data_callback \<Rightarrow> address \<Rightarrow> address \<Rightarrow> 'u loopbacks result" where
  "loopback_pair cb alice bob =
     (let h = LoopbackTransport_new alice ''alice'' (\<lambda>_. None);
          h = LoopbackTransport_new bob ''bob'' h
      in res_bind (ConnectPeers alice bob h) (SetOnDataReceived bob (Some cb)))"

lemma loopback_pair_linked:
  assumes "alice \<noteq> bob"
  shows "\<exists>h. loopback_pair cb alice bob = Inr h \<and> loopback_linked h alice ''alice'' cb"
  using assms
  by (auto simp: loopback_pair_def LoopbackTransport_new_def ConnectPeers_def SetOnDataReceived_def
      deref_def loopback_linked_def)

section \<open>Over the wire a chunk is received as if it were handed over\<close>

lemma chunk_of_ok: "chunk_of lib key content i c \<Longrightarrow> chunk_ok c"
  by (simp add: chunk_of_def chunk_opens_def chunk_ok_def length_block)

lemma framed_chunk_fits:
  assumes "chunk_ok c"
  shows "length (FrameMessage kChunk (EncodeChunk c)) < vec_limit"
  using assms by (simp add: chunk_ok_def vec_limit_def length_EncodeChunk kHeaderSize_def)

lemma vec_range_rest:
  assumes "n \<le> length raw" and "length raw < vec_limit"
  shows "vec_range raw (of_nat n) (vec_size raw) = Inr (drop n raw)"
proof -
  have "unat (of_nat n :: u64) = n" using assms by (intro unat_of_nat_small) simp
  then show ?thesis
    using assms by (simp add: vec_range_def word_le_nat_alt)
qed

lemma ParseHeader_FrameMessage:
  assumes "type_ok t"
  shows "ParseHeader (FrameMessage t payload) =
    Inr \<lparr>version = kProtocolVersion, msg_type = t, payload_len = of_nat (length payload)\<rparr>"
  using assms by (simp add: FrameMessage_bytes ParseHeader_bytes type_ok_def)

lemma bob_on_data_chunk:
  assumes "chunk_ok c"
  shows "bob_on_data lib key from_peer (FrameMessage kChunk (EncodeChunk c)) s = ReceiveChunk lib key c s"
proof -
  let ?raw = "FrameMessage kChunk (EncodeChunk c)"
  have "vec_range ?raw (of_nat kHeaderSize) (vec_size ?raw) = Inr (EncodeChunk c)"
    using vec_range_rest [of kHeaderSize ?raw] framed_chunk_fits [OF assms] by simp
  moreover have "DecodeChunk (EncodeChunk c) = Inr c"
    using chunk.roundtrip [OF assms, of "[]"] encodings_fit(3) [OF assms] by simp
  ultimately show ?thesis
    by (simp add: bob_on_data_def ParseHeader_FrameMessage prog_bind_def ASSERT_TRUE_def)
qed

lemma alice_sink_receives:
  assumes "loopback_linked h a me (bob_on_data lib key)" and "chunk_ok c"
  shows "alice_sink h a c s = ReceiveChunk lib key c s"
  using loopback.send_delivers [OF assms(1)] bob_on_data_chunk [OF assms(2)]
  by (simp add: alice_sink_def)

text \<open>So the sending side's sink keeps the contract of a sink, with the state of the receiving side.\<close>

definition wired ::
    "('o, 'c) cipher_lib \<Rightarrow> KeyBytes \<Rightarrow> ('o world \<times> FileReceiver) loopbacks \<Rightarrow> address \<Rightarrow> bool" where
  "wired lib key h a \<longleftrightarrow> (\<exists>me. loopback_linked h a me (bob_on_data lib key))"

interpretation wire: slot_sink lib key content "alice_sink h a"
    "\<lambda>S s. wired lib key h a \<and> assembling content path hash d0 S s"
  for lib key content h a path hash d0
proof
  show "wired lib key h a \<and> assembling content path hash d0 S (w\<lparr>openssl := os\<rparr>, u)"
    if "wired lib key h a \<and> assembling content path hash d0 S (w, u)" for S w u os
    using that by (simp add: assembling_def)
  show "\<exists>s'. alice_sink h a c s = (Inr (), s') \<and>
      wired lib key h a \<and> assembling content path hash d0 (insert i S) s'"
    if "wired lib key h a \<and> assembling content path hash d0 S s" and c: "chunk_of lib key content i c"
    for S s i c
    using that receiver.accept [OF _ c, of path hash d0 S s] chunk_of_ok [OF c]
    by (auto simp: wired_def alice_sink_receives)
qed

section \<open>A transfer\<close>

text \<open>Lines 46 to 67 of the test: the transports, the receiver, the chunks.\<close>

definition transfer ::
    "('o, 'c) cipher_lib \<Rightarrow> KeyBytes \<Rightarrow> KeyBytes \<Rightarrow> string \<Rightarrow> string \<Rightarrow> FileOfferPayload \<Rightarrow>
     ('o world, FileReceiver) prog" where
  "transfer lib session_key_alice session_key_bob src_path dst_path offer w =
     (case loopback_pair (bob_on_data lib session_key_bob) 0 1 of
        Inl e \<Rightarrow> (Inl e, w)
      | Inr h \<Rightarrow>
          (case FileReceiver_new dst_path (file_size offer) (total_chunks offer) (sha256 offer) w of
             (Inl e, w) \<Rightarrow> (Inl e, w)
           | (Inr receiver, w) \<Rightarrow>
               (case SendFileChunks lib src_path session_key_alice (alice_sink h 0) (w, receiver) of
                  (Inl e, (w, receiver)) \<Rightarrow> (Inl e, w)
                | (Inr _, (w, receiver)) \<Rightarrow> (Inr receiver, w))))"

text \<open>A file that can be sent from \<open>src\<close> and written to \<open>dst\<close>.\<close>

definition transferable :: "filesystem \<Rightarrow> string \<Rightarrow> string \<Rightarrow> bytes \<Rightarrow> bool" where
  "transferable d src dst content \<longleftrightarrow>
     src \<noteq> dst \<and> files d src = Some content \<and> readable d src \<and>
     writable d dst \<and> readable d dst \<and> length content \<le> file_limit d \<and> num_chunks content < 2 ^ 32"

lemma transferable_length: "transferable d src dst content \<Longrightarrow> length content < vec_limit"
proof -
  assume "transferable d src dst content"
  then have "num_chunks content < 2 ^ 32" by (simp add: transferable_def)
  moreover have "length content \<le> num_chunks content * chunk_bytes"
    unfolding num_chunks_def by linarith
  ultimately show "length content < vec_limit" by (simp add: vec_limit_def)
qed

text \<open>The offer that describes \<open>content\<close>.\<close>

definition offers :: "FileOfferPayload \<Rightarrow> bytes \<Rightarrow> bytes \<Rightarrow> bool" where
  "offers offer content hash \<longleftrightarrow>
     file_size offer = of_nat (length content) \<and> sha256 offer = hash \<and>
     total_chunks offer = of_nat (num_chunks content)"

lemma transfer_assembles:
  assumes ready: "cipher_ready lib" and key: "key_ok key"
    and ok: "transferable (disk w) src dst content" and offer: "offers offer content hash"
  shows "\<exists>w' r. transfer lib key key src dst offer w = (Inr r, w') \<and>
    assembling content dst hash (disk w) {..<num_chunks content} (w', r)"
proof -
  obtain h where h: "loopback_pair (bob_on_data lib key) 0 1 = Inr h" "wired lib key h 0"
    using loopback_pair_linked [of 0 1 "bob_on_data lib key"] by (auto simp: wired_def)
  obtain w1 r1 where r1: "FileReceiver_new dst (file_size offer) (total_chunks offer) (sha256 offer) w = (Inr r1, w1)"
      "assembling content dst hash (disk w) {} (w1, r1)"
    using FileReceiver_new_starts [of w dst content hash] transferable_length [OF ok] ok offer
    by (auto simp: transferable_def offers_def)
  have src: "files (disk w1) src = Some content" "readable (disk w1) src"
    using r1(2) ok by (simp_all add: assembling_def transferable_def)
  have "wired lib key h 0 \<and> assembling content dst hash (disk w) {..<0} (w1, r1)"
    using h(2) r1(2) by simp
  from wire.SendFileChunks_delivers [OF ready key src this]
  obtain w2 r2 where "SendFileChunks lib src key (alice_sink h 0) (w1, r1) = (Inr (), (w2, r2))"
      "assembling content dst hash (disk w) {..<num_chunks content} (w2, r2)"
    by auto
  with h(1) r1(1) show ?thesis by (simp add: transfer_def)
qed

text \<open>The offer that \<open>PrepareFileOffer\<close> makes is one for the file, and the file stays transferable.\<close>

lemma transferable_offer:
  assumes "digest_ready dlib H" and "transferable (disk w) src dst content"
  obtains offer os where "PrepareFileOffer dlib src w = (Inr offer, w\<lparr>openssl := os\<rparr>)"
    and "offers offer content (H content)" and "transferable (disk (w\<lparr>openssl := os\<rparr>)) src dst content"
proof -
  have "files (disk w) src = Some content" "readable (disk w) src"
    using assms(2) by (simp_all add: transferable_def)
  from PrepareFileOffer_offer [OF assms(1) this transferable_length [OF assms(2)]] that assms(2)
  show ?thesis by (auto simp: offers_def)
qed

text \<open>What the receiving side has when every block has arrived.\<close>

lemma assembled_all:
  assumes "assembling content path (H content) d0 {..<num_chunks content} (w, r)" and "digest_ready dlib H"
  shows "IsComplete r \<and> fst (VerifyIntegrity dlib r w) = Inr True \<and> files (disk w) = (files d0)(path \<mapsto> content)"
  using assembling_all(1) [OF assms(1)] assembling_verifies [OF assms] assms(1)
  by (simp add: assembling_def filled_all)

section \<open>A queued transfer\<close>

text \<open>
  Lines 113 to 122 of the test: the chunks are queued, the queue is rearranged (the test reverses it),
  and each chunk of it is handed to the receiver.
\<close>

definition collect_chunks ::
    "('o, 'c) cipher_lib \<Rightarrow> KeyBytes \<Rightarrow> string \<Rightarrow> ('o world, ChunkPayload list) prog" where
  "collect_chunks lib key src_path w =
     (case SendFileChunks lib src_path key collect_sink (w, []) of
        (Inl e, (w, chunks)) \<Rightarrow> (Inl e, w)
      | (Inr _, (w, chunks)) \<Rightarrow> (Inr chunks, w))"

definition receive_chunks ::
    "('o, 'c) cipher_lib \<Rightarrow> KeyBytes \<Rightarrow> string \<Rightarrow> FileOfferPayload \<Rightarrow> ChunkPayload list \<Rightarrow>
     ('o world, FileReceiver) prog" where
  "receive_chunks lib key dst_path offer chunks w =
     (case FileReceiver_new dst_path (file_size offer) (total_chunks offer) (sha256 offer) w of
        (Inl e, w) \<Rightarrow> (Inl e, w)
      | (Inr receiver, w) \<Rightarrow>
          (case deliver_all (ReceiveChunk lib key) chunks (w, receiver) of
             (Inl e, (w, receiver)) \<Rightarrow> (Inl e, w)
           | (Inr _, (w, receiver)) \<Rightarrow> (Inr receiver, w)))"

definition transfer_queued ::
    "('o, 'c) cipher_lib \<Rightarrow> KeyBytes \<Rightarrow> string \<Rightarrow> string \<Rightarrow> FileOfferPayload \<Rightarrow>
     (ChunkPayload list \<Rightarrow> ChunkPayload list) \<Rightarrow> ('o world, FileReceiver) prog" where
  "transfer_queued lib key src_path dst_path offer rearrange =
     prog_bind (collect_chunks lib key src_path) (\<lambda>chunks.
     receive_chunks lib key dst_path offer (rearrange chunks))"

text \<open>A queue that holds the same chunks, in any order and any number of times, has their indices.\<close>

lemma rearranged_chunks:
  assumes sent: "list_all2 (chunk_of lib key content) [0..<num_chunks content] cs"
    and n: "num_chunks content < 2 ^ 32" and same: "set ds = set cs"
  shows "list_all2 (chunk_of lib key content) (map (unat \<circ> chunk_index) ds) ds"
    and "set (map (unat \<circ> chunk_index) ds) = {..<num_chunks content}"
proof -
  let ?ix = "unat \<circ> chunk_index"
  have idx: "?ix c = i \<and> i < num_chunks content" if "chunk_of lib key content i c" for i c
  proof -
    have "i < num_chunks content" using that by (simp add: chunk_of_def)
    then have "unat (of_nat i :: u32) = i"
      using n by (simp add: unat_of_nat take_bit_nat_eq_self)
    with that show ?thesis by (simp add: chunk_of_def)
  qed
  have nth: "chunk_of lib key content i (cs ! i)" if "i < num_chunks content" for i
    using list_all2_nthD [OF sent, of i] that by simp
  have each: "chunk_of lib key content (?ix (cs ! i)) (cs ! i)" "?ix (cs ! i) = i"
    if "i < num_chunks content" for i
  proof -
    show i: "?ix (cs ! i) = i" using idx [OF nth [OF that]] by simp
    show "chunk_of lib key content (?ix (cs ! i)) (cs ! i)" unfolding i by (rule nth [OF that])
  qed
  have len: "length cs = num_chunks content" using list_all2_lengthD [OF sent] by simp
  have all: "chunk_of lib key content (?ix c) c" if "c \<in> set ds" for c
  proof -
    from that obtain i where i: "i < num_chunks content" and c: "c = cs ! i"
      using same len by (auto simp: in_set_conv_nth)
    show ?thesis unfolding c by (rule each(1) [OF i])
  qed
  show "list_all2 (chunk_of lib key content) (map ?ix ds) ds"
    using all by (simp add: list_all2_conv_all_nth)
  show "set (map ?ix ds) = {..<num_chunks content}"
  proof
    show "set (map ?ix ds) \<subseteq> {..<num_chunks content}"
      using idx [OF all] by auto
    show "{..<num_chunks content} \<subseteq> set (map ?ix ds)"
    proof
      fix i assume "i \<in> {..<num_chunks content}"
      then have "?ix (cs ! i) = i" "cs ! i \<in> set ds" using each(2) [of i] same len by auto
      then show "i \<in> set (map ?ix ds)" by (metis image_eqI set_map)
    qed
  qed
qed

lemma collect_chunks_all:
  assumes "cipher_ready lib" and "key_ok key" and "transferable (disk w) src dst content"
  obtains os cs where "collect_chunks lib key src w = (Inr cs, w\<lparr>openssl := os\<rparr>)"
    and "list_all2 (chunk_of lib key content) [0..<num_chunks content] cs"
proof -
  obtain w1 cs where cs: "SendFileChunks lib src key collect_sink (w, []) = (Inr (), (w1, cs))"
      "disk w1 = disk w" "list_all2 (chunk_of lib key content) [0..<num_chunks content] cs"
    using SendFileChunks_collects [OF assms(1,2), of w src content] assms(3) by (auto simp: transferable_def)
  from cs(2) have "w\<lparr>openssl := openssl w1\<rparr> = w1" by (cases w, cases w1) simp
  with cs(1) have "collect_chunks lib key src w = (Inr cs, w\<lparr>openssl := openssl w1\<rparr>)"
    by (simp add: collect_chunks_def)
  from this cs(3) show thesis by (rule that)
qed

lemma receive_chunks_assembles:
  assumes ok: "transferable (disk w) src dst content" and offer: "offers offer content hash"
    and sent: "list_all2 (chunk_of lib key content) [0..<num_chunks content] cs" and same: "set ds = set cs"
  shows "\<exists>w' r. receive_chunks lib key dst offer ds w = (Inr r, w') \<and>
    assembling content dst hash (disk w) {..<num_chunks content} (w', r)"
proof -
  obtain w2 r2 where r2: "FileReceiver_new dst (file_size offer) (total_chunks offer) (sha256 offer) w = (Inr r2, w2)"
      "assembling content dst hash (disk w) {} (w2, r2)"
    using FileReceiver_new_starts [of w dst content hash] transferable_length [OF ok] ok offer
    by (auto simp: transferable_def offers_def)
  have "num_chunks content < 2 ^ 32" using ok by (simp add: transferable_def)
  note queue = rearranged_chunks [OF sent this same]
  obtain w3 r3 where "deliver_all (ReceiveChunk lib key) ds (w2, r2) = (Inr (), (w3, r3))"
      "assembling content dst hash (disk w) {..<num_chunks content} (w3, r3)"
    using receiver.deliver_any_order [OF r2(2) queue(1)] queue(2) by auto
  with r2(1) show ?thesis by (simp add: receive_chunks_def)
qed

lemma transfer_queued_assembles:
  assumes ready: "cipher_ready lib" and key: "key_ok key"
    and ok: "transferable (disk w) src dst content" and offer: "offers offer content hash"
    and same: "\<And>cs. set (rearrange cs) = set cs"
  shows "\<exists>w' r. transfer_queued lib key src dst offer rearrange w = (Inr r, w') \<and>
    assembling content dst hash (disk w) {..<num_chunks content} (w', r)"
proof (rule collect_chunks_all [OF ready key ok])
  fix os cs
  assume cs: "collect_chunks lib key src w = (Inr cs, w\<lparr>openssl := os\<rparr>)"
    "list_all2 (chunk_of lib key content) [0..<num_chunks content] cs"
  have "transferable (disk (w\<lparr>openssl := os\<rparr>)) src dst content" using ok by simp
  from receive_chunks_assembles [OF this offer cs(2) same [of cs]] cs(1) show ?thesis
    by (simp add: transfer_queued_def)
qed

section \<open>A transfer without a transport\<close>

text \<open>Lines 89 to 94 of the test with several chunks: the sink is the receiver.\<close>

definition transfer_direct ::
    "('o, 'c) cipher_lib \<Rightarrow> KeyBytes \<Rightarrow> string \<Rightarrow> string \<Rightarrow> FileOfferPayload \<Rightarrow> ('o world, FileReceiver) prog" where
  "transfer_direct lib key src_path dst_path offer w =
     (case FileReceiver_new dst_path (file_size offer) (total_chunks offer) (sha256 offer) w of
        (Inl e, w) \<Rightarrow> (Inl e, w)
      | (Inr receiver, w) \<Rightarrow>
          (case SendFileChunks lib src_path key (ReceiveChunk lib key) (w, receiver) of
             (Inl e, (w, receiver)) \<Rightarrow> (Inl e, w)
           | (Inr _, (w, receiver)) \<Rightarrow> (Inr receiver, w)))"

lemma transfer_direct_assembles:
  assumes ready: "cipher_ready lib" and key: "key_ok key"
    and ok: "transferable (disk w) src dst content" and offer: "offers offer content hash"
  shows "\<exists>w' r. transfer_direct lib key src dst offer w = (Inr r, w') \<and>
    assembling content dst hash (disk w) {..<num_chunks content} (w', r)"
proof -
  obtain w1 r1 where r1: "FileReceiver_new dst (file_size offer) (total_chunks offer) (sha256 offer) w = (Inr r1, w1)"
      "assembling content dst hash (disk w) {} (w1, r1)"
    using FileReceiver_new_starts [of w dst content hash] transferable_length [OF ok] ok offer
    by (auto simp: transferable_def offers_def)
  have src: "files (disk w1) src = Some content" "readable (disk w1) src"
    using r1(2) ok by (simp_all add: assembling_def transferable_def)
  have "assembling content dst hash (disk w) {..<0} (w1, r1)" using r1(2) by simp
  from receiver.SendFileChunks_delivers [OF ready key src this]
  obtain w2 r2 where "SendFileChunks lib src key (ReceiveChunk lib key) (w1, r1) = (Inr (), (w2, r2))"
      "assembling content dst hash (disk w) {..<num_chunks content} (w2, r2)"
    by auto
  with r1(1) show ?thesis by (simp add: transfer_direct_def)
qed

end
