(* ===== verification/Samples.thy ===== *)
theory Samples
  imports EndToEnd
begin

text \<open>
  An instance of every parameter of the development: small libraries that keep the documented
  contracts of the OpenSSL calls, and a small file system. They show that the contracts can hold, and
  the properties are evaluated on them. Their ciphers and hashes have the algebra of the real ones
  and none of their strength.
\<close>

section \<open>A cipher library\<close>

definition toy_pad :: "bytes \<Rightarrow> bytes \<Rightarrow> u8" where
  "toy_pad key iv = sum_list key + sum_list iv"

definition toy_E :: "bytes \<Rightarrow> bytes \<Rightarrow> bytes \<Rightarrow> bytes" where
  "toy_E key iv d = map (\<lambda>b. b + toy_pad key iv) d"

definition toy_D :: "bytes \<Rightarrow> bytes \<Rightarrow> bytes \<Rightarrow> bytes" where
  "toy_D key iv d = map (\<lambda>b. b - toy_pad key iv) d"

definition toy_T :: "bytes \<Rightarrow> bytes \<Rightarrow> bytes \<Rightarrow> bytes" where
  "toy_T key iv d = replicate 15 0 @ [toy_pad key iv + sum_list d]"

fun toy_ctrl :: "gcm_phase \<Rightarrow> cipher_ctrl \<Rightarrow> int \<times> bytes \<times> gcm_phase" where
  "toy_ctrl (AlgSet e) (EVP_CTRL_GCM_SET_IVLEN n) =
     (if n = 12 then (1, [], IvLenSet e) else (0, [], AlgSet e))"
| "toy_ctrl (Sealed key iv ct) (EVP_CTRL_GCM_GET_TAG n) =
     (if n = 16 then (1, toy_T key iv ct, Sealed key iv ct) else (0, [], Sealed key iv ct))"
| "toy_ctrl (Keyed False key iv ct) (EVP_CTRL_GCM_SET_TAG n t) =
     (if n = 16 then (1, [], Tagged key iv ct t) else (0, [], Keyed False key iv ct))"
| "toy_ctrl c _ = (0, [], c)"

fun toy_init :: "bool \<Rightarrow> gcm_phase \<Rightarrow> evp_cipher option \<Rightarrow> bytes option \<Rightarrow> bytes option \<Rightarrow> int \<times> gcm_phase" where
  "toy_init e CtxNew (Some EVP_aes_256_gcm) None None = (1, AlgSet e)"
| "toy_init e (IvLenSet e') None (Some key) (Some iv) =
     (if e = e' then (1, Keyed e key iv []) else (0, IvLenSet e'))"
| "toy_init e c _ _ _ = (0, c)"

fun toy_update :: "bool \<Rightarrow> gcm_phase \<Rightarrow> bytes \<Rightarrow> int \<Rightarrow> int \<times> bytes \<times> gcm_phase" where
  "toy_update e (Keyed True key iv []) d n =
     (if e \<and> n = int (length d) then (1, toy_E key iv d, Keyed True key iv (toy_E key iv d))
      else (0, [], Keyed True key iv []))"
| "toy_update e (Keyed False key iv []) d n =
     (if \<not> e \<and> n = int (length d) then (1, toy_D key iv d, Keyed False key iv d)
      else (0, [], Keyed False key iv []))"
| "toy_update e c d n = (0, [], c)"

fun toy_final :: "gcm_phase \<Rightarrow> int \<times> bytes \<times> gcm_phase" where
  "toy_final (Keyed True key iv ct) = (1, [], Sealed key iv ct)"
| "toy_final (Tagged key iv ct t) = (if t = toy_T key iv ct then 1 else 0, [], CtxNew)"
| "toy_final c = (0, [], c)"

definition toy_cipher :: "(nat, gcm_phase) cipher_lib" where
  "toy_cipher =
     \<lparr>RAND_bytes = \<lambda>n os. (1, replicate (nat n) (of_nat os), Suc os),
      EVP_CIPHER_CTX_new = \<lambda>os. (Some CtxNew, os),
      EVP_CIPHER_CTX_free = \<lambda>c os. os,
      EVP_CIPHER_CTX_ctrl = toy_ctrl,
      EVP_EncryptInit_ex = toy_init True,
      EVP_EncryptUpdate = toy_update True,
      EVP_EncryptFinal_ex = toy_final,
      EVP_DecryptInit_ex = toy_init False,
      EVP_DecryptUpdate = toy_update False,
      EVP_DecryptFinal_ex = toy_final\<rparr>"

lemma toy_algebra: "gcm_algebra toy_E toy_D toy_T"
  by (simp add: gcm_algebra_def toy_E_def toy_D_def toy_T_def kGcmTagSize_def comp_def)

lemma toy_init_laws: "gcm_init_laws toy_cipher (\<lambda>c. c)"
  by (simp add: gcm_init_laws_def toy_cipher_def)

lemma toy_data_laws: "gcm_data_laws toy_cipher (\<lambda>c. c) toy_E toy_D toy_T"
  by (simp add: gcm_data_laws_def toy_cipher_def)

lemma toy_contract: "gcm_contract toy_cipher (\<lambda>c. c) toy_E toy_D toy_T"
  by (simp add: gcm_contract_def toy_algebra toy_init_laws toy_data_laws)
     (auto simp: rand_law_def toy_cipher_def)

lemma toy_available: "cipher_available toy_cipher"
  by (simp add: cipher_available_def toy_cipher_def)

lemma toy_ready: "cipher_ready toy_cipher"
  unfolding cipher_ready_def using toy_available toy_contract by blast

text \<open>The same library in a process without entropy.\<close>

definition dry_cipher :: "(nat, gcm_phase) cipher_lib" where
  "dry_cipher = toy_cipher\<lparr>RAND_bytes := \<lambda>n os. (0, [], os)\<rparr>"

lemma dry_contract: "gcm_contract dry_cipher (\<lambda>c. c) toy_E toy_D toy_T"
  using toy_init_laws toy_data_laws
  by (simp add: gcm_contract_def toy_algebra gcm_init_laws_def gcm_data_laws_def dry_cipher_def rand_law_def)

section \<open>A digest library\<close>

text \<open>Of the hash of nothing a test knows the value.\<close>

definition sha256_of_nothing :: bytes where
  "sha256_of_nothing =
     [227, 176, 196, 66, 152, 252, 28, 20, 154, 251, 244, 200, 153, 111, 185, 36,
      39, 174, 65, 228, 100, 155, 147, 76, 164, 149, 153, 27, 120, 82, 184, 85]"

definition toy_H :: "bytes \<Rightarrow> bytes" where
  "toy_H m =
     (if m = [] then sha256_of_nothing else take 32 (of_nat (length m) # sum_list m # m @ replicate 32 0))"

definition toy_digest :: "(nat, bytes option) digest_lib" where
  "toy_digest =
     \<lparr>EVP_Digest = \<lambda>m os. (1, toy_H m, os),
      EVP_MD_CTX_new = \<lambda>os. (Some None, os),
      EVP_MD_CTX_free = \<lambda>c os. os,
      EVP_DigestInit_ex = \<lambda>c. (1, Some []),
      EVP_DigestUpdate = \<lambda>c d. (case c of None \<Rightarrow> (0, c) | Some m \<Rightarrow> (1, Some (m @ d))),
      EVP_DigestFinal_ex = \<lambda>c. (case c of None \<Rightarrow> (0, [], c) | Some m \<Rightarrow> (1, toy_H m, None))\<rparr>"

lemma length_toy_H: "length (toy_H m) = 32"
  by (cases m) (simp_all add: toy_H_def sha256_of_nothing_def)

lemma toy_digest_contract: "digest_contract toy_digest (\<lambda>c. c) toy_H"
  by (simp add: digest_contract_def toy_digest_def length_toy_H SHA256_DIGEST_LENGTH_def)

lemma toy_digest_ready: "digest_ready toy_digest toy_H"
  unfolding digest_ready_def using toy_digest_contract by blast

section \<open>A key library\<close>

text \<open>A private key is its own public key, and a secret is a sum.\<close>

definition toy_pub :: "bytes \<Rightarrow> bytes" where
  "toy_pub a = a"

definition toy_dh :: "bytes \<Rightarrow> bytes \<Rightarrow> bytes option" where
  "toy_dh a p = (if length a = 32 \<and> length p = 32 then Some (map2 (+) a p) else None)"

definition toy_hkdf :: "bytes \<Rightarrow> bytes \<Rightarrow> bytes \<Rightarrow> bytes" where
  "toy_hkdf s k i = take 32 (sum_list (s @ i) # k @ replicate 32 0)"

definition toy_pkey :: "(nat, bytes \<times> bytes, pkey_phase) pkey_lib" where
  "toy_pkey =
     \<lparr>EVP_PKEY_CTX_new_id = \<lambda>i os. (Some (case i of EVP_PKEY_X25519 \<Rightarrow> KeygenNew | EVP_PKEY_HKDF \<Rightarrow> HkdfNew), os),
      EVP_PKEY_CTX_new = \<lambda>k os. (Some (DeriveNew (fst k)), os),
      EVP_PKEY_CTX_free = \<lambda>c os. os,
      EVP_PKEY_free = \<lambda>k os. os,
      EVP_PKEY_keygen_init = \<lambda>c. (case c of KeygenNew \<Rightarrow> (1, KeygenReady) | _ \<Rightarrow> (0, c)),
      EVP_PKEY_keygen = \<lambda>c os. (1, (replicate 32 (of_nat os), toy_pub (replicate 32 (of_nat os))), Suc os),
      EVP_PKEY_get_raw_public_key = \<lambda>k n. (1, snd k),
      EVP_PKEY_get_raw_private_key = \<lambda>k n. (1, fst k),
      EVP_PKEY_new_raw_private_key = \<lambda>i a os. (Some (a, toy_pub a), os),
      EVP_PKEY_new_raw_public_key = \<lambda>i p os. (Some ([], p), os),
      EVP_PKEY_derive_init =
        \<lambda>c. (case c of DeriveNew a \<Rightarrow> (1, DeriveReady a) | HkdfNew \<Rightarrow> (1, HkdfReady) | _ \<Rightarrow> (0, c)),
      EVP_PKEY_derive_set_peer =
        \<lambda>c k. (case c of DeriveReady a \<Rightarrow> (1, DerivePeer a (snd k)) | _ \<Rightarrow> (0, c)),
      EVP_PKEY_derive =
        \<lambda>c n. (case c of
                 DerivePeer a p \<Rightarrow> (case toy_dh a p of None \<Rightarrow> (0, []) | Some s \<Rightarrow> (1, s))
               | HkdfInfo s k i \<Rightarrow> (1, toy_hkdf s k i) | _ \<Rightarrow> (0, [])),
      EVP_PKEY_CTX_set_hkdf_md = \<lambda>c m. (case c of HkdfReady \<Rightarrow> (1, HkdfDigest) | _ \<Rightarrow> (0, c)),
      EVP_PKEY_CTX_set1_hkdf_salt =
        \<lambda>c d n. (case c of HkdfDigest \<Rightarrow> (1, HkdfSalt (take (nat n) d)) | _ \<Rightarrow> (0, c)),
      EVP_PKEY_CTX_set1_hkdf_key =
        \<lambda>c d n. (case c of HkdfSalt s \<Rightarrow> (1, HkdfKey s (take (nat n) d)) | _ \<Rightarrow> (0, c)),
      EVP_PKEY_CTX_add1_hkdf_info =
        \<lambda>c d n. (case c of HkdfKey s k \<Rightarrow> (1, HkdfInfo s k (take (nat n) d)) | _ \<Rightarrow> (0, c))\<rparr>"

lemma map2_plus_commute: "map2 (+) (a :: u8 list) b = map2 (+) b a"
  by (induction a b rule: list_induct2') (simp_all add: add.commute)

lemma toy_dh_algebra: "dh_algebra toy_pub toy_dh toy_hkdf"
  by (auto simp: dh_algebra_def toy_pub_def toy_dh_def toy_hkdf_def map2_plus_commute split: if_splits)

lemma toy_dh_honest: "length a = 32 \<Longrightarrow> length b = 32 \<Longrightarrow> toy_dh a (toy_pub b) \<noteq> None"
  by (simp add: toy_dh_def toy_pub_def)

lemma toy_kex_contract: "kex_contract toy_pkey (\<lambda>c. c) fst snd toy_pub toy_dh toy_hkdf"
  unfolding kex_contract_def
proof (intro conjI)
  show "keygen_laws toy_pkey (\<lambda>c. c) fst snd toy_pub"
    by (simp add: keygen_laws_def toy_pkey_def)
  show "derive_laws toy_pkey (\<lambda>c. c) fst snd toy_dh"
    by (simp add: derive_laws_def toy_pkey_def)
  show "hkdf_laws toy_pkey (\<lambda>c. c) toy_hkdf"
    by (simp add: hkdf_laws_def toy_pkey_def)
qed (rule toy_dh_algebra)

section \<open>A file system\<close>

definition sample_content :: bytes where
  "sample_content = [10, 20, 30]"

definition sample_disk :: filesystem where
  "sample_disk =
     \<lparr>files = [''/tmp/a.bin'' \<mapsto> sample_content], readable = (\<lambda>_. True), writable = (\<lambda>_. True),
      file_limit = 2 ^ 20\<rparr>"

definition sample_world :: "nat world" where
  "sample_world = \<lparr>disk = sample_disk, openssl = 0\<rparr>"

definition sample_key :: KeyBytes where
  "sample_key = replicate 32 7"

lemma sample_key_ok: "key_ok sample_key"
  by (simp add: sample_key_def key_ok_def kX25519KeySize_def)

lemma sample_transferable: "transferable (disk sample_world) ''/tmp/a.bin'' ''/tmp/b.bin'' sample_content"
  by (simp add: transferable_def sample_world_def sample_disk_def sample_content_def num_chunks_def)

section \<open>A receiver of two chunks\<close>

definition sample_receiver :: FileReceiver where
  "sample_receiver = \<lparr>output_path = ''/tmp/b.bin'', expected_size = 3, chunk_total = 2, received_count = 0,
     expected_sha256 = [], received_mask = [False, False]\<rparr>"

definition receiver_world :: "nat world" where
  "receiver_world = snd (FileReceiver_new ''/tmp/b.bin'' 3 2 [] sample_world)"

lemma replicate_two: "replicate 2 x = [x, x]"
  by (simp add: numeral_2_eq_2)

lemma sample_receiver_start:
  "FileReceiver_new ''/tmp/b.bin'' 3 2 [] sample_world =
     (Inr sample_receiver,
      sample_world\<lparr>disk := sample_disk\<lparr>files := (files sample_disk)(''/tmp/b.bin'' \<mapsto> [0, 0, 0])\<rparr>\<rparr>)"
proof -
  have "write_at (2 ^ 20) 2 [0] [] = replicate 2 0 @ [0]" by (rule write_at_gap) simp
  then have zeros: "write_at (2 ^ 20) 2 [0] [] = [0, 0, 0]" using replicate_two [of "0 :: u8"] by simp
  have off: "sint (3 - 1 :: u64) = 2" by simp
  show ?thesis
    using zeros
    by (simp add: FileReceiver_new_def replicate_two off sample_receiver_def sample_world_def sample_disk_def
        stream_ops Let_def)
qed

lemma sample_receiver_new: "FileReceiver_new ''/tmp/b.bin'' 3 2 [] sample_world = (Inr sample_receiver, receiver_world)"
  by (simp add: receiver_world_def sample_receiver_start)

lemma receiver_world_file:
  "disk receiver_world = sample_disk\<lparr>files := (files sample_disk)(''/tmp/b.bin'' \<mapsto> [0, 0, 0])\<rparr>"
  by (simp add: receiver_world_def sample_receiver_start)

text \<open>A chunk as the sample library seals it.\<close>

definition sealed_payload :: "u32 \<Rightarrow> bytes \<Rightarrow> ChunkPayload" where
  "sealed_payload i p =
     \<lparr>chunk_index = i, nonce = replicate 12 0, ciphertext = toy_E sample_key (replicate 12 0) p,
      tag = toy_T sample_key (replicate 12 0) (toy_E sample_key (replicate 12 0) p)\<rparr>"

lemma sealed_payload_opens: "length p < 2 ^ 31 \<Longrightarrow> chunk_opens toy_cipher sample_key (sealed_payload i p) p"
  using DecryptChunk_sealed [OF toy_contract toy_available sample_key_ok, of p "replicate 12 0"]
  by (simp add: chunk_opens_def sealed_payload_def sealed_chunk_def kGcmNonceSize_def toy_E_def toy_T_def)

end
