(* ===== verification/Handles.thy ===== *)
theory Handles
  imports EndToEnd
begin

text \<open>
  The handles of OpenSSL. \<open>core/src/crypto.cpp\<close> holds every key and every context in a \<open>std::unique_ptr\<close>, so
  that it is released when an exception leaves the routine. Here \<open>live\<close> counts the handles of a library
  that were allocated and not freed, and code is \<open>balanced\<close> when it leaves their number as it was, however
  it ends. Nothing else is asked of the library: any call may fail.
\<close>

section \<open>Counting\<close>

definition counts_handle ::
    "('o \<Rightarrow> nat) \<Rightarrow> ('o \<Rightarrow> 'h option \<times> 'o) \<Rightarrow> ('h \<Rightarrow> 'o \<Rightarrow> 'o) \<Rightarrow> bool" where
  "counts_handle live allocate deleter \<longleftrightarrow>
     (\<forall>os. live (snd (allocate os)) = live os + (if fst (allocate os) = None then 0 else 1)) \<and>
     (\<forall>h os. 0 < live os \<longrightarrow> live (deleter h os) + 1 = live os)"

definition cipher_counts :: "('o \<Rightarrow> nat) \<Rightarrow> ('o, 'c) cipher_lib \<Rightarrow> bool" where
  "cipher_counts live lib \<longleftrightarrow>
     counts_handle live (EVP_CIPHER_CTX_new lib) (EVP_CIPHER_CTX_free lib) \<and>
     (\<forall>n os. live (snd (snd (RAND_bytes lib n os))) = live os)"

definition digest_counts :: "('o \<Rightarrow> nat) \<Rightarrow> ('o, 'm) digest_lib \<Rightarrow> bool" where
  "digest_counts live lib \<longleftrightarrow>
     counts_handle live (EVP_MD_CTX_new lib) (EVP_MD_CTX_free lib) \<and>
     (\<forall>d os. live (snd (snd (EVP_Digest lib d os))) = live os)"

text \<open>\<open>EVP_PKEY_keygen\<close> allocates a key when it succeeds; otherwise the pointer of the caller stays null.\<close>

definition pkey_counts :: "('o \<Rightarrow> nat) \<Rightarrow> ('o, 'k, 'p) pkey_lib \<Rightarrow> bool" where
  "pkey_counts live lib \<longleftrightarrow>
     (\<forall>i. counts_handle live (EVP_PKEY_CTX_new_id lib i) (EVP_PKEY_CTX_free lib)) \<and>
     (\<forall>k. counts_handle live (EVP_PKEY_CTX_new lib k) (EVP_PKEY_CTX_free lib)) \<and>
     (\<forall>i a. counts_handle live (EVP_PKEY_new_raw_private_key lib i a) (EVP_PKEY_free lib)) \<and>
     (\<forall>i p. counts_handle live (EVP_PKEY_new_raw_public_key lib i p) (EVP_PKEY_free lib)) \<and>
     (\<forall>c os rc k os'. EVP_PKEY_keygen lib c os = (rc, k, os') \<longrightarrow>
        live os' = live os + (if rc \<le> 0 then 0 else 1))"

section \<open>Balanced code\<close>

definition balanced :: "('s \<Rightarrow> nat) \<Rightarrow> ('s, 'a) prog \<Rightarrow> bool" where
  "balanced n m \<longleftrightarrow> (\<forall>s. n (snd (m s)) = n s)"

named_theorems balanced_intros

lemma balancedI: "(\<And>s. n (snd (m s)) = n s) \<Longrightarrow> balanced n m"
  by (simp add: balanced_def)

lemma balancedD: "balanced n m \<Longrightarrow> m s = (r, s') \<Longrightarrow> n s' = n s"
  by (metis balanced_def snd_conv)

lemma balanced_prog_of [balanced_intros]: "balanced n (prog_of r)"
  by (simp add: balanced_def)

lemma balanced_bind [balanced_intros]:
  assumes "balanced n m" and "\<And>x. balanced n (f x)"
  shows "balanced n (prog_bind m f)"
proof (rule balancedI)
  fix s
  obtain r s1 where m: "m s = (r, s1)" by fastforce
  have "n (snd (f x s1)) = n s1" for x using assms(2) by (simp add: balanced_def)
  with m balancedD [OF assms(1) m] show "n (snd (prog_bind m f s)) = n s"
    by (cases r) simp_all
qed

text \<open>The idiom of the core: what is allocated is freed when the scope is left.\<close>

lemma balanced_owned:
  assumes "counts_handle n allocate deleter" and "n (snd (m s)) = Suc k"
  shows "n (snd (owned deleter p m s)) = k"
proof -
  have "n (deleter p (snd (m s))) + 1 = n (snd (m s))"
    using assms by (simp add: counts_handle_def)
  with assms(2) show ?thesis by (cases "m s") simp
qed

lemma balanced_unique_ptr [balanced_intros]:
  assumes "counts_handle n allocate deleter" and "\<And>p. balanced n (body p)"
  shows "balanced n (unique_ptr allocate deleter e body)"
proof (rule balancedI)
  fix s
  obtain h s1 where a: "allocate s = (h, s1)" by fastforce
  have n: "n (snd (allocate s)) = n s + (if fst (allocate s) = None then 0 else 1)"
    using assms(1) unfolding counts_handle_def by blast
  show "n (snd (unique_ptr allocate deleter e body s)) = n s"
  proof (cases h)
    case None
    with a n show ?thesis by simp
  next
    case (Some p)
    have "n (snd (body p s1)) = Suc (n s)"
      using assms(2) n a Some by (simp add: balanced_def)
    from balanced_owned [OF assms(1), of "body p" s1, OF this] a Some show ?thesis by simp
  qed
qed

section \<open>The routines of the core\<close>

lemma GenerateKeyPair_balanced:
  assumes "pkey_counts live lib"
  shows "balanced live (GenerateKeyPair lib)"
  unfolding GenerateKeyPair_def
proof (rule balanced_unique_ptr, goal_cases)
  case 1
  then show ?case using assms by (simp add: pkey_counts_def)
next
  case (2 pctx)
  have key: "counts_handle live (EVP_PKEY_new_raw_private_key lib EVP_PKEY_X25519 []) (EVP_PKEY_free lib)"
    and gen: "\<And>c os rc k os'. EVP_PKEY_keygen lib c os = (rc, k, os') \<Longrightarrow> live os' = live os + (if rc \<le> 0 then 0 else 1)"
    using assms by (auto simp: pkey_counts_def)
  show ?case
  proof (rule balancedI, goal_cases)
    case (1 os)
    obtain rc c where init: "EVP_PKEY_keygen_init lib pctx = (rc, c)" by fastforce
    obtain rc2 k os2 where keygen: "EVP_PKEY_keygen lib c os = (rc2, k, os2)" by (metis prod_cases3)
    have "live (snd (owned (EVP_PKEY_free lib) k (prog_of r) os2)) = live os" if "\<not> rc2 \<le> 0" for r :: "KeyPair result"
      using gen [OF keygen] that by (intro balanced_owned [OF key]) simp
    with init keygen gen [OF keygen] show ?case by simp
  qed
qed

lemma DeriveSessionKey_balanced:
  assumes "pkey_counts live lib"
  shows "balanced live (DeriveSessionKey lib my_private peer_public info)"
  using assms unfolding DeriveSessionKey_def pkey_counts_def
  by (intro balanced_intros) simp_all

lemma EncryptChunk_balanced:
  assumes "cipher_counts live lib"
  shows "balanced live (EncryptChunk lib key plaintext)"
proof (rule balancedI)
  fix os
  obtain rc d os1 where r: "RAND_bytes lib (c_int kGcmNonceSize) os = (rc, d, os1)" by (metis prod_cases3)
  have "live (snd (snd (RAND_bytes lib (c_int kGcmNonceSize) os))) = live os"
    using assms unfolding cipher_counts_def by blast
  with r have rand: "live os1 = live os" by simp
  have "balanced live (unique_ptr (EVP_CIPHER_CTX_new lib) (EVP_CIPHER_CTX_free lib)
      (OpenSSLError ''CIPHER_CTX_new'') (\<lambda>ctx. prog_of (EncryptWithCtx lib key iv plaintext ctx)))" for iv
    using assms by (intro balanced_intros) (simp add: cipher_counts_def)
  with r rand show "live (snd (EncryptChunk lib key plaintext os)) = live os"
    by (simp add: EncryptChunk_def balanced_def split: sum.split)
qed

lemma DecryptChunk_balanced:
  assumes "cipher_counts live lib"
  shows "balanced live (DecryptChunk lib key ch)"
proof (rule balancedI)
  fix os
  have "balanced live (unique_ptr (EVP_CIPHER_CTX_new lib) (EVP_CIPHER_CTX_free lib)
      (OpenSSLError ''CIPHER_CTX_new'') (\<lambda>ctx. prog_of (DecryptWithCtx lib key ch ctx)))"
    using assms by (intro balanced_intros) (simp add: cipher_counts_def)
  then show "live (snd (DecryptChunk lib key ch os)) = live os"
    by (simp add: DecryptChunk_def balanced_def)
qed

lemma Sha256File_balanced:
  assumes "digest_counts live lib"
  shows "balanced live (Sha256File lib fs path)"
proof (rule balancedI)
  fix os
  have "balanced live (unique_ptr (EVP_MD_CTX_new lib) (EVP_MD_CTX_free lib)
      (OpenSSLError ''EVP_MD_CTX_new'') (\<lambda>ctx. prog_of (HashWithCtx lib f ctx)))" for f
    using assms by (intro balanced_intros) (simp add: digest_counts_def)
  then show "live (snd (Sha256File lib fs path os)) = live os"
    by (simp add: Sha256File_def balanced_def split: option.split)
qed

section \<open>The routines above it\<close>

text \<open>The handles that are live in a world, and in a world with the state of a callback.\<close>

definition world_live :: "('o \<Rightarrow> nat) \<Rightarrow> 'o world \<Rightarrow> nat" where
  "world_live live w = live (openssl w)"

lemma world_live_simps [simp]:
  "world_live live (w\<lparr>openssl := os\<rparr>) = live os"
  "world_live live (w\<lparr>disk := d\<rparr>) = world_live live w"
  by (simp_all add: world_live_def)

lemma PrepareFileOffer_balanced:
  assumes "digest_counts live dlib"
  shows "balanced (world_live live) (PrepareFileOffer dlib src)"
proof (rule balancedI)
  fix w
  have "live (snd (Sha256File dlib (disk w) src (openssl w))) = world_live live w"
    using Sha256File_balanced [OF assms] by (simp add: balanced_def world_live_def)
  then show "world_live live (snd (PrepareFileOffer dlib src w)) = world_live live w"
    by (auto simp: PrepareFileOffer_def Let_def split: option.split prod.split sum.split)
qed

lemma VerifyIntegrity_balanced:
  assumes "digest_counts live dlib"
  shows "balanced (world_live live) (VerifyIntegrity dlib this)"
proof (rule balancedI)
  fix w
  have "live (snd (Sha256File dlib (disk w) (output_path this) (openssl w))) = world_live live w"
    using Sha256File_balanced [OF assms] by (simp add: balanced_def world_live_def)
  then show "world_live live (snd (VerifyIntegrity dlib this w)) = world_live live w"
    by (auto simp: VerifyIntegrity_def split: prod.split sum.split)
qed

lemma ReceiveChunk_balanced:
  assumes "cipher_counts live lib"
  shows "balanced (world_live live \<circ> fst) (ReceiveChunk lib key c)"
proof (rule balancedI)
  fix s :: "'a world \<times> FileReceiver"
  obtain w this where s: "s = (w, this)" by fastforce
  let ?ch = "\<lparr>enc_nonce = nonce c, enc_ciphertext = ciphertext c, enc_tag = tag c\<rparr>"
  obtain r os where dec: "DecryptChunk lib key ?ch (openssl w) = (r, os)" by (metis prod.collapse)
  have "live os = world_live live w"
    using balancedD [OF DecryptChunk_balanced [OF assms] dec] by (simp add: world_live_def)
  then show "(world_live live \<circ> fst) (snd (ReceiveChunk lib key c s)) = (world_live live \<circ> fst) s"
    by (auto simp: s ReceiveChunk_def Let_def dec split: option.split prod.split sum.split)
qed

lemma FileReceiver_new_balanced:
  "balanced (world_live live) (FileReceiver_new path fsize chunks hash)"
  by (rule balancedI) (auto simp: FileReceiver_new_def Let_def split: option.split prod.split)

text \<open>The sender adds nothing to what its sink does.\<close>

lemma send_loop_balanced:
  assumes "cipher_counts live lib" and "\<And>c. balanced (world_live live \<circ> fst) (sink c)"
  shows "world_live live (fst (snd (send_loop lib key sink f index s))) = world_live live (fst s)"
  using assms
proof (induction lib key sink f index s rule: send_loop.induct)
  case (1 lib key sink f index w u)
  have enc: "live (snd (EncryptChunk lib key p (openssl w))) = world_live live w" for p
    using EncryptChunk_balanced [OF "1.prems"(1)] by (simp add: balanced_def world_live_def)
  show ?case
  proof (cases "in_good f \<and> fst (istream_read (unat kChunkSize) f) \<noteq> []")
    case False
    then show ?thesis by (auto simp: send_loop.simps split: prod.split)
  next
    case True
    then obtain p f' where read: "istream_read (unat kChunkSize) f = (p, f')" "in_good f" "p \<noteq> []"
      by (metis prod.collapse)
    obtain r os where e: "EncryptChunk lib key p (openssl w) = (r, os)" by (metis prod.collapse)
    with enc [of p] have os: "live os = world_live live w" by simp
    show ?thesis
    proof (cases r)
      case (Inl x)
      with read e os show ?thesis by (simp add: send_loop.simps)
    next
      case (Inr ch)
      let ?c = "\<lparr>chunk_index = index, nonce = enc_nonce ch, ciphertext = enc_ciphertext ch, tag = enc_tag ch\<rparr>"
      obtain r2 s2 where sink: "sink ?c (w\<lparr>openssl := os\<rparr>, u) = (r2, s2)" by (metis prod.collapse)
      have s2: "world_live live (fst s2) = world_live live w"
        using balancedD [OF "1.prems"(2) sink] os by simp
      show ?thesis
      proof (cases r2)
        case (Inl x)
        with read e Inr sink s2 show ?thesis by (simp add: send_loop.simps [of lib key sink f])
      next
        case r2: (Inr x)
        from "1.IH" [OF _ refl read(1) [symmetric] read(3) e [symmetric] Inr refl sink [symmetric] r2 "1.prems"] read(2)
        have "world_live live (fst (snd (send_loop lib key sink f' (index + 1) s2))) = world_live live (fst s2)"
          by simp
        with read e Inr sink r2 s2 show ?thesis by (simp add: send_loop.simps [of lib key sink f])
      qed
    qed
  qed
qed

lemma SendFileChunks_balanced:
  assumes "cipher_counts live lib" and "\<And>c. balanced (world_live live \<circ> fst) (sink c)"
  shows "balanced (world_live live \<circ> fst) (SendFileChunks lib src key sink)"
  by (rule balancedI) (simp add: SendFileChunks_def send_loop_balanced [OF assms] split: option.split)

lemma bob_on_data_balanced:
  assumes "cipher_counts live lib"
  shows "balanced (world_live live \<circ> fst) (bob_on_data lib key from_peer raw)"
proof (rule balancedI)
  fix s :: "'a world \<times> FileReceiver"
  have "(world_live live \<circ> fst) (snd (ReceiveChunk lib key c s)) = (world_live live \<circ> fst) s" for c
    using ReceiveChunk_balanced [OF assms] unfolding balanced_def by blast
  then show "(world_live live \<circ> fst) (snd (bob_on_data lib key from_peer raw s)) = (world_live live \<circ> fst) s"
    by (auto simp: bob_on_data_def prog_bind_def ASSERT_TRUE_def split: sum.split)
qed

lemma transfer_balanced:
  assumes "cipher_counts live lib"
  shows "balanced (world_live live) (transfer lib key_a key_b src dst offer)"
proof (rule balancedI)
  fix w :: "'a world"
  obtain h where h: "loopback_pair (bob_on_data lib key_b) 0 1 = Inr h"
      "loopback_linked h 0 ''alice'' (bob_on_data lib key_b)"
    using loopback_pair_linked [of 0 1] by auto
  have "balanced (world_live live \<circ> fst) (alice_sink h 0 c)" for c
    using bob_on_data_balanced [OF assms] loopback.send_delivers [OF h(2)]
    by (simp add: balanced_def alice_sink_def)
  note send = SendFileChunks_balanced [OF assms this]
  obtain r w1 where new: "FileReceiver_new dst (file_size offer) (total_chunks offer) (sha256 offer) w = (r, w1)"
    by fastforce
  have w1: "world_live live w1 = world_live live w"
    by (rule balancedD [OF FileReceiver_new_balanced new])
  show "world_live live (snd (transfer lib key_a key_b src dst offer w)) = world_live live w"
  proof (cases r)
    case (Inr this)
    obtain r2 w2 this2 where "SendFileChunks lib src key_a (alice_sink h 0) (w1, this) = (r2, (w2, this2))"
      by (metis prod.collapse)
    with balancedD [OF send this] h(1) new w1 Inr show ?thesis
      by (cases r2) (simp_all add: transfer_def)
  qed (use h(1) new w1 in \<open>simp add: transfer_def\<close>)
qed

end
