(* ===== verification/CApi.thy ===== *)
theory CApi
  imports Digest KeyExchange
begin

text \<open>
  The flat C interface \<open>core/src/c_api.cpp\<close>: null checks, copies between the caller's memory and the
  core's vectors, result buffers from \<open>malloc\<close>, and every exception turned into a status code.
\<close>

section \<open>Memory\<close>

text \<open>
  The heap of \<open>malloc\<close>: \<open>heap_room\<close> is what it can still hand out. \<open>malloc(0)\<close> returns a pointer to an
  empty block, which has to be freed like any other.
\<close>

record heap =
  blocks :: "address \<rightharpoonup> bytes"
  next_block :: address
  heap_room :: nat

definition malloc :: "nat \<Rightarrow> heap \<Rightarrow> address option \<times> heap" where
  "malloc n h =
     (if n \<le> heap_room h
      then (Some (next_block h),
            h\<lparr>blocks := (blocks h)(next_block h \<mapsto> replicate n 0), next_block := Suc (next_block h),
              heap_room := heap_room h - n\<rparr>)
      else (None, h))"

definition heap_free :: "address \<Rightarrow> (heap, unit) prog" where
  "heap_free a h =
     (case blocks h a of
        None \<Rightarrow> (Inl OutOfBounds, h)
      | Some d \<Rightarrow> (Inr (), h\<lparr>blocks := (blocks h)(a := None), heap_room := heap_room h + length d\<rparr>))"

definition memcpy_to :: "address \<Rightarrow> bytes \<Rightarrow> (heap, unit) prog" where
  "memcpy_to a d h =
     (case blocks h a of
        None \<Rightarrow> (Inl OutOfBounds, h)
      | Some b \<Rightarrow>
          (case buf_store b 0 d of
             Inl e \<Rightarrow> (Inl e, h)
           | Inr b \<Rightarrow> (Inr (), h\<lparr>blocks := (blocks h)(a \<mapsto> b)\<rparr>)))"

text \<open>
  A pointer argument is \<open>None\<close> when it is null, and else the bytes that can be read through it. The
  output arguments of one call point to distinct objects. \<open>mem_read p n\<close> copies \<open>n\<close> bytes,
  \<open>vec_from\<close> builds the vector of the range \<open>[p, p + n)\<close>, \<open>c_string\<close> reads up to the terminating zero.
\<close>

definition mem_read :: "bytes \<Rightarrow> nat \<Rightarrow> bytes result" where
  "mem_read p n = (if n \<le> length p then Inr (take n p) else Inl OutOfBounds)"

definition vec_from :: "bytes option \<Rightarrow> u64 \<Rightarrow> bytes result" where
  "vec_from p n =
     (case p of
        None \<Rightarrow> if n = 0 then Inr [] else Inl OutOfBounds
      | Some b \<Rightarrow> mem_read b (unat n))"

definition c_string :: "bytes \<Rightarrow> string result" where
  "c_string p =
     (if 0 \<in> set p then Inr (map char_of_byte (takeWhile (\<lambda>b. b \<noteq> 0) p)) else Inl OutOfBounds)"

text \<open>
  \<open>try { ... } catch (...) { return h; }\<close>: every exception is caught; an access outside a buffer is not
  one.
\<close>

definition try_catch :: "'a result \<Rightarrow> 'a \<Rightarrow> 'a result" where
  "try_catch m h =
     (case m of
        Inl e \<Rightarrow> if e = OutOfBounds then Inl OutOfBounds else Inr h
      | Inr x \<Rightarrow> Inr x)"

declare buf_store_def [c_memory] mem_read_def [c_memory] c_string_def [c_memory] try_catch_def [c_memory]

section \<open>The interface\<close>

datatype airdrop_status =
    AIRDROP_OK
  | AIRDROP_ERR_INVALID_ARG
  | AIRDROP_ERR_CRYPTO
  | AIRDROP_ERR_IO

record airdrop_buffer =
  buf_data :: "address option"
  buf_len :: u64

definition MakeBuffer :: "bytes \<Rightarrow> (heap, airdrop_buffer) prog" where
  "MakeBuffer src h =
     (let (p, h) = malloc (length src) h;
          buf = \<lparr>buf_data = p, buf_len = vec_size src\<rparr> in
      case buf_data buf of
        None \<Rightarrow> (Inr buf, h)
      | Some a \<Rightarrow>
          if src \<noteq> [] then prog_bind (memcpy_to a src) (\<lambda>_. prog_return buf) h else (Inr buf, h))"

definition airdrop_free_buffer :: "airdrop_buffer \<Rightarrow> (heap, unit) prog" where
  "airdrop_free_buffer buf =
     (case buf_data buf of None \<Rightarrow> prog_return () | Some a \<Rightarrow> heap_free a)"

definition airdrop_generate_keypair ::
    "('o, 'k, 'p) pkey_lib \<Rightarrow> bytes option \<Rightarrow> bytes option \<Rightarrow>
     ('o, airdrop_status \<times> bytes option \<times> bytes option) prog" where
  "airdrop_generate_keypair lib out_public32 out_private32 os =
     (case (out_public32, out_private32) of
        (Some pub0, Some priv0) \<Rightarrow>
          let (r, os) = GenerateKeyPair lib os in
          (try_catch
            (res_bind r (\<lambda>kp.
             res_bind (buf_store pub0 0 (public_key kp)) (\<lambda>pub.
             res_bind (buf_store priv0 0 (private_key kp)) (\<lambda>priv.
             Inr (AIRDROP_OK, Some pub, Some priv)))))
            (AIRDROP_ERR_CRYPTO, out_public32, out_private32), os)
      | _ \<Rightarrow> (Inr (AIRDROP_ERR_INVALID_ARG, out_public32, out_private32), os))"

definition airdrop_derive_session_key ::
    "('o, 'k, 'p) pkey_lib \<Rightarrow> bytes option \<Rightarrow> bytes option \<Rightarrow> bytes option \<Rightarrow> bytes option \<Rightarrow>
     ('o, airdrop_status \<times> bytes option) prog" where
  "airdrop_derive_session_key lib my_private32 peer_public32 info out_session_key32 os =
     (case (my_private32, peer_public32, info, out_session_key32) of
        (Some my, Some peer, Some i, Some out0) \<Rightarrow>
          (case res_bind (mem_read my kX25519KeySize) (\<lambda>priv.
                res_bind (mem_read peer kX25519KeySize) (\<lambda>pub.
                res_bind (c_string i) (\<lambda>s. Inr (priv, pub, s)))) of
             Inl e \<Rightarrow> (Inl e, os)
           | Inr (priv, pub, s) \<Rightarrow>
               let (r, os) = DeriveSessionKey lib priv pub s os in
               (try_catch
                 (res_bind r (\<lambda>session.
                  res_bind (buf_store out0 0 session) (\<lambda>out. Inr (AIRDROP_OK, Some out))))
                 (AIRDROP_ERR_CRYPTO, out_session_key32), os))
      | _ \<Rightarrow> (Inr (AIRDROP_ERR_INVALID_ARG, out_session_key32), os))"

definition airdrop_encrypt_chunk ::
    "('o, 'c) cipher_lib \<Rightarrow> bytes option \<Rightarrow> bytes option \<Rightarrow> u64 \<Rightarrow>
     airdrop_buffer option \<Rightarrow> airdrop_buffer option \<Rightarrow> airdrop_buffer option \<Rightarrow>
     ('o \<times> heap, airdrop_status \<times> airdrop_buffer option \<times> airdrop_buffer option \<times> airdrop_buffer option) prog" where
  "airdrop_encrypt_chunk lib session_key32 plaintext plaintext_len out_nonce out_ciphertext out_tag s =
     (let (os, h) = s in
      case (session_key32, out_nonce, out_ciphertext, out_tag) of
        (Some k, Some n0, Some c0, Some t0) \<Rightarrow>
          (case res_bind (mem_read k kX25519KeySize) (\<lambda>key.
                res_bind (vec_from plaintext plaintext_len) (\<lambda>pt. Inr (key, pt))) of
             Inl e \<Rightarrow> (Inl e, (os, h))
           | Inr (key, pt) \<Rightarrow>
               (case EncryptChunk lib key pt os of
                  (Inl e, os) \<Rightarrow>
                    (try_catch (Inl e) (AIRDROP_ERR_CRYPTO, out_nonce, out_ciphertext, out_tag), (os, h))
                | (Inr enc, os) \<Rightarrow>
                    let (r, h) =
                      prog_bind (MakeBuffer (enc_nonce enc)) (\<lambda>n.
                      prog_bind (MakeBuffer (enc_ciphertext enc)) (\<lambda>c.
                      prog_bind (MakeBuffer (enc_tag enc)) (\<lambda>t.
                      prog_return (AIRDROP_OK, Some n, Some c, Some t)))) h
                    in (r, (os, h))))
      | _ \<Rightarrow> (Inr (AIRDROP_ERR_INVALID_ARG, out_nonce, out_ciphertext, out_tag), (os, h)))"

definition airdrop_decrypt_chunk ::
    "('o, 'c) cipher_lib \<Rightarrow> bytes option \<Rightarrow> bytes option \<Rightarrow> u64 \<Rightarrow> bytes option \<Rightarrow> u64 \<Rightarrow>
     bytes option \<Rightarrow> u64 \<Rightarrow> airdrop_buffer option \<Rightarrow>
     ('o \<times> heap, airdrop_status \<times> airdrop_buffer option) prog" where
  "airdrop_decrypt_chunk lib session_key32 iv iv_len ct ct_len t t_len out_plaintext s =
     (let (os, h) = s in
      case (session_key32, out_plaintext) of
        (Some k, Some p0) \<Rightarrow>
          (case res_bind (mem_read k kX25519KeySize) (\<lambda>key.
                res_bind (vec_from iv iv_len) (\<lambda>iv.
                res_bind (vec_from ct ct_len) (\<lambda>ct.
                res_bind (vec_from t t_len) (\<lambda>t.
                Inr (key, \<lparr>enc_nonce = iv, enc_ciphertext = ct, enc_tag = t\<rparr>))))) of
             Inl e \<Rightarrow> (Inl e, (os, h))
           | Inr (key, enc) \<Rightarrow>
               (case DecryptChunk lib key enc os of
                  (Inl e, os) \<Rightarrow> (try_catch (Inl e) (AIRDROP_ERR_CRYPTO, out_plaintext), (os, h))
                | (Inr plaintext, os) \<Rightarrow>
                    let (r, h) = prog_bind (MakeBuffer plaintext) (\<lambda>p.
                                 prog_return (AIRDROP_OK, Some p)) h
                    in (r, (os, h))))
      | _ \<Rightarrow> (Inr (AIRDROP_ERR_INVALID_ARG, out_plaintext), (os, h)))"

definition airdrop_sha256_file ::
    "('o, 'm) digest_lib \<Rightarrow> filesystem \<Rightarrow> bytes option \<Rightarrow> bytes option \<Rightarrow>
     ('o, airdrop_status \<times> bytes option) prog" where
  "airdrop_sha256_file lib fs path out_digest32 os =
     (case (path, out_digest32) of
        (Some p, Some out0) \<Rightarrow>
          (case c_string p of
             Inl e \<Rightarrow> (Inl e, os)
           | Inr name \<Rightarrow>
               let (r, os) = Sha256File lib fs name os in
               (try_catch
                 (res_bind r (\<lambda>digest.
                  res_bind (buf_store out0 0 digest) (\<lambda>out. Inr (AIRDROP_OK, Some out))))
                 (AIRDROP_ERR_IO, out_digest32), os))
      | _ \<Rightarrow> (Inr (AIRDROP_ERR_INVALID_ARG, out_digest32), os))"

section \<open>Result buffers\<close>

text \<open>Nothing lives at or above the next address; a buffer \<open>holds\<close> bytes when it owns a block with them.\<close>

definition heap_ok :: "heap \<Rightarrow> bool" where
  "heap_ok h \<longleftrightarrow> (\<forall>a \<ge> next_block h. blocks h a = None)"

definition holds :: "heap \<Rightarrow> airdrop_buffer \<Rightarrow> bytes \<Rightarrow> bool" where
  "holds h buf d \<longleftrightarrow> (\<exists>a. buf = \<lparr>buf_data = Some a, buf_len = vec_size d\<rparr> \<and> blocks h a = Some d)"

lemma MakeBuffer_eq:
  "MakeBuffer src h =
     (if length src \<le> heap_room h
      then (Inr \<lparr>buf_data = Some (next_block h), buf_len = vec_size src\<rparr>,
            h\<lparr>blocks := (blocks h)(next_block h \<mapsto> src), next_block := Suc (next_block h),
              heap_room := heap_room h - length src\<rparr>)
      else (Inr \<lparr>buf_data = None, buf_len = vec_size src\<rparr>, h))"
  by (auto simp: MakeBuffer_def malloc_def memcpy_to_def prog_bind_def Let_def)

text \<open>
  What the caller of the interface relies on: a buffer keeps its bytes until it is released, whatever
  buffers are made or released besides, and releasing gives its room back.
\<close>

locale buffer_store =
  fixes make :: "bytes \<Rightarrow> ('h, 'b) prog"
    and release :: "'b \<Rightarrow> ('h, unit) prog"
    and ok :: "'h \<Rightarrow> bool"
    and room :: "'h \<Rightarrow> nat"
    and contains :: "'h \<Rightarrow> 'b \<Rightarrow> bytes \<Rightarrow> bool"
  assumes make_contains: "ok h \<Longrightarrow> length d \<le> room h \<Longrightarrow>
      \<exists>b h'. make d h = (Inr b, h') \<and> ok h' \<and> room h' = room h - length d \<and> contains h' b d \<and>
        (\<forall>b' d'. contains h b' d' \<longrightarrow> contains h' b' d' \<and> b' \<noteq> b)"
    and release_room: "ok h \<Longrightarrow> contains h b d \<Longrightarrow>
      \<exists>h'. release b h = (Inr (), h') \<and> ok h' \<and> room h' = room h + length d \<and>
        (\<forall>b' d'. b' \<noteq> b \<longrightarrow> contains h b' d' \<longrightarrow> contains h' b' d')"
begin

lemma make_three:
  assumes "ok h" and "length x + length y + length z \<le> room h"
  obtains bx h1 b2 h2 b3 h3 where "make x h = (Inr bx, h1)" and "make y h1 = (Inr b2, h2)"
    and "make z h2 = (Inr b3, h3)" and "ok h3"
    and "room h3 = room h - (length x + length y + length z)"
    and "contains h3 bx x" and "contains h3 b2 y" and "contains h3 b3 z" and "distinct [bx, b2, b3]"
proof -
  obtain bx h1 where h1: "make x h = (Inr bx, h1)" "ok h1" "room h1 = room h - length x" "contains h1 bx x"
    using make_contains [OF assms(1), of x] assms(2) by auto
  have y: "length y \<le> room h1" using assms(2) h1(3) by simp
  obtain b2 h2 where h2: "make y h1 = (Inr b2, h2)" "ok h2" "room h2 = room h1 - length y" "contains h2 b2 y"
      "\<forall>b' d'. contains h1 b' d' \<longrightarrow> contains h2 b' d' \<and> b' \<noteq> b2"
    using make_contains [OF h1(2) y] by blast
  have z: "length z \<le> room h2" using assms(2) h1(3) h2(3) by simp
  obtain b3 h3 where h3: "make z h2 = (Inr b3, h3)" "ok h3" "room h3 = room h2 - length z" "contains h3 b3 z"
      "\<forall>b' d'. contains h2 b' d' \<longrightarrow> contains h3 b' d' \<and> b' \<noteq> b3"
    using make_contains [OF h2(2) z] by blast
  have "contains h3 bx x" "contains h3 b2 y" "distinct [bx, b2, b3]"
    using h1(4) h2(4,5) h3(5) by auto
  then show ?thesis
    using h1(3) h2(3) h3(2-4) by (intro that [OF h1(1) h2(1) h3(1)]) simp_all
qed

lemma release_three:
  assumes "ok h" and "contains h bx x" and "contains h b2 y" and "contains h b3 z"
    and "distinct [bx, b2, b3]"
  shows "\<exists>h'. deliver_all release [bx, b2, b3] h = (Inr (), h') \<and> ok h' \<and>
    room h' = room h + (length x + length y + length z)"
proof -
  obtain h1 where h1: "release bx h = (Inr (), h1)" "ok h1" "room h1 = room h + length x"
      "contains h1 b2 y" "contains h1 b3 z"
    using release_room [OF assms(1,2)] assms(3-5) by fastforce
  obtain h2 where h2: "release b2 h1 = (Inr (), h2)" "ok h2" "room h2 = room h1 + length y" "contains h2 b3 z"
    using release_room [OF h1(2,4)] h1(5) assms(5) by fastforce
  obtain h3 where "release b3 h2 = (Inr (), h3)" "ok h3" "room h3 = room h2 + length z"
    using release_room [OF h2(2,4)] by blast
  with h1 h2 show ?thesis by simp
qed

end

interpretation cbuf: buffer_store MakeBuffer airdrop_free_buffer heap_ok heap_room holds
proof
  fix h and d :: bytes assume ok: "heap_ok h" and "length d \<le> heap_room h"
  then show "\<exists>b h'. MakeBuffer d h = (Inr b, h') \<and> heap_ok h' \<and> heap_room h' = heap_room h - length d \<and>
      holds h' b d \<and> (\<forall>b' d'. holds h b' d' \<longrightarrow> holds h' b' d' \<and> b' \<noteq> b)"
    by (auto simp: MakeBuffer_eq holds_def heap_ok_def)
next
  fix h b and d :: bytes assume ok: "heap_ok h" and "holds h b d"
  then obtain a where b: "b = \<lparr>buf_data = Some a, buf_len = vec_size d\<rparr>" and a: "blocks h a = Some d"
    by (auto simp: holds_def)
  let ?h' = "h\<lparr>blocks := (blocks h)(a := None), heap_room := heap_room h + length d\<rparr>"
  have "airdrop_free_buffer b h = (Inr (), ?h')"
    using a by (simp add: b airdrop_free_buffer_def heap_free_def)
  moreover have "heap_ok ?h'" using ok by (simp add: heap_ok_def)
  moreover have "holds ?h' b' d'" if "b' \<noteq> b" and "holds h b' d'" for b' d'
  proof -
    from that(2) obtain a' where b': "b' = \<lparr>buf_data = Some a', buf_len = vec_size d'\<rparr>"
        and a': "blocks h a' = Some d'"
      by (auto simp: holds_def)
    have "a' \<noteq> a" using that(1) a a' by (auto simp: b b')
    with a' show ?thesis by (simp add: holds_def b')
  qed
  ultimately show "\<exists>h'. airdrop_free_buffer b h = (Inr (), h') \<and> heap_ok h' \<and> heap_room h' = heap_room h + length d \<and>
      (\<forall>b' d'. b' \<noteq> b \<longrightarrow> holds h b' d' \<longrightarrow> holds h' b' d')"
    by (intro exI [of _ ?h']) simp
qed

section \<open>A chunk through the interface\<close>

lemma vec_from_all: "length d < vec_limit \<Longrightarrow> vec_from (Some d) (vec_size d) = Inr d"
  by (simp add: vec_from_def mem_read_def)

lemma mem_read_key: "key_ok k \<Longrightarrow> mem_read k kX25519KeySize = Inr k"
  by (simp add: mem_read_def key_ok_def)

lemma encrypt_chunk_buffers:
  assumes ready: "cipher_ready lib" and key: "key_ok key" and p: "length p < 2 ^ 31"
    and h: "heap_ok h" and room: "28 + length p \<le> heap_room h"
  shows "\<exists>os' h' nb cb tb n c t.
    airdrop_encrypt_chunk lib (Some key) (Some p) (vec_size p) (Some n0) (Some c0) (Some t0) (os, h)
      = (Inr (AIRDROP_OK, Some nb, Some cb, Some tb), (os', h')) \<and>
    heap_ok h' \<and> heap_room h' = heap_room h - (28 + length p) \<and>
    holds h' nb n \<and> holds h' cb c \<and> holds h' tb t \<and> distinct [nb, cb, tb] \<and>
    length n = 12 \<and> length c = length p \<and> length t = 16 \<and>
    (\<forall>os2. fst (DecryptChunk lib key \<lparr>enc_nonce = n, enc_ciphertext = c, enc_tag = t\<rparr> os2) = Inr p)"
proof -
  obtain e os' where e: "EncryptChunk lib key p os = (Inr e, os')"
      "\<forall>os2. fst (DecryptChunk lib key e os2) = Inr p"
      "length (enc_nonce e) = 12" "length (enc_ciphertext e) = length p" "length (enc_tag e) = 16"
    using gcm.enc_dec [OF ready key p] by blast
  have lim: "length p < vec_limit" using p by (simp add: vec_limit_def)
  have fits: "length (enc_nonce e) + length (enc_ciphertext e) + length (enc_tag e) \<le> heap_room h"
    using e(3-5) room by simp
  obtain nb h1 cb h2 tb h' where h': "MakeBuffer (enc_nonce e) h = (Inr nb, h1)"
      "MakeBuffer (enc_ciphertext e) h1 = (Inr cb, h2)" "MakeBuffer (enc_tag e) h2 = (Inr tb, h')"
      "heap_ok h'" "heap_room h' = heap_room h - (length (enc_nonce e) + length (enc_ciphertext e) + length (enc_tag e))"
      "holds h' nb (enc_nonce e)" "holds h' cb (enc_ciphertext e)" "holds h' tb (enc_tag e)" "distinct [nb, cb, tb]"
    by (rule cbuf.make_three [OF h fits])
  have "airdrop_encrypt_chunk lib (Some key) (Some p) (vec_size p) (Some n0) (Some c0) (Some t0) (os, h)
      = (Inr (AIRDROP_OK, Some nb, Some cb, Some tb), (os', h'))"
    using e(1) h'(1-3)
    by (simp add: airdrop_encrypt_chunk_def mem_read_key [OF key] vec_from_all [OF lim])
  with e h'(4-9) show ?thesis
    by (intro exI [of _ os'] exI [of _ h'] exI [of _ nb] exI [of _ cb] exI [of _ tb]
        exI [of _ "enc_nonce e"] exI [of _ "enc_ciphertext e"] exI [of _ "enc_tag e"]) simp
qed

text \<open>Decrypting, with every status: the caller's buffer is filled on success and untouched else.\<close>

lemma decrypt_chunk_status:
  assumes key: "key_ok key"
    and lens: "length n < vec_limit" "length c < vec_limit" "length t < vec_limit"
    and dec: "DecryptChunk lib key \<lparr>enc_nonce = n, enc_ciphertext = c, enc_tag = t\<rparr> os = (r, os')"
  shows "airdrop_decrypt_chunk lib (Some key) (Some n) (vec_size n) (Some c) (vec_size c)
      (Some t) (vec_size t) (Some p0) (os, h) =
    (case r of
       Inl e \<Rightarrow> (if e = OutOfBounds then Inl OutOfBounds else Inr (AIRDROP_ERR_CRYPTO, Some p0), (os', h))
     | Inr p \<Rightarrow> (Inr (AIRDROP_OK, Some (case MakeBuffer p h of (Inr b, _) \<Rightarrow> b)), (os', snd (MakeBuffer p h))))"
  using dec lens
  by (simp add: airdrop_decrypt_chunk_def mem_read_key [OF key] vec_from_all try_catch_def MakeBuffer_eq
      prog_bind_def split: sum.split)

text \<open>The round trip through the interface, with the buffers released at the end.\<close>

lemma chunk_through_c_api:
  assumes ready: "cipher_ready lib" and key: "key_ok key" and p: "length p < 2 ^ 31"
    and h: "heap_ok h" and room: "28 + 2 * length p \<le> heap_room h"
  shows "\<exists>os1 h1 nb cb tb n c t os2 h2 pb h3.
    airdrop_encrypt_chunk lib (Some key) (Some p) (vec_size p) (Some n0) (Some c0) (Some t0) (os, h)
      = (Inr (AIRDROP_OK, Some nb, Some cb, Some tb), (os1, h1)) \<and>
    holds h1 nb n \<and> holds h1 cb c \<and> holds h1 tb t \<and>
    airdrop_decrypt_chunk lib (Some key) (Some n) (buf_len nb) (Some c) (buf_len cb) (Some t) (buf_len tb)
        (Some p0) (os1, h1)
      = (Inr (AIRDROP_OK, Some pb), (os2, h2)) \<and>
    holds h2 pb p \<and>
    deliver_all airdrop_free_buffer [pb, nb, cb, tb] h2 = (Inr (), h3) \<and> heap_room h3 = heap_room h"
proof -
  obtain os1 h1 nb cb tb n c t where enc:
      "airdrop_encrypt_chunk lib (Some key) (Some p) (vec_size p) (Some n0) (Some c0) (Some t0) (os, h)
        = (Inr (AIRDROP_OK, Some nb, Some cb, Some tb), (os1, h1))"
      "heap_ok h1" "heap_room h1 = heap_room h - (28 + length p)"
      and held: "holds h1 nb n" "holds h1 cb c" "holds h1 tb t" and dist: "distinct [nb, cb, tb]"
      and len: "length n = 12" "length c = length p" "length t = 16"
      and dec: "\<forall>os2. fst (DecryptChunk lib key \<lparr>enc_nonce = n, enc_ciphertext = c, enc_tag = t\<rparr> os2) = Inr p"
    using encrypt_chunk_buffers [OF ready key p h, of n0 c0 t0 os] room by auto
  obtain os2 where d: "DecryptChunk lib key \<lparr>enc_nonce = n, enc_ciphertext = c, enc_tag = t\<rparr> os1 = (Inr p, os2)"
    using dec by (metis prod.collapse)
  have lim: "length n < vec_limit" "length c < vec_limit" "length t < vec_limit"
    using len p by (simp_all add: vec_limit_def)
  have room1: "length p \<le> heap_room h1" using room enc(3) by simp
  obtain pb h2 where mk: "MakeBuffer p h1 = (Inr pb, h2)" "heap_ok h2" "heap_room h2 = heap_room h1 - length p"
      "holds h2 pb p" "\<forall>b' d'. holds h1 b' d' \<longrightarrow> holds h2 b' d' \<and> b' \<noteq> pb"
    using cbuf.make_contains [OF enc(2) room1] by blast
  obtain hf where hf: "airdrop_free_buffer pb h2 = (Inr (), hf)" "heap_ok hf" "heap_room hf = heap_room h2 + length p"
      "holds hf nb n" "holds hf cb c" "holds hf tb t"
    using cbuf.release_room [OF mk(2,4)] mk(5) held by metis
  obtain h3 where h3: "deliver_all airdrop_free_buffer [nb, cb, tb] hf = (Inr (), h3)"
      "heap_room h3 = heap_room hf + (length n + length c + length t)"
    using cbuf.release_three [OF hf(2,4-6) dist] by blast
  have "deliver_all airdrop_free_buffer [pb, nb, cb, tb] h2 = (Inr (), h3)"
    using hf(1) h3(1) by simp
  moreover have "heap_room h3 = heap_room h"
    using h3(2) hf(3) mk(3) enc(3) len room by simp
  moreover have "buf_len nb = vec_size n" "buf_len cb = vec_size c" "buf_len tb = vec_size t"
    using held by (auto simp: holds_def)
  moreover have "airdrop_decrypt_chunk lib (Some key) (Some n) (vec_size n) (Some c) (vec_size c) (Some t)
      (vec_size t) (Some p0) (os1, h1) = (Inr (AIRDROP_OK, Some pb), (os2, h2))"
    using decrypt_chunk_status [OF key lim d, of p0 h1] mk(1) by simp
  ultimately show ?thesis
    using enc(1) held mk(4) by (metis (no_types))
qed

text \<open>When \<open>malloc\<close> fails, the call still reports success, with a null pointer and a length.\<close>

lemma MakeBuffer_exhausted:
  "heap_room h < length src \<Longrightarrow> MakeBuffer src h = (Inr \<lparr>buf_data = None, buf_len = vec_size src\<rparr>, h)"
  by (simp add: MakeBuffer_eq)

end
