(* ===== verification/Crypto_Props.thy ===== *)
theory Crypto_Props
  imports Samples Handles CApi
begin

text \<open>
  The properties of the cryptographic routines and of the C interface over them. Each holds for every
  library that keeps the documented contract; the witnesses are the libraries of \<open>Samples\<close>.
\<close>

text \<open>
  C15: encrypting a chunk and decrypting the result under the same key, in whatever later state of the
  library, gives the plaintext back; the nonce has 12 bytes, the tag 16, and the ciphertext the length of
  the plaintext. The empty chunk is included.
\<close>

theorem chunk_decrypts:
  assumes "gcm_contract lib st E D T" and "cipher_available lib" and "key_ok key" and "length p < 2 ^ 31"
  shows "\<exists>c os'. EncryptChunk lib key p os = (Inr c, os') \<and>
    length (enc_nonce c) = 12 \<and> length (enc_ciphertext c) = length p \<and> length (enc_tag c) = 16 \<and>
    (\<forall>os2. fst (DecryptChunk lib key c os2) = Inr p)"
proof -
  have "cipher_ready lib" unfolding cipher_ready_def using assms(1,2) by blast
  from gcm.enc_dec [OF this assms(3,4)] show ?thesis by blast
qed

theorem chunk_decrypts_witness:
  "(\<exists>c os'. EncryptChunk toy_cipher sample_key [1, 2, 255] 0 = (Inr c, os') \<and>
     (\<forall>os2. fst (DecryptChunk toy_cipher sample_key c os2) = Inr [1, 2, 255])) \<and>
   DecryptChunk toy_cipher sample_key (sealed_chunk toy_E toy_T sample_key (replicate 12 0) [9]) 5 = (Inr [9], 5)"
proof -
  have "DecryptChunk toy_cipher sample_key (sealed_chunk toy_E toy_T sample_key (replicate 12 0) [9]) 5 = (Inr [9], 5)"
    by code_simp
  then show ?thesis
    using chunk_decrypts [OF toy_contract toy_available sample_key_ok, of "[1, 2, 255]" 0] by auto
qed

text \<open>
  C16: every outcome of \<open>DecryptChunk\<close>, in the order of the tests: a nonce that has not 12 bytes, a tag
  that has not 16, no context, a tag that is not the tag of this nonce and ciphertext under this key;
  otherwise the plaintext. So nothing but the sealed chunk of the plaintext is ever accepted, and a chunk
  that was changed in any part is rejected unless its tag is right.
\<close>

theorem DecryptChunk_outcomes:
  assumes "gcm_contract lib st E D T" and "key_ok key" and "length (enc_ciphertext ch) < 2 ^ 31"
  shows "fst (DecryptChunk lib key ch os) =
    (if length (enc_nonce ch) \<noteq> 12 then Inl (RuntimeError ''crypto: bad nonce size'')
     else if length (enc_tag ch) \<noteq> 16 then Inl (RuntimeError ''crypto: bad tag size'')
     else if fst (EVP_CIPHER_CTX_new lib os) = None
     then Inl (RuntimeError ''crypto: OpenSSL error in CIPHER_CTX_new'')
     else if enc_tag ch \<noteq> T key (enc_nonce ch) (enc_ciphertext ch)
     then Inl (RuntimeError ''crypto: chunk authentication failed (tampered or corrupted data)'')
     else Inr (D key (enc_nonce ch) (enc_ciphertext ch)))"
  using DecryptChunk_outcome [OF assms, of os]
  by (simp add: crypto_sizes OpenSSLError_def auth_failed_def)

theorem DecryptChunk_outcomes_witness:
  "fst (DecryptChunk toy_cipher sample_key
     \<lparr>enc_nonce = replicate 12 0, enc_ciphertext = [1, 2], enc_tag = replicate 16 9\<rparr> 0)
   = Inl (RuntimeError ''crypto: chunk authentication failed (tampered or corrupted data)'')"
proof -
  have "replicate 16 9 \<noteq> toy_T sample_key (replicate 12 0) [1, 2]" by code_simp
  moreover have "fst (EVP_CIPHER_CTX_new toy_cipher 0) \<noteq> None" by (simp add: toy_cipher_def)
  ultimately show ?thesis
    using DecryptChunk_outcomes [OF toy_contract sample_key_ok,
        of "\<lparr>enc_nonce = replicate 12 0, enc_ciphertext = [1, 2], enc_tag = replicate 16 9\<rparr>" 0]
    by simp
qed

text \<open>
  Every outcome of \<open>EncryptChunk\<close>: the sealed chunk of the plaintext under a 12-byte nonce, or an
  exception because the generator or the allocator had nothing; no write outside a buffer, and no chunk
  under a nonce that the generator did not fill.
\<close>

theorem EncryptChunk_outcomes:
  assumes "gcm_contract lib st E D T" and "key_ok key" and "length p < 2 ^ 31"
  shows "(\<exists>iv. length iv = 12 \<and> fst (EncryptChunk lib key p os) = Inr (sealed_chunk E T key iv p) \<and>
        (\<exists>os'. RAND_bytes lib 12 os = (1, iv, os'))) \<or>
    fst (EncryptChunk lib key p os) = Inl (RuntimeError ''crypto: OpenSSL error in RAND_bytes nonce'') \<or>
    fst (EncryptChunk lib key p os) = Inl (RuntimeError ''crypto: OpenSSL error in CIPHER_CTX_new'')"
proof -
  obtain r os' where run: "EncryptChunk lib key p os = (r, os')" by fastforce
  show ?thesis
  proof (cases "\<exists>c. r = Inr c")
    case True
    then obtain rc d os1 where rb: "RAND_bytes lib 12 os = (rc, d, os1)" "rc = 1"
      using run by (auto simp: EncryptChunk_def crypto_sizes split: prod.splits sum.splits if_splits)
    have rand: "rand_law lib" using assms(1) by (simp add: gcm_contract_def)
    from rand_step(2) [OF rand rb(1)] rb(2) have d: "length d = kGcmNonceSize" by (simp add: crypto_sizes)
    obtain c os2 where c: "EVP_CIPHER_CTX_new lib os1 = (Some c, os2)"
      using True run rb d by (auto simp: EncryptChunk_def crypto_sizes elim: unique_ptr_returns)
    have "st c = CtxNew"
      using c gcm_init_steps(1) [of lib st] assms(1) by (auto simp: gcm_contract_def)
    from EncryptWithCtx_sealed [OF assms(1) this assms(2) d assms(3)]
    have "fst (EncryptChunk lib key p os) = Inr (sealed_chunk E T key d p)"
      using rb c d by (simp add: EncryptChunk_def crypto_sizes)
    with d rb show ?thesis by (auto simp: crypto_sizes)
  next
    case False
    with EncryptChunk_outcome [OF assms run] run show ?thesis by (auto simp: OpenSSLError_def)
  qed
qed

theorem EncryptChunk_outcomes_witness:
  "(\<exists>iv. length iv = 12 \<and>
     fst (EncryptChunk toy_cipher sample_key [1] 3) = Inr (sealed_chunk toy_E toy_T sample_key iv [1])) \<and>
   fst (EncryptChunk dry_cipher sample_key [1] 3) = Inl (RuntimeError ''crypto: OpenSSL error in RAND_bytes nonce'')"
proof
  have "case fst (EncryptChunk toy_cipher sample_key [1] 3) of Inl _ \<Rightarrow> False | Inr _ \<Rightarrow> True" by code_simp
  then show "\<exists>iv. length iv = 12 \<and>
      fst (EncryptChunk toy_cipher sample_key [1] 3) = Inr (sealed_chunk toy_E toy_T sample_key iv [1])"
    using EncryptChunk_outcomes [OF toy_contract sample_key_ok, of "[1]" 3] by auto
  show "fst (EncryptChunk dry_cipher sample_key [1] 3) = Inl (RuntimeError ''crypto: OpenSSL error in RAND_bytes nonce'')"
    by code_simp
qed

text \<open>
  C17: two devices that generate a key pair each and exchange the public halves derive the same session
  key, of 32 bytes, provided that the Diffie-Hellman function is defined on honest public keys.
\<close>

theorem session_keys_agree:
  assumes "kex_contract lib st priv pubk pub dh hkdf"
    and "\<forall>a b. length a = 32 \<longrightarrow> length b = 32 \<longrightarrow> dh a (pub b) \<noteq> None" and "length info \<le> 1024"
  shows "\<exists>ka kb k os1 os2. GenerateKeyPair lib os = (Inr ka, os1) \<and> GenerateKeyPair lib os1 = (Inr kb, os2) \<and>
    length k = 32 \<and>
    (\<forall>os3. fst (DeriveSessionKey lib (private_key ka) (public_key kb) info os3) = Inr k) \<and>
    (\<forall>os3. fst (DeriveSessionKey lib (private_key kb) (public_key ka) info os3) = Inr k)"
proof -
  have alg: "dh_algebra pub dh hkdf" using assms(1) by (simp add: kex_contract_def)
  obtain a os1 where a: "GenerateKeyPair lib os = (Inr \<lparr>public_key = pub a, private_key = a\<rparr>, os1)" "length a = 32"
    using GenerateKeyPair_fresh [OF assms(1)] by blast
  obtain b os2 where b: "GenerateKeyPair lib os1 = (Inr \<lparr>public_key = pub b, private_key = b\<rparr>, os2)" "length b = 32"
    using GenerateKeyPair_fresh [OF assms(1)] by blast
  have keys: "key_ok a" "key_ok b" "key_ok (pub b)"
    using alg a(2) b(2) by (simp_all add: dh_algebra_def key_ok_def crypto_sizes)
  obtain s where s: "dh a (pub b) = Some s" using assms(2) a(2) b(2) by blast
  let ?k = "hkdf [] s (map byte_of_char info)"
  have ab: "fst (DeriveSessionKey lib a (pub b) info os3) = Inr ?k" for os3
    using DeriveSessionKey_outcome [OF assms(1) keys(1,3) assms(3), of os3] s by auto
  have ba: "fst (DeriveSessionKey lib b (pub a) info os3) = Inr ?k" for os3
    using DeriveSessionKey_agrees [OF assms(1) keys(2,1) assms(3), of os3 os3] ab by simp
  have "length ?k = 32" using alg by (simp add: dh_algebra_def)
  with a(1) b(1) ab ba show ?thesis by fastforce
qed

theorem session_keys_agree_witness:
  "\<exists>ka kb k os1 os2. GenerateKeyPair toy_pkey 1 = (Inr ka, os1) \<and> GenerateKeyPair toy_pkey os1 = (Inr kb, os2) \<and>
    fst (DeriveSessionKey toy_pkey (private_key ka) (public_key kb) ''v1'' os2) = Inr k \<and>
    fst (DeriveSessionKey toy_pkey (private_key kb) (public_key ka) ''v1'' os2) = Inr k"
  using session_keys_agree [OF toy_kex_contract, of "''v1''" 1] toy_dh_honest by fastforce

text \<open>
  \<open>DeriveSessionKey\<close> computes HKDF-SHA256, with an empty salt and the given context string, of the
  X25519 secret; a peer key for which there is no secret is refused with an exception.
\<close>

theorem DeriveSessionKey_outcomes:
  assumes "kex_contract lib st priv pubk pub dh hkdf" and "key_ok a" and "key_ok p" and "length info \<le> 1024"
  shows "fst (DeriveSessionKey lib a p info os) =
    (case dh a p of
       None \<Rightarrow> Inl (RuntimeError ''crypto: OpenSSL error in derive'')
     | Some s \<Rightarrow> Inr (hkdf [] s (map byte_of_char info)))"
  using DeriveSessionKey_outcome [OF assms, of os] by (auto simp: OpenSSLError_def split: option.split)

theorem DeriveSessionKey_outcomes_witness:
  "fst (DeriveSessionKey toy_pkey sample_key (replicate 32 1) ''ab'' 0)
     = Inr (toy_hkdf [] (replicate 32 8) (map byte_of_char ''ab''))"
proof -
  have "toy_dh sample_key (replicate 32 1) = Some (replicate 32 8)" by code_simp
  moreover have "key_ok (replicate 32 (1 :: u8))" by (simp add: key_ok_def crypto_sizes)
  ultimately show ?thesis
    using DeriveSessionKey_outcomes [OF toy_kex_contract sample_key_ok, of "replicate 32 1" "''ab''" 0] by simp
qed

text \<open>
  C30: hashing a file piece by piece gives what hashing its bytes at once gives: the loop over the
  64 KiB buffer feeds every byte once and in order, and ends.
\<close>

theorem Sha256File_is_Sha256Bytes:
  assumes "digest_contract lib absorbed H" and "files fs path = Some content" and "readable fs path"
  shows "fst (Sha256File lib fs path os) = fst (Sha256Bytes lib content os2) \<and>
    fst (Sha256File lib fs path os) = Inr (H content)"
  using Sha256File_hash [OF assms, of os] Sha256Bytes_hash [OF assms(1), of content os2] by auto

theorem Sha256File_is_Sha256Bytes_witness:
  "fst (Sha256File toy_digest sample_disk ''/tmp/a.bin'' 0) = fst (Sha256Bytes toy_digest sample_content 0)"
  using Sha256File_is_Sha256Bytes [OF toy_digest_contract, of sample_disk "''/tmp/a.bin''" sample_content 0 0]
  by (simp add: sample_disk_def)

section \<open>The C interface\<close>

text \<open>
  C31: a chunk encrypted through the C interface, its three buffers passed to the decryption call, comes
  back as the plaintext with status \<open>AIRDROP_OK\<close> on both sides; the buffers have the sizes reported, and
  releasing the four of them gives all of their memory back.
\<close>

theorem c_api_round_trip:
  assumes "cipher_ready lib" and "key_ok key" and "length p < 2 ^ 31"
    and "heap_ok h" and "28 + 2 * length p \<le> heap_room h"
  shows "\<exists>os1 h1 nb cb tb n c t os2 h2 pb h3.
    airdrop_encrypt_chunk lib (Some key) (Some p) (vec_size p) (Some n0) (Some c0) (Some t0) (os, h)
      = (Inr (AIRDROP_OK, Some nb, Some cb, Some tb), (os1, h1)) \<and>
    holds h1 nb n \<and> holds h1 cb c \<and> holds h1 tb t \<and>
    airdrop_decrypt_chunk lib (Some key) (Some n) (buf_len nb) (Some c) (buf_len cb) (Some t) (buf_len tb)
        (Some p0) (os1, h1)
      = (Inr (AIRDROP_OK, Some pb), (os2, h2)) \<and>
    holds h2 pb p \<and>
    deliver_all airdrop_free_buffer [pb, nb, cb, tb] h2 = (Inr (), h3) \<and> heap_room h3 = heap_room h"
  using assms by (rule chunk_through_c_api)

definition sample_heap :: heap where
  "sample_heap = \<lparr>blocks = (\<lambda>_. None), next_block = 1, heap_room = 4096\<rparr>"

definition no_buffer :: airdrop_buffer where
  "no_buffer = \<lparr>buf_data = None, buf_len = 0\<rparr>"

theorem c_api_round_trip_witness:
  "\<exists>r s. airdrop_encrypt_chunk toy_cipher (Some sample_key) (Some [5, 6]) (vec_size [5, 6 :: u8])
      (Some no_buffer) (Some no_buffer) (Some no_buffer) (0, sample_heap) = (Inr (AIRDROP_OK, r), s)"
  using c_api_round_trip [OF toy_ready sample_key_ok, of "[5, 6]" sample_heap no_buffer no_buffer no_buffer 0 no_buffer]
  by (auto simp: sample_heap_def heap_ok_def)

text \<open>
  C32: the statuses of \<open>airdrop_decrypt_chunk\<close>: a null key or output is an invalid argument and changes
  nothing; otherwise, as long as memory suffices, an exception of \<open>DecryptChunk\<close>, for one a failed authentication, is
  \<open>AIRDROP_ERR_CRYPTO\<close> and leaves the caller's buffer and the heap alone, and a plaintext is
  \<open>AIRDROP_OK\<close> with a buffer of its length.
\<close>

theorem c_api_decrypt_statuses:
  assumes "key_ok key" and "length n < vec_limit" and "length c < vec_limit" and "length t < vec_limit"
    and "heap_ok h" and "length c \<le> heap_room h"
    and "DecryptChunk lib key \<lparr>enc_nonce = n, enc_ciphertext = c, enc_tag = t\<rparr> os = (r, os')"
    and "r = Inl (RuntimeError m) \<or> r = Inr p \<and> length p \<le> length c"
  shows "airdrop_decrypt_chunk lib None iv iv_len ct ct_len tg tg_len out s
      = (Inr (AIRDROP_ERR_INVALID_ARG, out), s) \<and>
    airdrop_decrypt_chunk lib k iv iv_len ct ct_len tg tg_len None s
      = (Inr (AIRDROP_ERR_INVALID_ARG, None), s) \<and>
    (case r of
       Inl _ \<Rightarrow>
         airdrop_decrypt_chunk lib (Some key) (Some n) (vec_size n) (Some c) (vec_size c) (Some t) (vec_size t)
           (Some p0) (os, h) = (Inr (AIRDROP_ERR_CRYPTO, Some p0), (os', h))
     | Inr p \<Rightarrow>
         (\<exists>b h'. airdrop_decrypt_chunk lib (Some key) (Some n) (vec_size n) (Some c) (vec_size c) (Some t)
           (vec_size t) (Some p0) (os, h) = (Inr (AIRDROP_OK, Some b), (os', h')) \<and> holds h' b p))"
proof (intro conjI)
  show "airdrop_decrypt_chunk lib None iv iv_len ct ct_len tg tg_len out s
      = (Inr (AIRDROP_ERR_INVALID_ARG, out), s)"
    by (cases s) (simp add: airdrop_decrypt_chunk_def)
  show "airdrop_decrypt_chunk lib k iv iv_len ct ct_len tg tg_len None s
      = (Inr (AIRDROP_ERR_INVALID_ARG, None), s)"
    by (cases s) (simp add: airdrop_decrypt_chunk_def split: option.split)
  note eq = decrypt_chunk_status [OF assms(1-4,7), of p0 h]
  from assms(8) show "case r of
       Inl _ \<Rightarrow>
         airdrop_decrypt_chunk lib (Some key) (Some n) (vec_size n) (Some c) (vec_size c) (Some t) (vec_size t)
           (Some p0) (os, h) = (Inr (AIRDROP_ERR_CRYPTO, Some p0), (os', h))
     | Inr p \<Rightarrow>
         (\<exists>b h'. airdrop_decrypt_chunk lib (Some key) (Some n) (vec_size n) (Some c) (vec_size c) (Some t)
           (vec_size t) (Some p0) (os, h) = (Inr (AIRDROP_OK, Some b), (os', h')) \<and> holds h' b p)"
  proof
    assume r: "r = Inr p \<and> length p \<le> length c"
    then have "length p \<le> heap_room h" using assms(6) by linarith
    from cbuf.make_contains [OF assms(5) this] r show ?thesis by (auto simp: eq)
  qed (simp add: eq)
qed

theorem c_api_decrypt_statuses_witness:
  "airdrop_decrypt_chunk toy_cipher (Some sample_key) (Some [0]) (vec_size [0 :: u8]) (Some [1]) (vec_size [1 :: u8])
     (Some [2]) (vec_size [2 :: u8]) (Some no_buffer) (0, sample_heap)
   = (Inr (AIRDROP_ERR_CRYPTO, Some no_buffer), (0, sample_heap))"
proof -
  have "DecryptChunk toy_cipher sample_key \<lparr>enc_nonce = [0], enc_ciphertext = [1], enc_tag = [2]\<rparr> 0
      = (Inl (RuntimeError ''crypto: bad nonce size''), 0)"
    by code_simp
  from c_api_decrypt_statuses [OF sample_key_ok _ _ _ _ _ this, of sample_heap _ undefined] show ?thesis
    by (simp add: vec_limit_def sample_heap_def heap_ok_def)
qed

text \<open>
  C33: when memory for a result buffer cannot be had, the encryption call still reports success: the
  ciphertext buffer has a null pointer and the length of the ciphertext.
\<close>

theorem c_api_success_without_memory:
  assumes "cipher_ready lib" and "key_ok key" and "length p < 2 ^ 31"
    and "heap_ok h" and "heap_room h = 28" and "28 < length p"
  shows "\<exists>nb tb s. airdrop_encrypt_chunk lib (Some key) (Some p) (vec_size p) (Some n0) (Some c0) (Some t0) (os, h)
    = (Inr (AIRDROP_OK, Some nb, Some \<lparr>buf_data = None, buf_len = vec_size p\<rparr>, Some tb), s)"
proof -
  obtain e os' where e: "EncryptChunk lib key p os = (Inr e, os')"
      "length (enc_nonce e) = 12" "length (enc_ciphertext e) = length p" "length (enc_tag e) = 16"
    using gcm.enc_dec [OF assms(1-3)] by blast
  have "length p < vec_limit" using assms(3) by (simp add: vec_limit_def)
  moreover have "vec_size (enc_ciphertext e) = vec_size p" using e(3) by (simp add: vec_size_def)
  ultimately show ?thesis
    using e assms(5,6)
    by (simp add: airdrop_encrypt_chunk_def mem_read_key [OF assms(2)] vec_from_all MakeBuffer_eq prog_bind_def)
qed

theorem c_api_success_without_memory_witness:
  "\<exists>nb tb s. airdrop_encrypt_chunk toy_cipher (Some sample_key) (Some (replicate 40 1)) (vec_size (replicate 40 (1 :: u8)))
      (Some no_buffer) (Some no_buffer) (Some no_buffer) (0, sample_heap\<lparr>heap_room := 28\<rparr>)
    = (Inr (AIRDROP_OK, Some nb, Some \<lparr>buf_data = None, buf_len = vec_size (replicate 40 (1 :: u8))\<rparr>, Some tb), s)"
  by (rule c_api_success_without_memory [OF toy_ready sample_key_ok])
     (simp_all add: sample_heap_def heap_ok_def)

text \<open>
  Through the C interface: two callers generate a key pair each into buffers of at least 32 bytes,
  and deriving with their own private and the other's public bytes writes the same session key into both
  output buffers; the bytes behind the first 32 of every output buffer stay as they were.
\<close>

theorem c_api_keys_agree:
  assumes con: "kex_contract lib st priv pubk pub dh hkdf"
    and honest: "\<forall>a b. length a = 32 \<longrightarrow> length b = 32 \<longrightarrow> dh a (pub b) \<noteq> None"
    and len: "length x1 = 32" "length x2 = 32" "length y1 = 32" "length y2 = 32"
    and info: "length info \<le> 1024" "0 \<notin> set info" and z: "length z1 = 32" "length z2 = 32"
  shows "\<exists>pa a pb b k os1 os2 os3 os4.
    airdrop_generate_keypair lib (Some (x1 @ q1)) (Some (x2 @ q2)) os
      = (Inr (AIRDROP_OK, Some (pa @ q1), Some (a @ q2)), os1) \<and>
    airdrop_generate_keypair lib (Some (y1 @ q3)) (Some (y2 @ q4)) os1
      = (Inr (AIRDROP_OK, Some (pb @ q3), Some (b @ q4)), os2) \<and>
    airdrop_derive_session_key lib (Some (a @ q2)) (Some (pb @ q3)) (Some (info @ [0])) (Some (z1 @ q5)) os2
      = (Inr (AIRDROP_OK, Some (k @ q5)), os3) \<and>
    airdrop_derive_session_key lib (Some (b @ q4)) (Some (pa @ q1)) (Some (info @ [0])) (Some (z2 @ q6)) os3
      = (Inr (AIRDROP_OK, Some (k @ q6)), os4)"
proof -
  have alg: "dh_algebra pub dh hkdf" using con by (simp add: kex_contract_def)
  obtain a os1 where a: "GenerateKeyPair lib os = (Inr \<lparr>public_key = pub a, private_key = a\<rparr>, os1)"
      "length a = 32" "length (pub a) = 32"
    using GenerateKeyPair_fresh [OF con] by blast
  obtain b os2 where b: "GenerateKeyPair lib os1 = (Inr \<lparr>public_key = pub b, private_key = b\<rparr>, os2)"
      "length b = 32" "length (pub b) = 32"
    using GenerateKeyPair_fresh [OF con] by blast
  have keys: "key_ok a" "key_ok b" "key_ok (pub a)" "key_ok (pub b)"
    using a b by (simp_all add: key_ok_def crypto_sizes)
  obtain s where s: "dh a (pub b) = Some s" using honest a(2) b(2) by blast
  with alg a(2) b(2) have s': "dh b (pub a) = Some s" by (simp add: dh_algebra_def)
  let ?i = "map char_of_byte info"
  let ?k = "hkdf [] s info"
  have i: "length ?i \<le> 1024" using info(1) by simp
  obtain os3 where d1: "DeriveSessionKey lib a (pub b) ?i os2 = (Inr ?k, os3)"
    using DeriveSessionKey_outcome [OF con keys(1,4) i, of os2] s by (auto simp: comp_def)
  obtain os4 where d2: "DeriveSessionKey lib b (pub a) ?i os3 = (Inr ?k, os4)"
    using DeriveSessionKey_outcome [OF con keys(2,3) i, of os3] s' by (auto simp: comp_def)
  have k: "length ?k = 32" using alg by (simp add: dh_algebra_def)
  have tw: "takeWhile (\<lambda>b. b \<noteq> 0) (info @ [0]) = info"
    using info(2) by (induction info) auto
  have "airdrop_generate_keypair lib (Some (x1 @ q1)) (Some (x2 @ q2)) os
      = (Inr (AIRDROP_OK, Some (pub a @ q1), Some (a @ q2)), os1)"
    using a len by (simp add: airdrop_generate_keypair_def c_memory)
  moreover have "airdrop_generate_keypair lib (Some (y1 @ q3)) (Some (y2 @ q4)) os1
      = (Inr (AIRDROP_OK, Some (pub b @ q3), Some (b @ q4)), os2)"
    using b len by (simp add: airdrop_generate_keypair_def c_memory)
  moreover have "airdrop_derive_session_key lib (Some (a @ q2)) (Some (pub b @ q3)) (Some (info @ [0])) (Some (z1 @ q5)) os2
      = (Inr (AIRDROP_OK, Some (?k @ q5)), os3)"
    using a b z d1 k tw
    by (simp add: airdrop_derive_session_key_def c_memory crypto_sizes)
  moreover have "airdrop_derive_session_key lib (Some (b @ q4)) (Some (pub a @ q1)) (Some (info @ [0])) (Some (z2 @ q6)) os3
      = (Inr (AIRDROP_OK, Some (?k @ q6)), os4)"
    using a b z d2 k tw
    by (simp add: airdrop_derive_session_key_def c_memory crypto_sizes)
  ultimately show ?thesis by blast
qed

theorem c_api_keys_agree_witness:
  "\<exists>pa a s. airdrop_generate_keypair toy_pkey (Some (replicate 32 0)) (Some (replicate 32 0)) 1
     = (Inr (AIRDROP_OK, Some pa, Some a), s)"
  using c_api_keys_agree [OF toy_kex_contract, of "replicate 32 0" "replicate 32 0" "replicate 32 0" "replicate 32 0"
      "[97]" "replicate 32 0" "replicate 32 0" "[]" "[]" 1 "[]" "[]" "[]" "[]"] toy_dh_honest
  by auto

text \<open>
  \<open>airdrop_sha256_file\<close>: for a readable file, \<open>AIRDROP_OK\<close> and the hash of its content in the first
  32 bytes of the output; for a file that cannot be opened, \<open>AIRDROP_ERR_IO\<close> and the output untouched; for
  a null argument, \<open>AIRDROP_ERR_INVALID_ARG\<close>.
\<close>

theorem c_api_sha256_file:
  assumes "digest_contract lib absorbed H" and "0 \<notin> set path" and "length out = 32"
  shows "fst (airdrop_sha256_file lib fs (Some (path @ [0])) (Some (out @ rest)) os) =
    (case files fs (map char_of_byte path) of
       Some content \<Rightarrow>
         if readable fs (map char_of_byte path) then Inr (AIRDROP_OK, Some (H content @ rest))
         else Inr (AIRDROP_ERR_IO, Some (out @ rest))
     | None \<Rightarrow> Inr (AIRDROP_ERR_IO, Some (out @ rest))) \<and>
    fst (airdrop_sha256_file lib fs None out' os) = Inr (AIRDROP_ERR_INVALID_ARG, out')"
proof -
  let ?name = "map char_of_byte path"
  have tw: "takeWhile (\<lambda>b. b \<noteq> 0) (path @ [0]) = path"
    using assms(2) by (induction path) auto
  have len: "length (H m) = 32" for m
    using digest_steps(1) [OF assms(1)] by (simp add: SHA256_DIGEST_LENGTH_def)
  show ?thesis
  proof (cases "files fs ?name = None \<or> \<not> readable fs ?name")
    case True
    with Sha256File_missing [of fs ?name lib os] show ?thesis
      by (auto simp: airdrop_sha256_file_def tw c_memory split: option.split)
  next
    case False
    then obtain content where c: "files fs ?name = Some content" "readable fs ?name" by auto
    obtain os' where "Sha256File lib fs ?name os = (Inr (H content), os')"
      using Sha256File_hash [OF assms(1) c] by blast
    then show ?thesis
      using c len assms(3) by (simp add: airdrop_sha256_file_def tw c_memory)
  qed
qed

theorem c_api_sha256_file_witness:
  "fst (airdrop_sha256_file toy_digest sample_disk (Some (map byte_of_char ''/x'' @ [0])) (Some (replicate 32 0)) 0)
     = Inr (AIRDROP_ERR_IO, Some (replicate 32 0))"
proof -
  have "0 \<notin> set (map byte_of_char ''/x'')" by code_simp
  moreover have "files sample_disk (map char_of_byte (map byte_of_char ''/x'')) = None"
    unfolding map_char_of_byte by (simp add: sample_disk_def)
  ultimately show ?thesis
    using c_api_sha256_file [OF toy_digest_contract, of "map byte_of_char ''/x''" "replicate 32 0" sample_disk "[]" 0 None]
    by (simp del: map_map list.map)
qed

section \<open>Handles\<close>

text \<open>
  C18: no handle of OpenSSL outlives the routine that allocated it. Key generation, key agreement,
  encryption, decryption and hashing leave as many keys and contexts alive as they found, whatever the
  calls return and whether the routine returns or throws; so does a whole transfer over the connected
  transports, from the offer to the integrity check, on any file and with any keys.
\<close>

theorem handles_are_released:
  assumes "pkey_counts live plib" and "cipher_counts live lib" and "digest_counts live dlib"
  shows "live (snd (GenerateKeyPair plib os)) = live os \<and>
    live (snd (DeriveSessionKey plib my_private peer_public info os)) = live os \<and>
    live (snd (EncryptChunk lib key plaintext os)) = live os \<and>
    live (snd (DecryptChunk lib key ch os)) = live os \<and>
    live (snd (Sha256File dlib fs path os)) = live os \<and>
    live (openssl (snd (PrepareFileOffer dlib src w))) = live (openssl w) \<and>
    live (openssl (snd (transfer lib key_a key_b src dst offer w))) = live (openssl w) \<and>
    live (openssl (snd (VerifyIntegrity dlib receiver w))) = live (openssl w)"
  using GenerateKeyPair_balanced [OF assms(1)] DeriveSessionKey_balanced [OF assms(1)]
    EncryptChunk_balanced [OF assms(2)] DecryptChunk_balanced [OF assms(2)] Sha256File_balanced [OF assms(3)]
    PrepareFileOffer_balanced [OF assms(3)] transfer_balanced [OF assms(2)] VerifyIntegrity_balanced [OF assms(3)]
  by (simp add: balanced_def world_live_def)

text \<open>
  The sample libraries with their state as the number of live handles. The key library is out of memory
  when two handles are alive, so that the third allocation of \<open>DeriveSessionKey\<close> fails.
\<close>

definition ledger_pkey :: "(nat, bytes \<times> bytes, pkey_phase) pkey_lib" where
  "ledger_pkey = toy_pkey\<lparr>
     EVP_PKEY_CTX_new_id := \<lambda>i n. (Some (case i of EVP_PKEY_X25519 \<Rightarrow> KeygenNew | EVP_PKEY_HKDF \<Rightarrow> HkdfNew), Suc n),
     EVP_PKEY_CTX_new := \<lambda>k n. if n < 2 then (Some (DeriveNew (fst k)), Suc n) else (None, n),
     EVP_PKEY_new_raw_private_key := \<lambda>i a n. (Some (a, toy_pub a), Suc n),
     EVP_PKEY_new_raw_public_key := \<lambda>i p n. (Some ([], p), Suc n),
     EVP_PKEY_CTX_free := \<lambda>c n. n - 1, EVP_PKEY_free := \<lambda>k n. n - 1\<rparr>"

definition ledger_cipher :: "(nat, gcm_phase) cipher_lib" where
  "ledger_cipher = toy_cipher\<lparr>RAND_bytes := \<lambda>k n. (1, replicate (nat k) 5, n),
     EVP_CIPHER_CTX_new := \<lambda>n. (Some CtxNew, Suc n), EVP_CIPHER_CTX_free := \<lambda>c n. n - 1\<rparr>"

definition ledger_digest :: "(nat, bytes option) digest_lib" where
  "ledger_digest = toy_digest\<lparr>EVP_MD_CTX_new := \<lambda>n. (Some None, Suc n), EVP_MD_CTX_free := \<lambda>c n. n - 1\<rparr>"

theorem handles_are_released_witness:
  "DeriveSessionKey ledger_pkey sample_key sample_key ''x'' 0 = (Inl (OpenSSLError ''CTX_new(derive)''), 0) \<and>
   snd (GenerateKeyPair ledger_pkey 0) = 0 \<and>
   (\<forall>offer. openssl (snd (transfer ledger_cipher sample_key sample_key ''/tmp/a.bin'' ''/tmp/b.bin'' offer sample_world)) = 0)"
proof -
  have counts: "pkey_counts (\<lambda>n. n) ledger_pkey" "cipher_counts (\<lambda>n. n) ledger_cipher"
      "digest_counts (\<lambda>n. n) ledger_digest"
    by (auto simp: pkey_counts_def cipher_counts_def digest_counts_def counts_handle_def ledger_pkey_def
        ledger_cipher_def ledger_digest_def toy_pkey_def toy_digest_def)
  have "fst (DeriveSessionKey ledger_pkey sample_key sample_key ''x'' 0) = Inl (OpenSSLError ''CTX_new(derive)'')"
    by (simp add: DeriveSessionKey_def ledger_pkey_def)
  then show ?thesis
    using handles_are_released [OF counts, where os = 0 and w = sample_world]
    by (simp add: prod_eq_iff sample_world_def)
qed

end
