(* ===== verification/Hostile.thy ===== *)
theory Hostile
  imports EndToEnd
begin

text \<open>
  The receiving end on a network that cannot be trusted. Whatever blocks arrive, the callback of
  \<open>test_chunking_e2e.cpp\<close> throws or hands one chunk to the receiver. When no block carries a chunk that the
  sender did not seal, the output file is made of bytes of the sent file, each at its offset in a chunk:
  the \<open>patchwork\<close> that replayed and relabelled chunks can produce, and nothing else.
\<close>

section \<open>What a block carries\<close>

text \<open>The chunk that the callback finds in a block, if any.\<close>

definition carried :: "bytes \<Rightarrow> ChunkPayload option" where
  "carried raw =
     (case ParseHeader raw of
        Inl e \<Rightarrow> None
      | Inr hdr \<Rightarrow>
          if msg_type hdr \<noteq> kChunk then None
          else (case DecodeChunk (drop kHeaderSize raw) of Inl e \<Rightarrow> None | Inr c \<Rightarrow> Some c))"

lemma bob_on_data_carried:
  assumes "length raw < vec_limit"
  shows "case carried raw of
      None \<Rightarrow> \<exists>e. bob_on_data lib key p raw s = (Inl e, s)
    | Some c \<Rightarrow> bob_on_data lib key p raw s = ReceiveChunk lib key c s"
proof (cases "ParseHeader raw")
  case (Inl e)
  then show ?thesis by (simp add: carried_def bob_on_data_def)
next
  case (Inr hdr)
  have "kHeaderSize \<le> length raw"
    using Inr ParseHeader_cases [of raw] by (auto split: if_splits)
  then have range: "vec_range raw (of_nat kHeaderSize) (vec_size raw) = Inr (drop kHeaderSize raw)"
    using assms by (rule vec_range_rest)
  show ?thesis
    using Inr range
    by (auto simp: carried_def bob_on_data_def prog_bind_def ASSERT_TRUE_def split: sum.split)
qed

lemma carried_framed: "chunk_ok c \<Longrightarrow> carried (FrameMessage kChunk (EncodeChunk c)) = Some c"
  using chunk.roundtrip [of c "[]"] encodings_fit(3) [of c]
  by (simp add: carried_def ParseHeader_FrameMessage)

section \<open>Chunks that are not forged\<close>

text \<open>
  A network can repeat, reorder, drop, cut, damage and relabel what it carries. What it cannot do without the
  key is to make up a chunk that opens: each chunk has the nonce, the ciphertext and the tag of one that was
  sent, under any index, or it fails to decrypt.
\<close>

definition opens_never :: "('o, 'c) cipher_lib \<Rightarrow> KeyBytes \<Rightarrow> ChunkPayload \<Rightarrow> bool" where
  "opens_never lib key c \<longleftrightarrow>
     (\<forall>os. \<exists>e. fst (DecryptChunk lib key
        \<lparr>enc_nonce = nonce c, enc_ciphertext = ciphertext c, enc_tag = tag c\<rparr> os) = Inl e)"

definition replays :: "ChunkPayload list \<Rightarrow> ChunkPayload \<Rightarrow> bool" where
  "replays sent c \<longleftrightarrow>
     (\<exists>s \<in> set sent. nonce c = nonce s \<and> ciphertext c = ciphertext s \<and> tag c = tag s)"

definition unforged :: "('o, 'c) cipher_lib \<Rightarrow> KeyBytes \<Rightarrow> ChunkPayload list \<Rightarrow> bytes \<Rightarrow> bool" where
  "unforged lib key sent raw \<longleftrightarrow>
     length raw < vec_limit \<and>
     (\<forall>c. carried raw = Some c \<longrightarrow> replays sent c \<or> opens_never lib key c)"

lemma replays_opens:
  assumes "list_all2 (chunk_of lib key content) [0..<num_chunks content] sent" and "replays sent c"
  obtains i where "i < num_chunks content" and "chunk_opens lib key c (block content i)"
proof -
  obtain s where s: "s \<in> set sent" "nonce c = nonce s" "ciphertext c = ciphertext s" "tag c = tag s"
    using assms(2) by (auto simp: replays_def)
  then obtain i where "chunk_of lib key content i s"
    using assms(1) by (metis in_set_conv_nth list_all2_nthD2)
  with s show thesis by (intro that [of i]) (simp_all add: chunk_of_def chunk_opens_def)
qed

section \<open>The patchwork\<close>

definition patchwork :: "bytes \<Rightarrow> bytes \<Rightarrow> bool" where
  "patchwork content f \<longleftrightarrow>
     length content \<le> length f \<and> length f \<le> num_chunks content * chunk_bytes \<and>
     (\<forall>j < length f. f ! j = 0 \<or>
       (\<exists>i < num_chunks content. j mod chunk_bytes < length (block content i) \<and>
          f ! j = block content i ! (j mod chunk_bytes)))"

lemma patchwork_start: "patchwork content (replicate (length content) 0)"
proof -
  have "length content \<le> num_chunks content * chunk_bytes" unfolding num_chunks_def by linarith
  then show ?thesis by (simp add: patchwork_def)
qed

lemma write_at_cut: "write_at limit off d f = write_at limit off (take (limit - off) d) f"
  by (simp add: write_at_def)

lemma patchwork_write:
  assumes f: "patchwork content f" and "k < num_chunks content" and i: "i < num_chunks content"
  shows "patchwork content (write_at limit (k * chunk_bytes) (block content i) f)"
proof (cases "k * chunk_bytes < limit")
  case False
  with f show ?thesis by (simp add: write_at_beyond)
next
  case True
  let ?off = "k * chunk_bytes" and ?d = "take (limit - k * chunk_bytes) (block content i)"
  let ?g = "write_at limit ?off ?d f"
  have "?off < length content" using assms(2) by (simp add: less_num_chunks)
  then have fits: "?off + length ?d \<le> limit" "?off \<le> length f"
    using True f by (auto simp: patchwork_def)
  have d: "length ?d \<le> length (block content i)" "length ?d \<le> chunk_bytes" by (auto simp: length_block)
  have len: "length ?g = max (length f) (?off + length ?d)" by (rule length_write_at [OF fits])
  have "?off + chunk_bytes \<le> num_chunks content * chunk_bytes"
    using assms(2) by (metis add.commute mult_Suc mult_le_mono1 Suc_leI)
  then have "?off + length ?d \<le> num_chunks content * chunk_bytes" using d(2) by linarith
  with len f have "length content \<le> length ?g" "length ?g \<le> num_chunks content * chunk_bytes"
    by (auto simp: patchwork_def)
  moreover have "?g ! j = 0 \<or>
      (\<exists>i < num_chunks content. j mod chunk_bytes < length (block content i) \<and>
         ?g ! j = block content i ! (j mod chunk_bytes))" if j: "j < length ?g" for j
  proof (cases "?off \<le> j \<and> j < ?off + length ?d")
    case here: True
    then obtain m where m: "j = ?off + m" "m < length ?d" by (metis add_less_cancel_left le_Suc_ex)
    have "?g ! j = block content i ! m" using nth_write_at [OF fits, of j] here j len m by simp
    moreover have "m < chunk_bytes" using m(2) d(2) by (rule less_le_trans)
    then have "j mod chunk_bytes = m" using m(1) by simp
    ultimately show ?thesis using m(2) d(1) i by (intro disjI2 exI [of _ i]) simp
  next
    case there: False
    have "j < length f" using there fits(2) j len by linarith
    moreover have "j < max (length f) (?off + length ?d)" using j by (simp only: len)
    then have "?g ! j = f ! j" using nth_write_at [OF fits, of j] there by (simp only: if_False)
    ultimately show ?thesis using f by (simp add: patchwork_def)
  qed
  ultimately show ?thesis using write_at_cut [of limit ?off "block content i" f] by (simp add: patchwork_def)
qed

section \<open>The receiver under attack\<close>

definition attacked ::
    "bytes \<Rightarrow> string \<Rightarrow> bytes \<Rightarrow> filesystem \<Rightarrow> 'o world \<times> FileReceiver \<Rightarrow> bool" where
  "attacked content path hash d0 s \<longleftrightarrow>
     (let (w, r) = s in
      receiver_ok r \<and> output_path r = path \<and> expected_sha256 r = hash \<and>
      unat (chunk_total r) = num_chunks content \<and> readable d0 path \<and> writable d0 path \<and>
      (\<exists>f. patchwork content f \<and> disk w = d0\<lparr>files := (files d0)(path \<mapsto> f)\<rparr>))"

lemma attacked_start: "assembling content path hash d0 {} s \<Longrightarrow> attacked content path hash d0 s"
  using patchwork_start [of content] by (auto simp: attacked_def assembling_def filled_none)

lemma opens_never_refused:
  assumes "receiver_ok r" and "opens_never lib key c"
  shows "fst (ReceiveChunk lib key c (w, r)) \<noteq> Inr ()"
proof (cases "DecryptChunk lib key \<lparr>enc_nonce = nonce c, enc_ciphertext = ciphertext c, enc_tag = tag c\<rparr> (openssl w)")
  case (Pair res os)
  with assms(2) obtain e where "res = Inl e" unfolding opens_never_def by (metis fst_conv)
  with Pair show ?thesis by (simp add: ReceiveChunk_cases [OF assms(1)])
qed

lemma ReceiveChunk_attacked:
  assumes sent: "list_all2 (chunk_of lib key content) [0..<num_chunks content] sent"
    and st: "attacked content path hash d0 (w, r)" and c: "replays sent c \<or> opens_never lib key c"
  shows "attacked content path hash d0 (snd (ReceiveChunk lib key c (w, r)))"
proof -
  have ok: "receiver_ok r" and total: "unat (chunk_total r) = num_chunks content"
    using st by (simp_all add: attacked_def)
  obtain f where f: "patchwork content f" "disk w = d0\<lparr>files := (files d0)(path \<mapsto> f)\<rparr>"
    using st by (auto simp: attacked_def)
  show ?thesis
  proof (cases "ReceiveChunk lib key c (w, r)")
    case (fields res w' r')
    show ?thesis
    proof (rule ReceiveChunk_elim [OF ok fields])
      fix e assume "r' = r" and "disk w' = disk w"
      with fields st show ?thesis by (simp add: attacked_def)
    next
      assume acc: "res = Inr ()" and idx: "unat (chunk_index c) < unat (chunk_total r)"
      have lt: "chunk_index c < chunk_total r" using idx by (simp add: word_less_nat_alt)
      have "\<not> opens_never lib key c" using opens_never_refused [OF ok, of lib key c w] acc fields by auto
      with c obtain i where i: "i < num_chunks content" "chunk_opens lib key c (block content i)"
        using replays_opens [OF sent] by blast
      have "files (disk w) (output_path r) = Some f" "readable (disk w) (output_path r)" "writable (disk w) (output_path r)"
        using st f(2) by (simp_all add: attacked_def)
      from ReceiveChunk_writes [OF ok lt i(2) this] obtain os where
        "ReceiveChunk lib key c (w, r) = (Inr (), (w\<lparr>openssl := os, disk := (disk w)\<lparr>files := (files (disk w))(output_path r \<mapsto>
           write_at (file_limit (disk w)) (unat (chunk_index c) * chunk_bytes) (block content i) f)\<rparr>\<rparr>,
         mark_received (unat (chunk_index c)) r))"
        by blast
      moreover have "patchwork content (write_at (file_limit (disk w)) (unat (chunk_index c) * chunk_bytes) (block content i) f)"
        using idx total by (intro patchwork_write [OF f(1) _ i(1)]) simp
      ultimately show ?thesis
        using st mark_received_ok [OF ok idx] total f(2) by (fastforce simp: attacked_def)
    qed
  qed
qed

lemma bob_on_data_attacked:
  assumes "list_all2 (chunk_of lib key content) [0..<num_chunks content] sent"
    and "attacked content path hash d0 s" and "unforged lib key sent raw"
  shows "attacked content path hash d0 (snd (bob_on_data lib key p raw s))"
proof (cases "carried raw")
  case None
  with assms bob_on_data_carried [of raw lib key p s] show ?thesis by (auto simp: unforged_def)
next
  case (Some c)
  with assms(3) bob_on_data_carried [of raw lib key p s]
  have "bob_on_data lib key p raw s = ReceiveChunk lib key c s" and "replays sent c \<or> opens_never lib key c"
    by (simp_all add: unforged_def)
  with ReceiveChunk_attacked [OF assms(1), of path hash d0 "fst s" "snd s" c] assms(2) show ?thesis by simp
qed

lemma traffic_attacked:
  assumes "list_all2 (chunk_of lib key content) [0..<num_chunks content] sent"
    and "\<forall>raw \<in> set traffic. unforged lib key sent raw"
    and "attacked content path hash d0 s"
    and "attempt_all (bob_on_data lib key p) traffic s = (outcomes, s')"
  shows "attacked content path hash d0 s'"
  using assms(2-4)
proof (induction traffic arbitrary: s outcomes)
  case (Cons raw traffic)
  have "attacked content path hash d0 (snd (bob_on_data lib key p raw s))"
    using bob_on_data_attacked [OF assms(1) Cons.prems(2)] Cons.prems(1) by simp
  with Cons.IH Cons.prems(1,3) show ?case by (auto simp: Let_def split: prod.splits)
qed simp

text \<open>What the integrity check makes of the patchwork.\<close>

lemma attacked_verified:
  assumes "attacked content path hash d0 (w, r)" and "digest_ready dlib H"
  obtains f where "files (disk w) = (files d0)(path \<mapsto> f)" and "patchwork content f"
    and "fst (VerifyIntegrity dlib r w) = Inr (H f = hash)"
proof -
  obtain f where f: "patchwork content f" "disk w = d0\<lparr>files := (files d0)(path \<mapsto> f)\<rparr>"
      "output_path r = path" "expected_sha256 r = hash" "readable d0 path"
    using assms(1) by (auto simp: attacked_def)
  with VerifyIntegrity_hash [OF assms(2), of w r f] show thesis by (intro that [of f]) simp_all
qed

text \<open>A receiver made from the offer for a file starts in that state.\<close>

lemma receiver_attacked:
  assumes dig: "digest_ready dlib H" and lib: "cipher_ready lib" "key_ok key"
    and ok: "transferable (disk w) src dst content"
    and offer: "PrepareFileOffer dlib src w = (Inr offer, w1)"
    and sent: "collect_chunks lib key src w1 = (Inr sent, w2)"
    and new: "FileReceiver_new dst (file_size offer) (total_chunks offer) (sha256 offer) w2 = (Inr r, w3)"
  shows "attacked content dst (H content) (disk w) (w3, r)"
    and "list_all2 (chunk_of lib key content) [0..<num_chunks content] sent"
proof -
  obtain os where w1: "w1 = w\<lparr>openssl := os\<rparr>" "offers offer content (H content)"
      "transferable (disk w1) src dst content"
    using transferable_offer [OF dig ok] offer by (metis Pair_inject sum.inject(2))
  obtain os' where w2: "w2 = w1\<lparr>openssl := os'\<rparr>"
    and "list_all2 (chunk_of lib key content) [0..<num_chunks content] sent"
    using collect_chunks_all [OF lib w1(3)] sent by (metis Pair_inject sum.inject(2))
  then show "list_all2 (chunk_of lib key content) [0..<num_chunks content] sent" by simp
  have "transferable (disk w2) src dst content" using ok w1(1) w2 by simp
  then have "\<exists>w' r'. FileReceiver_new dst (file_size offer) (total_chunks offer) (sha256 offer) w2 = (Inr r', w') \<and>
      assembling content dst (H content) (disk w2) {} (w', r')"
    using FileReceiver_new_starts [of w2 dst content "H content"] transferable_length w1(2)
    by (auto simp: transferable_def offers_def)
  with new w1(1) w2 attacked_start show "attacked content dst (H content) (disk w) (w3, r)" by fastforce
qed

end
