(* ===== verification/Receiver_Spec.thy ===== *)
theory Receiver_Spec
  imports Receiver
begin

text \<open>
  What a receiver promises, without files, masks and counters: a table of slots, one for each block of a
  file of the announced size, that keeps the last block accepted for every slot. \<open>FileReceiver\<close>
  implements it; the output file is the table written out, empty slots as zero bytes.
\<close>

section \<open>The table of slots\<close>

type_synonym slots = "nat \<rightharpoonup> bytes"

definition slot_total :: "nat \<Rightarrow> nat" where
  "slot_total n = (n + chunk_bytes - 1) div chunk_bytes"

definition slot_length :: "nat \<Rightarrow> nat \<Rightarrow> nat" where
  "slot_length n i = min chunk_bytes (n - i * chunk_bytes)"

text \<open>
  One message: an index, and what the decryption made of the block, bytes or an exception. A message for no
  slot and one that does not open are refused.
\<close>

definition slot_store :: "nat \<Rightarrow> nat \<Rightarrow> bytes result \<Rightarrow> (slots, unit) prog" where
  "slot_store n i opened m =
     (if slot_total n \<le> i then (Inl (RuntimeError ''chunking: chunk_index out of range''), m)
      else case opened of Inl e \<Rightarrow> (Inl e, m) | Inr p \<Rightarrow> (Inr (), m(i \<mapsto> p)))"

definition slots_complete :: "nat \<Rightarrow> slots \<Rightarrow> bool" where
  "slots_complete n m \<longleftrightarrow> (\<forall>i < slot_total n. m i \<noteq> None)"

definition render :: "nat \<Rightarrow> slots \<Rightarrow> bytes" where
  "render n m =
     map (\<lambda>j. case m (j div chunk_bytes) of None \<Rightarrow> 0 | Some p \<Rightarrow> p ! (j mod chunk_bytes)) [0..<n]"

section \<open>Writing a slot\<close>

lemma length_render [simp]: "length (render n m) = n"
  by (simp add: render_def)

lemma nth_render: "j < n \<Longrightarrow> render n m ! j =
    (case m (j div chunk_bytes) of None \<Rightarrow> 0 | Some p \<Rightarrow> p ! (j mod chunk_bytes))"
  by (simp add: render_def split: option.split)

lemma render_empty: "render n Map.empty = replicate n 0"
  by (simp add: render_def map_replicate_trivial)

lemma slot_start: "i < slot_total n \<Longrightarrow> i * chunk_bytes < n"
  unfolding slot_total_def by linarith

lemma slot_of: "j < n \<Longrightarrow> j div chunk_bytes = i \<longleftrightarrow> i * chunk_bytes \<le> j \<and> j < i * chunk_bytes + slot_length n i"
  unfolding slot_length_def by linarith

lemma write_slot:
  assumes "i < slot_total n" and "length p = slot_length n i" and "n \<le> limit"
  shows "write_at limit (i * chunk_bytes) p (render n m) = render n (m(i \<mapsto> p))"
proof -
  let ?off = "i * chunk_bytes"
  have off: "?off < n" by (rule slot_start [OF assms(1)])
  have len: "?off + length p \<le> n" using off by (simp add: assms(2) slot_length_def)
  have fits: "?off + length p \<le> limit" "?off \<le> length (render n m)"
    using len off assms(3) by simp_all
  show ?thesis
  proof (rule nth_equalityI)
    show "length (write_at limit ?off p (render n m)) = length (render n (m(i \<mapsto> p)))"
      using length_write_at [OF fits] len by simp
    fix j assume "j < length (write_at limit ?off p (render n m))"
    then have j: "j < n" using length_write_at [OF fits] len by simp
    have mod: "j - ?off = j mod chunk_bytes" if "j div chunk_bytes = i"
      using that by (simp add: minus_div_mult_eq_mod [symmetric])
    show "write_at limit ?off p (render n m) ! j = render n (m(i \<mapsto> p)) ! j"
      using nth_write_at [OF fits, of j] j slot_of [OF j, of i] mod len
      by (auto simp: nth_render assms(2))
  qed
qed

section \<open>The receiver implements the table\<close>

text \<open>
  \<open>represents n path d0 s m\<close>: the receiver writes to \<open>path\<close>, its mask is the domain of the table, and the file
  system is \<open>d0\<close> with the table written out at \<open>path\<close>.
\<close>

definition represents ::
    "nat \<Rightarrow> string \<Rightarrow> filesystem \<Rightarrow> 'o world \<times> FileReceiver \<Rightarrow> slots \<Rightarrow> bool" where
  "represents n path d0 s m \<longleftrightarrow>
     (let (w, r) = s in
      receiver_ok r \<and> output_path r = path \<and> unat (chunk_total r) = slot_total n \<and>
      dom m \<subseteq> {..<slot_total n} \<and> (\<forall>i < slot_total n. received_mask r ! i \<longleftrightarrow> i \<in> dom m) \<and>
      readable d0 path \<and> writable d0 path \<and> n \<le> file_limit d0 \<and>
      disk w = d0\<lparr>files := (files d0)(path \<mapsto> render n m)\<rparr>)"

lemma represents_complete:
  assumes "represents n path d0 (w, r) m"
  shows "IsComplete r \<longleftrightarrow> slots_complete n m"
proof -
  have "receiver_ok r" and "unat (chunk_total r) = slot_total n"
    and "\<forall>i < slot_total n. received_mask r ! i \<longleftrightarrow> i \<in> dom m"
    using assms by (simp_all add: represents_def)
  then show ?thesis using IsComplete_iff [of r] by (auto simp: slots_complete_def)
qed

lemma represents_openssl:
  "represents n path d0 (w\<lparr>openssl := os\<rparr>, r) m \<longleftrightarrow> represents n path d0 (w, r) m"
  by (simp add: represents_def)

text \<open>What the decryption makes of a chunk; it does not depend on the state of a library that is ready.\<close>

definition opened_as :: "('o, 'c) cipher_lib \<Rightarrow> KeyBytes \<Rightarrow> 'o \<Rightarrow> ChunkPayload \<Rightarrow> bytes result" where
  "opened_as lib key os c =
     fst (DecryptChunk lib key
       \<lparr>enc_nonce = nonce c, enc_ciphertext = ciphertext c, enc_tag = tag c\<rparr> os)"

lemma opened_as_fixed:
  assumes "cipher_ready lib" and "key_ok key" and "length (ciphertext c) < 2 ^ 31"
  shows "opened_as lib key os c = opened_as lib key os' c"
proof -
  from assms(1) obtain st E D T where av: "cipher_available lib" and con: "gcm_contract lib st E D T"
    by (auto simp: cipher_ready_def)
  have "(fst (EVP_CIPHER_CTX_new lib os) = None) = False" for os
    using available_steps(2) [OF av, of os] by auto
  then show ?thesis
    using assms(3) by (simp only: opened_as_def DecryptChunk_outcome [OF con assms(2)] EncryptedChunk.simps if_False)
qed

text \<open>
  One message: the same outcome, and states that correspond again. The blocks that open have to be as long
  as their slots: the receiver does not check it.
\<close>

definition slot_message ::
    "nat \<Rightarrow> ('o, 'c) cipher_lib \<Rightarrow> KeyBytes \<Rightarrow> 'o \<Rightarrow> ChunkPayload \<Rightarrow> (slots, unit) prog" where
  "slot_message n lib key os c = slot_store n (unat (chunk_index c)) (opened_as lib key os c)"

definition fits_slot :: "nat \<Rightarrow> ('o, 'c) cipher_lib \<Rightarrow> KeyBytes \<Rightarrow> 'o \<Rightarrow> ChunkPayload \<Rightarrow> bool" where
  "fits_slot n lib key os c \<longleftrightarrow>
     length (ciphertext c) < 2 ^ 31 \<and>
     (\<forall>p. unat (chunk_index c) < slot_total n \<longrightarrow> opened_as lib key os c = Inr p \<longrightarrow>
        length p = slot_length n (unat (chunk_index c)))"

lemma ReceiveChunk_implements:
  assumes "cipher_ready lib" and "key_ok key" and fits: "fits_slot n lib key os c"
    and rep: "represents n path d0 (w, r) m"
  obtains res s' m' where "ReceiveChunk lib key c (w, r) = (res, s')"
    and "slot_message n lib key os c m = (res, m')" and "represents n path d0 s' m'"
proof -
  let ?i = "unat (chunk_index c)"
  have ok: "receiver_ok r" and total: "unat (chunk_total r) = slot_total n"
    and disk: "disk w = d0\<lparr>files := (files d0)(path \<mapsto> render n m)\<rparr>" and path: "output_path r = path"
    and acc: "readable d0 path" "writable d0 path" "n \<le> file_limit d0"
    using rep by (simp_all add: represents_def)
  have range: "chunk_total r \<le> chunk_index c \<longleftrightarrow> slot_total n \<le> ?i"
    by (simp add: word_le_nat_alt total)
  have small: "length (ciphertext c) < 2 ^ 31" using fits by (simp add: fits_slot_def)
  obtain os' where dec: "DecryptChunk lib key
      \<lparr>enc_nonce = nonce c, enc_ciphertext = ciphertext c, enc_tag = tag c\<rparr> (openssl w)
        = (opened_as lib key os c, os')"
    using opened_as_fixed [OF assms(1,2) small, of os "openssl w"] unfolding opened_as_def by (metis prod.collapse)
  note cases = ReceiveChunk_cases [OF ok, of lib key c w, unfolded dec range]
  show thesis
  proof (cases "slot_total n \<le> ?i")
    case True
    then show thesis
      using cases rep by (intro that [of _ "(w, r)" m]) (simp_all add: slot_message_def slot_store_def)
  next
    case in_range: False
    show thesis
    proof (cases "opened_as lib key os c")
      case (Inl e)
      then show thesis
        using cases in_range rep
        by (intro that [of "Inl e" "(w\<lparr>openssl := os'\<rparr>, r)" m])
           (simp_all add: slot_message_def slot_store_def represents_openssl)
    next
      case (Inr p)
      have len: "length p = slot_length n ?i" using fits Inr in_range by (simp add: fits_slot_def)
      have i: "?i < slot_total n" "?i < length (received_mask r)"
        using in_range ok total by (simp_all add: receiver_ok_def)
      let ?d = "d0\<lparr>files := (files d0)(path \<mapsto> render n (m(?i \<mapsto> p)))\<rparr>"
      have "ReceiveChunk lib key c (w, r) = (Inr (), (w\<lparr>openssl := os', disk := ?d\<rparr>, mark_received ?i r))"
        using cases in_range Inr disk path acc write_slot [OF i(1) len acc(3), of m]
        by (simp add: stream_ops chunk_offset nat_mult_distrib)
      moreover have "represents n path d0 (w\<lparr>openssl := os', disk := ?d\<rparr>, mark_received ?i r) (m(?i \<mapsto> p))"
        using rep mark_received_ok [OF ok, of ?i] mark_received_mask [OF i(2)] i ok total
        by (auto simp: represents_def receiver_ok_def)
      ultimately show thesis
        using Inr in_range by (intro that) (simp_all add: slot_message_def slot_store_def)
    qed
  qed
qed

lemma receiver_implements:
  assumes "cipher_ready lib" and "key_ok key" and "\<forall>c \<in> set cs. fits_slot n lib key os c"
    and "represents n path d0 s m"
  shows "\<exists>rs s' m'. attempt_all (ReceiveChunk lib key) cs s = (rs, s') \<and>
    attempt_all (slot_message n lib key os) cs m = (rs, m') \<and> represents n path d0 s' m'"
  using assms(3,4)
proof (induction cs arbitrary: s m)
  case (Cons c cs)
  obtain w r where s: "s = (w, r)" by (cases s)
  have "fits_slot n lib key os c" using Cons.prems(1) by simp
  from ReceiveChunk_implements [OF assms(1,2) this Cons.prems(2) [unfolded s]]
  obtain res s1 m1 where step: "ReceiveChunk lib key c (w, r) = (res, s1)"
      "slot_message n lib key os c m = (res, m1)" "represents n path d0 s1 m1" by blast
  from Cons.IH [OF _ step(3)] Cons.prems(1) step(1,2) show ?case by (auto simp: s)
qed simp

lemma FileReceiver_new_implements:
  assumes "writable (disk w) path" and "readable (disk w) path"
    and "n < vec_limit" and "n \<le> file_limit (disk w)" and "slot_total n < 2 ^ 32"
  shows "\<exists>w' r. FileReceiver_new path (of_nat n) (of_nat (slot_total n)) hash w = (Inr r, w') \<and>
    represents n path (disk w) (w', r) Map.empty"
proof -
  let ?r = "\<lparr>output_path = path, expected_size = of_nat n, chunk_total = of_nat (slot_total n),
      received_count = 0, expected_sha256 = hash,
      received_mask = replicate (unat (of_nat (slot_total n) :: u32)) False\<rparr>"
  let ?d = "(disk w)\<lparr>files := (files (disk w))(path \<mapsto> replicate n 0)\<rparr>"
  have m: "unat (of_nat (slot_total n) :: u32) = slot_total n"
    using assms(5) by (simp add: unat_of_nat take_bit_nat_eq_self)
  have "unat (of_nat n :: u64) = n" using assms(3) by (rule unat_of_nat_small)
  then have "FileReceiver_new path (of_nat n) (of_nat (slot_total n)) hash w = (Inr ?r, w\<lparr>disk := ?d\<rparr>)"
    using FileReceiver_new_file [OF assms(1), of "of_nat n" "of_nat (slot_total n)" hash] assms(3,4)
    by (simp add: vec_limit_def)
  moreover have "represents n path (disk w) (w\<lparr>disk := ?d\<rparr>, ?r) Map.empty"
    using assms m by (simp add: represents_def receiver_ok_def render_empty)
  ultimately show ?thesis by blast
qed

end
