(* ===== verification/Transfer_Props.thy ===== *)
theory Transfer_Props
  imports Hostile Samples Receiver_Spec
begin

text \<open>
  The properties of the two ends of a transfer: what the sender emits, what the offer says, and what the
  receiver does with every chunk.
\<close>

section \<open>The sender\<close>

text \<open>
  C5: \<open>SendFileChunks\<close> ends, and hands to its sink every block of the file once, in order: chunk number
  \<open>i\<close> carries the index \<open>i\<close> and an encryption of block \<open>i\<close>, no block is empty or longer than
  \<open>kChunkSize\<close>, and the decrypted blocks in order are the file. An empty file has no chunk.
\<close>

theorem sent_chunks_are_the_file:
  assumes "cipher_ready lib" and "key_ok key"
    and "files (disk w) path = Some content" and "readable (disk w) path"
  shows "\<exists>w' cs ps. SendFileChunks lib path key collect_sink (w, []) = (Inr (), (w', cs)) \<and>
    disk w' = disk w \<and> length ps = length cs \<and> concat ps = content \<and>
    (\<forall>i < length cs. chunk_index (cs ! i) = of_nat i \<and>
       0 < length (ps ! i) \<and> length (ps ! i) \<le> unat kChunkSize \<and>
       (\<forall>os. fst (DecryptChunk lib key
          \<lparr>enc_nonce = nonce (cs ! i), enc_ciphertext = ciphertext (cs ! i), enc_tag = tag (cs ! i)\<rparr> os)
        = Inr (ps ! i)))"
proof -
  obtain w' cs where cs: "SendFileChunks lib path key collect_sink (w, []) = (Inr (), (w', cs))" "disk w' = disk w"
      "list_all2 (chunk_of lib key content) [0..<num_chunks content] cs"
    using SendFileChunks_collects [OF assms] by blast
  let ?ps = "map (block content) [0..<num_chunks content]"
  have len: "length cs = num_chunks content" using list_all2_lengthD [OF cs(3)] by simp
  have "chunk_of lib key content i (cs ! i)" if "i < length cs" for i
    using list_all2_nthD [OF cs(3), of i] that len by simp
  moreover have "0 < length (?ps ! i) \<and> length (?ps ! i) \<le> unat kChunkSize" if "i < length cs" for i
    using that len less_num_chunks [of i content] by (simp add: length_block)
  ultimately show ?thesis
    using cs(1,2) len concat_blocks [of content]
    by (intro exI [of _ w'] exI [of _ cs] exI [of _ ?ps]) (simp add: chunk_of_def chunk_opens_def)
qed

theorem sent_chunks_are_the_file_witness:
  "\<exists>w' cs ps. SendFileChunks toy_cipher ''/tmp/a.bin'' sample_key collect_sink (sample_world, []) = (Inr (), (w', cs)) \<and>
    disk w' = disk sample_world \<and> length ps = length cs \<and> concat ps = sample_content \<and>
    (\<forall>i < length cs. chunk_index (cs ! i) = of_nat i \<and>
       0 < length (ps ! i) \<and> length (ps ! i) \<le> unat kChunkSize \<and>
       (\<forall>os. fst (DecryptChunk toy_cipher sample_key
          \<lparr>enc_nonce = nonce (cs ! i), enc_ciphertext = ciphertext (cs ! i), enc_tag = tag (cs ! i)\<rparr> os)
        = Inr (ps ! i)))"
  by (rule sent_chunks_are_the_file [OF toy_ready sample_key_ok]) (simp_all add: sample_world_def sample_disk_def)

text \<open>
  C9: the offer describes the transfer: its name is the last component of the path, which is what follows its
  last separator, or the whole path when it has none; its size and hash are those of the file, and its number
  of chunks is the number of chunks that \<open>SendFileChunks\<close> emits for the same file, as a 32-bit number.
\<close>

theorem offer_describes_transfer:
  assumes "cipher_ready lib" and "key_ok key" and "digest_ready dlib H"
    and "files (disk w) path = Some content" and "readable (disk w) path" and "length content < vec_limit"
  shows "\<exists>offer os w' cs. PrepareFileOffer dlib path w = (Inr offer, w\<lparr>openssl := os\<rparr>) \<and>
    SendFileChunks lib path key collect_sink (w\<lparr>openssl := os\<rparr>, []) = (Inr (), (w', cs)) \<and>
    unat (total_chunks offer) = length cs mod 2 ^ 32 \<and>
    unat (file_size offer) = length content \<and> sha256 offer = H content \<and>
    CHR ''/'' \<notin> set (file_name offer) \<and>
    (\<exists>dir. path = dir @ file_name offer \<and> (dir = [] \<or> last dir = CHR ''/''))"
proof -
  obtain os where offer: "PrepareFileOffer dlib path w =
      (Inr \<lparr>file_name = path_filename path, file_size = of_nat (length content),
        sha256 = H content, total_chunks = of_nat (num_chunks content)\<rparr>, w\<lparr>openssl := os\<rparr>)"
    using PrepareFileOffer_offer [OF assms(3-6)] by blast
  obtain w' cs where cs: "SendFileChunks lib path key collect_sink (w\<lparr>openssl := os\<rparr>, []) = (Inr (), (w', cs))"
      "list_all2 (chunk_of lib key content) [0..<num_chunks content] cs"
    using SendFileChunks_collects [OF assms(1,2), of "w\<lparr>openssl := os\<rparr>" path content] assms(4,5) by auto
  have "length cs = num_chunks content" using list_all2_lengthD [OF cs(2)] by simp
  moreover have "unat (of_nat (num_chunks content) :: u32) = num_chunks content mod 2 ^ 32"
    by (simp add: unat_of_nat take_bit_eq_mod)
  ultimately show ?thesis
    using offer cs(1) path_filename_no_separator [of path] path_filename_last [of path] unat_of_nat_small [OF assms(6)]
    by (intro exI [of _ os] exI [of _ w'] exI [of _ cs]
        exI [of _ "\<lparr>file_name = path_filename path, file_size = of_nat (length content),
          sha256 = H content, total_chunks = of_nat (num_chunks content)\<rparr>"]) auto
qed

theorem offer_describes_transfer_witness:
  "\<exists>offer os w' cs. PrepareFileOffer toy_digest ''/tmp/a.bin'' sample_world = (Inr offer, sample_world\<lparr>openssl := os\<rparr>) \<and>
    SendFileChunks toy_cipher ''/tmp/a.bin'' sample_key collect_sink (sample_world\<lparr>openssl := os\<rparr>, []) = (Inr (), (w', cs)) \<and>
    unat (total_chunks offer) = length cs mod 2 ^ 32 \<and>
    unat (file_size offer) = length sample_content \<and> sha256 offer = toy_H sample_content \<and>
    CHR ''/'' \<notin> set (file_name offer) \<and>
    (\<exists>dir. ''/tmp/a.bin'' = dir @ file_name offer \<and> (dir = [] \<or> last dir = CHR ''/''))"
  by (rule offer_describes_transfer [OF toy_ready sample_key_ok toy_digest_ready])
     (simp_all add: sample_world_def sample_disk_def sample_content_def vec_limit_def)

text \<open>
  The number of chunks is cut to 32 bits: a file of \<open>2 ^ 46\<close> bytes (64 TiB) is offered with 0 chunks,
  although it has \<open>2 ^ 32\<close>. A receiver built from that offer is complete from the start.
\<close>

theorem huge_file_offers_no_chunks:
  assumes "digest_ready dlib H" and "files (disk w) path = Some content" and "readable (disk w) path"
    and "length content = 2 ^ 46"
  shows "\<exists>offer w'. PrepareFileOffer dlib path w = (Inr offer, w') \<and> total_chunks offer = 0 \<and>
    num_chunks content = 2 ^ 32 \<and>
    (\<forall>dst w1 r w2. FileReceiver_new dst (file_size offer) (total_chunks offer) (sha256 offer) w1 = (Inr r, w2)
       \<longrightarrow> IsComplete r)"
proof -
  have n: "num_chunks content = 2 ^ 32" by (simp add: num_chunks_def assms(4))
  have "length content < vec_limit" by (simp add: assms(4) vec_limit_def)
  from PrepareFileOffer_offer [OF assms(1-3) this] obtain os where
    offer: "PrepareFileOffer dlib path w =
      (Inr \<lparr>file_name = path_filename path, file_size = of_nat (length content),
        sha256 = H content, total_chunks = of_nat (num_chunks content)\<rparr>, w\<lparr>openssl := os\<rparr>)"
    by blast
  have zero: "(of_nat (num_chunks content) :: u32) = 0"
    by (simp add: n word_unat_eq_iff unat_of_nat take_bit_eq_mod)
  note offer = offer [unfolded zero]
  have "IsComplete r" if "FileReceiver_new dst fsize 0 hash w1 = (Inr r, w2)" for dst fsize hash w1 r w2
    using that by (auto simp: FileReceiver_new_def IsComplete_def Let_def split: if_splits option.splits prod.splits)
  with offer n show ?thesis by auto
qed

theorem huge_file_offers_no_chunks_witness:
  "\<exists>offer w'. PrepareFileOffer toy_digest ''/big''
      \<lparr>disk = sample_disk\<lparr>files := [''/big'' \<mapsto> replicate (2 ^ 46) 0]\<rparr>, openssl = 0\<rparr> = (Inr offer, w') \<and>
    total_chunks offer = 0"
  using huge_file_offers_no_chunks [OF toy_digest_ready,
      of "\<lparr>disk = sample_disk\<lparr>files := [''/big'' \<mapsto> replicate (2 ^ 46) 0]\<rparr>, openssl = 0\<rparr>" "''/big''" "replicate (2 ^ 46) 0"]
  by (auto simp: sample_disk_def)

text \<open>
  A file that does not exist, or cannot be opened, is an exception of each routine that needs it, with
  the path in the message, and nothing has been sent or changed.
\<close>

theorem unreadable_file_errors:
  assumes "files (disk w) path = None \<or> \<not> readable (disk w) path"
  shows "SendFileChunks lib path key sink (w, u)
      = (Inl (RuntimeError (''chunking: cannot open file: '' @ path)), (w, u)) \<and>
    PrepareFileOffer dlib path w =
      (Inl (RuntimeError ((if files (disk w) path = None then ''chunking: file not found: ''
                           else ''crypto: cannot open file for hashing: '') @ path)), w)"
  using assms Sha256File_missing [of "disk w" path dlib "openssl w"]
  by (auto simp: SendFileChunks_def PrepareFileOffer_def ifstream_open_def Let_def split: option.splits)

theorem unreadable_file_errors_witness:
  "PrepareFileOffer toy_digest ''/none'' sample_world
     = (Inl (RuntimeError ''chunking: file not found: /none''), sample_world)"
  using unreadable_file_errors [of sample_world "''/none''" toy_cipher sample_key collect_sink "[]" toy_digest]
  by (simp add: sample_world_def sample_disk_def)

section \<open>The receiver\<close>

text \<open>
  C6: whatever happens to a receiver, accepted chunks in any order and repetition, rejected ones, changes
  of the file system in between: it is complete if and only if every index below the announced number
  has been accepted, and none other ever was.
\<close>

theorem complete_iff_all_accepted:
  assumes "receiving lib (w, r) A"
  shows "A \<subseteq> {..<unat (chunk_total r)} \<and> (IsComplete r \<longleftrightarrow> A = {..<unat (chunk_total r)}) \<and>
    unat (received_count r) = card A"
proof -
  have m: "mask_is r A" using receiving_mask [OF assms] by simp
  have "count_list (received_mask r) True = card {i. i < length (received_mask r) \<and> received_mask r ! i}"
    by (simp add: count_list_eq_length_filter length_filter_conv_card)
  moreover have "{i. i < length (received_mask r) \<and> received_mask r ! i} = A"
    using m by (auto simp: mask_is_def receiver_ok_def)
  ultimately show ?thesis
    using m mask_is_complete [OF m] by (simp add: mask_is_def receiver_ok_def)
qed

theorem complete_iff_all_accepted_witness:
  "receiving toy_cipher (receiver_world, sample_receiver) {} \<and> \<not> IsComplete sample_receiver"
proof -
  have start: "receiving toy_cipher (receiver_world, sample_receiver) {}"
    by (rule receiving.constructed [OF sample_receiver_new])
  moreover have "0 \<in> {..<unat (chunk_total sample_receiver)}" by (simp add: sample_receiver_def)
  ultimately show ?thesis using complete_iff_all_accepted [OF start] by blast
qed

text \<open>
  C8: a chunk that is refused (index out of range, bad sizes, failed authentication, output file not
  accessible) changes neither the receiver nor any file: the caller can ask for it again.
\<close>

theorem refused_chunk_changes_nothing:
  assumes "receiving lib (w, r) A" and "ReceiveChunk lib key c (w, r) = (Inl e, (w', r'))"
  shows "r' = r \<and> disk w' = disk w"
proof -
  have "receiver_ok r" using receiving_mask [OF assms(1)] by (simp add: mask_is_def)
  from ReceiveChunk_failure [OF this assms(2)] show ?thesis .
qed

theorem refused_chunk_changes_nothing_witness:
  "\<exists>w' r'. ReceiveChunk toy_cipher sample_key \<lparr>chunk_index = 2, nonce = [], ciphertext = [], tag = []\<rparr>
      (receiver_world, sample_receiver) = (Inl (RuntimeError ''chunking: chunk_index out of range''), (w', r')) \<and>
    r' = sample_receiver \<and> disk w' = disk receiver_world"
proof -
  have "ReceiveChunk toy_cipher sample_key \<lparr>chunk_index = 2, nonce = [], ciphertext = [], tag = []\<rparr>
      (receiver_world, sample_receiver)
    = (Inl (RuntimeError ''chunking: chunk_index out of range''), (receiver_world, sample_receiver))"
    by (simp add: ReceiveChunk_def sample_receiver_def)
  from this refused_chunk_changes_nothing [OF receiving.constructed [OF sample_receiver_new] this]
  show ?thesis by blast
qed

text \<open>
  C36: a receiver never indexes its mask out of range and never writes outside a buffer. That holds of every
  chunk with a ciphertext below 2 GiB, however malformed, by the contract of OpenSSL, and of a chunk of any
  length for a library that writes no more than the bytes it was given. The second is asked for because the
  source casts the length to \<open>int\<close>: from 2 to 4 GiB the library is told a negative number, of which the
  contract says nothing.
\<close>

theorem receiver_memory_safe:
  assumes "receiving lib (w, r) A"
    and "(\<exists>st E D T. gcm_contract lib st E D T) \<and> key_ok key \<and> length (ciphertext c) < 2 ^ 31 \<or> writes_within lib"
  shows "memory_safe (fst (ReceiveChunk lib key c (w, r)))"
proof -
  have ok: "receiver_ok r" using receiving_mask [OF assms(1)] by (simp add: mask_is_def)
  let ?ch = "\<lparr>enc_nonce = nonce c, enc_ciphertext = ciphertext c, enc_tag = tag c\<rparr>"
  from assms(2) have "fst (DecryptChunk lib key ?ch (openssl w)) \<noteq> Inl OutOfBounds"
  proof (elim disjE conjE exE)
    fix st E D T assume con: "gcm_contract lib st E D T" "key_ok key" and "length (ciphertext c) < 2 ^ 31"
    then show ?thesis
      using DecryptChunk_outcome [OF con, of ?ch "openssl w"] by (simp add: OpenSSLError_def auth_failed_def)
  qed (rule DecryptChunk_within)
  then show ?thesis
    by (auto simp: ReceiveChunk_cases [OF ok] memory_safe_iff split: sum.split prod.split option.split)
qed

lemma toy_writes_within: "writes_within toy_cipher"
proof -
  have "length o1 \<le> length d" if "toy_update e c d n = (rc, o1, c')" for e c d n rc o1 c'
    using that by (cases "(e, c, d, n)" rule: toy_update.cases) (auto simp: toy_E_def toy_D_def split: if_splits)
  moreover have "o1 = []" if "toy_final c = (rc, o1, c')" for c rc o1 c'
    using that by (cases c rule: toy_final.cases) auto
  ultimately show ?thesis by (fastforce simp: writes_within_def toy_cipher_def)
qed

theorem receiver_memory_safe_witness:
  "memory_safe (fst (ReceiveChunk toy_cipher sample_key
     \<lparr>chunk_index = 0, nonce = replicate 12 0, ciphertext = replicate (2 ^ 31) 0, tag = replicate 16 0\<rparr>
     (receiver_world, sample_receiver)))"
  by (rule receiver_memory_safe [OF receiving.constructed [OF sample_receiver_new]])
     (rule disjI2, rule toy_writes_within)

text \<open>
  The contract alone is not enough for such a chunk: this library keeps it, and writes one byte more than it
  was given when it is told a negative length.
\<close>

definition careless_cipher :: "(nat, gcm_phase) cipher_lib" where
  "careless_cipher = toy_cipher\<lparr>EVP_DecryptUpdate :=
     \<lambda>c d n. if n < 0 then (0, d @ [0], c) else toy_update False c d n\<rparr>"

theorem negative_length_is_not_covered:
  assumes "length (enc_ciphertext ch) = 2 ^ 31" and "length (enc_nonce ch) = 12" and "length (enc_tag ch) = 16"
  shows "gcm_contract careless_cipher (\<lambda>c. c) toy_E toy_D toy_T"
    and "fst (DecryptChunk careless_cipher key ch os) = Inl OutOfBounds"
proof -
  show "gcm_contract careless_cipher (\<lambda>c. c) toy_E toy_D toy_T"
    unfolding gcm_contract_def
  proof (intro conjI toy_algebra)
    show "gcm_init_laws careless_cipher (\<lambda>c. c)"
      by (simp add: gcm_init_laws_def careless_cipher_def toy_cipher_def)
    show "gcm_data_laws careless_cipher (\<lambda>c. c) toy_E toy_D toy_T"
      by (simp add: gcm_data_laws_def careless_cipher_def toy_cipher_def)
    show "rand_law careless_cipher" by (auto simp: rand_law_def careless_cipher_def toy_cipher_def)
  qed
  have "c_int (2 ^ 31) < 0" by (simp add: c_int_def)
  moreover have "enc_ciphertext ch \<noteq> []" using assms(1) by auto
  ultimately show "fst (DecryptChunk careless_cipher key ch os) = Inl OutOfBounds"
    using assms
    by (simp add: DecryptChunk_def DecryptWithCtx_def careless_cipher_def toy_cipher_def crypto_sizes Let_def
        buf_store_def prog_of_def)
qed

text \<open>
  C10: the exact effect of a chunk that opens: its plaintext, whatever its length, is written into the
  output file at \<open>chunk_index * kChunkSize\<close>, every other file and every other byte stays, and the index
  is marked. The plaintext is not compared with \<open>kChunkSize\<close>: a longer one runs into the next block.
\<close>

theorem accepted_chunk_effect:
  assumes "receiving lib (w, r) A" and "chunk_index c < chunk_total r" and "chunk_opens lib key c p"
    and "files (disk w) (output_path r) = Some old" and "readable (disk w) (output_path r)"
    and "writable (disk w) (output_path r)"
    and "unat (chunk_index c) * 16384 + length p \<le> file_limit (disk w)"
    and "unat (chunk_index c) * 16384 \<le> length old"
  shows "\<exists>w' r' new. ReceiveChunk lib key c (w, r) = (Inr (), (w', r')) \<and>
    files (disk w') = (files (disk w))(output_path r \<mapsto> new) \<and>
    length new = max (length old) (unat (chunk_index c) * 16384 + length p) \<and>
    (\<forall>j < length new. new ! j =
       (if unat (chunk_index c) * 16384 \<le> j \<and> j < unat (chunk_index c) * 16384 + length p
        then p ! (j - unat (chunk_index c) * 16384) else old ! j)) \<and>
    receiving lib (w', r') (insert (unat (chunk_index c)) A)"
proof -
  have ok: "receiver_ok r" using receiving_mask [OF assms(1)] by (simp add: mask_is_def)
  let ?i = "unat (chunk_index c)"
  let ?new = "write_at (file_limit (disk w)) (?i * chunk_bytes) p old"
  obtain os where run: "ReceiveChunk lib key c (w, r) =
      (Inr (), (w\<lparr>openssl := os, disk := (disk w)\<lparr>files := (files (disk w))(output_path r \<mapsto> ?new)\<rparr>\<rparr>,
        mark_received ?i r))"
    using ReceiveChunk_writes [OF ok assms(2-6)] by blast
  have "length ?new = max (length old) (?i * chunk_bytes + length p)"
    using length_write_at [OF assms(7,8)] by simp
  moreover have "\<forall>j < length ?new. ?new ! j =
      (if ?i * chunk_bytes \<le> j \<and> j < ?i * chunk_bytes + length p then p ! (j - ?i * chunk_bytes) else old ! j)"
    using nth_write_at [OF assms(7,8)] length_write_at [OF assms(7,8)] by simp
  ultimately show ?thesis
    using run receiving.accepted [OF assms(1) run]
    by (intro exI [of _ "w\<lparr>openssl := os, disk := (disk w)\<lparr>files := (files (disk w))(output_path r \<mapsto> ?new)\<rparr>\<rparr>"]
        exI [of _ "mark_received ?i r"] exI [of _ ?new]) simp
qed

theorem accepted_chunk_effect_witness:
  "\<exists>w' r' new. ReceiveChunk toy_cipher sample_key (sealed_payload 0 [7, 8]) (receiver_world, sample_receiver)
      = (Inr (), (w', r')) \<and>
    files (disk w') = (files (disk receiver_world))(output_path sample_receiver \<mapsto> new) \<and>
    length new = max (length [0, 0, 0 :: u8]) (unat (chunk_index (sealed_payload 0 [7, 8])) * 16384 + length [7, 8 :: u8]) \<and>
    (\<forall>j < length new. new ! j =
       (if unat (chunk_index (sealed_payload 0 [7, 8])) * 16384 \<le> j \<and>
           j < unat (chunk_index (sealed_payload 0 [7, 8])) * 16384 + length [7, 8 :: u8]
        then [7, 8] ! (j - unat (chunk_index (sealed_payload 0 [7, 8])) * 16384) else [0, 0, 0] ! j)) \<and>
    receiving toy_cipher (w', r') (insert (unat (chunk_index (sealed_payload 0 [7, 8]))) {})"
  by (rule accepted_chunk_effect [OF receiving.constructed [OF sample_receiver_new] _ sealed_payload_opens])
     (simp_all add: receiver_world_file sample_receiver_def sample_disk_def sealed_payload_def)

text \<open>
  C37: the index of a chunk is not authenticated: a chunk that the sender sealed as block \<open>i\<close> of a file is
  also accepted under every other index in range, and its plaintext is then written at the place of that
  other block, which counts as received.
\<close>

theorem relabelled_chunk_accepted:
  assumes "receiving lib (w, r) A" and "chunk_of lib key content i c" and "j < chunk_total r"
    and "files (disk w) (output_path r) = Some old" and "readable (disk w) (output_path r)"
    and "writable (disk w) (output_path r)"
  shows "\<exists>w' r'. ReceiveChunk lib key (c\<lparr>chunk_index := j\<rparr>) (w, r) = (Inr (), (w', r')) \<and>
    files (disk w') (output_path r)
      = Some (write_at (file_limit (disk w)) (unat j * 16384) (block content i) old) \<and>
    received_mask r' ! unat j"
proof -
  have ok: "receiver_ok r" using receiving_mask [OF assms(1)] by (simp add: mask_is_def)
  have opens: "chunk_opens lib key (c\<lparr>chunk_index := j\<rparr>) (block content i)"
    using assms(2) by (simp add: chunk_of_def chunk_opens_def)
  have j: "chunk_index (c\<lparr>chunk_index := j\<rparr>) < chunk_total r" using assms(3) by simp
  have len: "unat j < length (received_mask r)"
    using ok assms(3) by (simp add: receiver_ok_def word_less_nat_alt)
  from ReceiveChunk_writes [OF ok j opens assms(4-6)] show ?thesis
    using len by (fastforce simp: mark_received_def)
qed

lemma sealed_payload_of: "i < num_chunks content \<Longrightarrow>
    chunk_of toy_cipher sample_key content i (sealed_payload (of_nat i) (block content i))"
  using sealed_payload_opens [OF length_block_small, of "of_nat i" content i]
  by (simp add: chunk_of_def sealed_payload_def)

theorem relabelled_chunk_accepted_witness:
  "\<exists>w' r'. ReceiveChunk toy_cipher sample_key ((sealed_payload (of_nat 0) (block [7, 8] 0))\<lparr>chunk_index := 1\<rparr>)
      (receiver_world, sample_receiver) = (Inr (), (w', r')) \<and>
    files (disk w') (output_path sample_receiver)
      = Some (write_at (file_limit (disk receiver_world)) (unat (1 :: u32) * 16384) (block [7, 8] 0) [0, 0, 0]) \<and>
    received_mask r' ! unat (1 :: u32)"
  by (rule relabelled_chunk_accepted [OF receiving.constructed [OF sample_receiver_new] sealed_payload_of])
     (simp_all add: num_chunks_def receiver_world_file sample_receiver_def sample_disk_def)

text \<open>
  C38: the outcome of writing to the output file is not looked at: when the disk is full at the place of
  the block, \<open>ReceiveChunk\<close> returns normally and counts the chunk as received, with no byte of it stored.
\<close>

theorem lost_write_counts_as_received:
  assumes "receiving lib (w, r) A" and "chunk_index c < chunk_total r" and "chunk_opens lib key c p"
    and "files (disk w) (output_path r) = Some old" and "readable (disk w) (output_path r)"
    and "writable (disk w) (output_path r)"
    and "file_limit (disk w) \<le> unat (chunk_index c) * 16384"
  shows "\<exists>w' r'. ReceiveChunk lib key c (w, r) = (Inr (), (w', r')) \<and>
    files (disk w') = files (disk w) \<and> received_mask r' ! unat (chunk_index c) \<and>
    receiving lib (w', r') (insert (unat (chunk_index c)) A)"
proof -
  have ok: "receiver_ok r" using receiving_mask [OF assms(1)] by (simp add: mask_is_def)
  have same: "(files (disk w))(output_path r \<mapsto>
      write_at (file_limit (disk w)) (unat (chunk_index c) * chunk_bytes) p old) = files (disk w)"
    using assms(4,7) by (simp add: write_at_beyond map_upd_triv)
  have len: "unat (chunk_index c) < length (received_mask r)"
    using ok assms(2) by (simp add: receiver_ok_def word_less_nat_alt)
  obtain os where run: "ReceiveChunk lib key c (w, r) =
      (Inr (), (w\<lparr>openssl := os, disk := (disk w)\<lparr>files := files (disk w)\<rparr>\<rparr>,
        mark_received (unat (chunk_index c)) r))"
    using ReceiveChunk_writes [OF ok assms(2-6)] same by auto
  from receiving.accepted [OF assms(1) run] run len show ?thesis
    by (intro exI [of _ "w\<lparr>openssl := os, disk := (disk w)\<lparr>files := files (disk w)\<rparr>\<rparr>"]
        exI [of _ "mark_received (unat (chunk_index c)) r"]) (simp add: mark_received_def)
qed

theorem lost_write_counts_as_received_witness:
  "\<exists>w' r'. ReceiveChunk toy_cipher sample_key (sealed_payload 1 [7, 8])
      (receiver_world\<lparr>disk := (disk receiver_world)\<lparr>file_limit := 100\<rparr>\<rparr>, sample_receiver) = (Inr (), (w', r')) \<and>
    files (disk w') = files (disk (receiver_world\<lparr>disk := (disk receiver_world)\<lparr>file_limit := 100\<rparr>\<rparr>)) \<and>
    received_mask r' ! unat (chunk_index (sealed_payload 1 [7, 8])) \<and>
    receiving toy_cipher (w', r') (insert (unat (chunk_index (sealed_payload 1 [7, 8]))) {})"
  by (rule lost_write_counts_as_received
        [OF receiving.elsewhere [OF receiving.constructed [OF sample_receiver_new]] _ sealed_payload_opens])
     (simp_all add: receiver_world_file sample_receiver_def sample_disk_def sealed_payload_def)

text \<open>
  \<open>VerifyIntegrity\<close> is the comparison of the hash of the output file as it is with the expected hash,
  whatever has been received; a file that is gone or not readable is an exception.
\<close>

theorem VerifyIntegrity_outcomes:
  assumes "digest_ready dlib H"
  shows "fst (VerifyIntegrity dlib r w) =
    (case files (disk w) (output_path r) of
       Some content \<Rightarrow>
         if readable (disk w) (output_path r) then Inr (H content = expected_sha256 r)
         else Inl (RuntimeError (''crypto: cannot open file for hashing: '' @ output_path r))
     | None \<Rightarrow> Inl (RuntimeError (''crypto: cannot open file for hashing: '' @ output_path r)))"
  using VerifyIntegrity_hash [OF assms, of w r] Sha256File_missing [of "disk w" "output_path r" dlib "openssl w"]
  by (auto simp: VerifyIntegrity_def split: option.split)

theorem VerifyIntegrity_outcomes_witness:
  "fst (VerifyIntegrity toy_digest sample_receiver receiver_world) = Inr (toy_H [0, 0, 0] = [])"
  using VerifyIntegrity_outcomes [OF toy_digest_ready, of sample_receiver receiver_world]
  by (simp add: receiver_world_file sample_receiver_def sample_disk_def)

text \<open>
  C39: the constructor of the receiver: an output path that cannot be written is an exception and leaves
  the file system alone; otherwise the old content is gone and the file holds as many zero bytes as were
  announced, unless the size exceeds \<open>2 ^ 63\<close> or the disk: then the file is empty, and no error is
  reported. No chunk is marked.
\<close>

theorem constructor_preallocates:
  "(\<not> writable (disk w) path \<longrightarrow>
     FileReceiver_new path fsize chunks hash w
       = (Inl (RuntimeError (''chunking: cannot create output file: '' @ path)), w)) \<and>
   (writable (disk w) path \<longrightarrow>
     (\<exists>r w'. FileReceiver_new path fsize chunks hash w = (Inr r, w') \<and>
       files (disk w') = (files (disk w))(path \<mapsto>
         (if unat fsize \<le> 2 ^ 63 \<and> unat fsize \<le> file_limit (disk w) then replicate (unat fsize) 0 else [])) \<and>
       receiver_ok r \<and> (\<forall>i < unat chunks. \<not> received_mask r ! i) \<and> (IsComplete r \<longleftrightarrow> chunks = 0)))"
proof (cases "writable (disk w) path")
  case False
  then show ?thesis by (simp add: FileReceiver_new_def stream_ops Let_def)
next
  case True
  from FileReceiver_new_file [OF True, of fsize chunks hash] obtain r w' where
    r: "FileReceiver_new path fsize chunks hash w = (Inr r, w')"
    and eqs: "files (disk w') = (files (disk w))(path \<mapsto>
        (if unat fsize \<le> 2 ^ 63 \<and> unat fsize \<le> file_limit (disk w) then replicate (unat fsize) 0 else []))"
      "received_mask r = replicate (unat chunks) False" "received_count r = 0" "chunk_total r = chunks"
    by auto
  from FileReceiver_new_ok [OF r] r eqs True show ?thesis by (auto simp: IsComplete_def)
qed

theorem constructor_preallocates_witness:
  "\<exists>r w'. FileReceiver_new ''/tmp/b.bin'' (2 ^ 63 + 1) 1 [] sample_world = (Inr r, w') \<and>
    files (disk w') ''/tmp/b.bin'' = Some []"
proof -
  have "writable (disk sample_world) ''/tmp/b.bin''" by (simp add: sample_world_def sample_disk_def)
  moreover have "\<not> unat (2 ^ 63 + 1 :: u64) \<le> 2 ^ 63" by simp
  ultimately show ?thesis
    using constructor_preallocates [of sample_world "''/tmp/b.bin''" "2 ^ 63 + 1" 1 "[]"]
    by (metis fun_upd_same)
qed

text \<open>
  A chunk that arrives twice is accepted twice and counted once: the second time changes neither the
  output file nor the receiver.
\<close>

theorem repeated_chunk_is_idempotent:
  assumes "receiving lib (w, r) A" and "chunk_index c < chunk_total r" and "chunk_opens lib key c p"
    and "files (disk w) (output_path r) = Some old" and "readable (disk w) (output_path r)"
    and "writable (disk w) (output_path r)"
  shows "\<exists>w1 w2 r1. ReceiveChunk lib key c (w, r) = (Inr (), (w1, r1)) \<and>
    ReceiveChunk lib key c (w1, r1) = (Inr (), (w2, r1)) \<and> disk w2 = disk w1"
proof -
  let ?i = "unat (chunk_index c)"
  let ?new = "write_at (file_limit (disk w)) (?i * chunk_bytes) p old"
  let ?r1 = "mark_received ?i r"
  have ok: "receiver_ok r" using receiving_mask [OF assms(1)] by (simp add: mask_is_def)
  have i: "?i < unat (chunk_total r)" using assms(2) by (simp add: word_less_nat_alt)
  have ok1: "receiver_ok ?r1" by (rule mark_received_ok [OF ok i])
  have "received_mask ?r1 ! ?i" using ok i by (simp add: mark_received_mask receiver_ok_def)
  then have again: "mark_received ?i ?r1 = ?r1" by (simp add: mark_received_def [of ?i ?r1])
  obtain os where run: "ReceiveChunk lib key c (w, r) =
      (Inr (), (w\<lparr>openssl := os, disk := (disk w)\<lparr>files := (files (disk w))(output_path r \<mapsto> ?new)\<rparr>\<rparr>, ?r1))"
    using ReceiveChunk_writes [OF ok assms(2-6)] by blast
  let ?w1 = "w\<lparr>openssl := os, disk := (disk w)\<lparr>files := (files (disk w))(output_path r \<mapsto> ?new)\<rparr>\<rparr>"
  have pre: "chunk_index c < chunk_total ?r1" "files (disk ?w1) (output_path ?r1) = Some ?new"
      "readable (disk ?w1) (output_path ?r1)" "writable (disk ?w1) (output_path ?r1)"
    using assms(2,5,6) by simp_all
  obtain os2 where "ReceiveChunk lib key c (?w1, ?r1) =
      (Inr (), (?w1\<lparr>openssl := os2, disk := (disk ?w1)\<lparr>files := (files (disk ?w1))(output_path ?r1 \<mapsto>
          write_at (file_limit (disk ?w1)) (?i * chunk_bytes) p ?new)\<rparr>\<rparr>, mark_received ?i ?r1))"
    using ReceiveChunk_writes [OF ok1 pre(1) assms(3) pre(2-4)] by blast
  then have "\<exists>w2. ReceiveChunk lib key c (?w1, ?r1) = (Inr (), (w2, ?r1)) \<and> disk w2 = disk ?w1"
    by (simp add: again write_at_twice)
  with run show ?thesis by blast
qed

theorem repeated_chunk_is_idempotent_witness:
  "\<exists>w1 w2 r1. ReceiveChunk toy_cipher sample_key (sealed_payload 0 [7, 8]) (receiver_world, sample_receiver) = (Inr (), (w1, r1)) \<and>
    ReceiveChunk toy_cipher sample_key (sealed_payload 0 [7, 8]) (w1, r1) = (Inr (), (w2, r1)) \<and> disk w2 = disk w1"
  by (rule repeated_chunk_is_idempotent [OF receiving.constructed [OF sample_receiver_new] _ sealed_payload_opens])
     (simp_all add: receiver_world_file sample_receiver_def sample_disk_def sealed_payload_def)

text \<open>
  C40: the state of an unfinished transfer: after any chunks of a file, in any order and repetition, the
  output file has its final size, holds the blocks that arrived at their places and zero bytes in the
  place of the others, and the receiver is complete exactly when every block has arrived.
\<close>

theorem partial_transfer_state:
  assumes "list_all2 (chunk_of lib key content) is cs" and "num_chunks content < 2 ^ 32"
    and "writable (disk w) path" and "readable (disk w) path" and "length content \<le> file_limit (disk w)"
    and "length content < vec_limit"
  shows "\<exists>r w1 w2 r2 out.
    FileReceiver_new path (of_nat (length content)) (of_nat (num_chunks content)) hash w = (Inr r, w1) \<and>
    deliver_all (ReceiveChunk lib key) cs (w1, r) = (Inr (), (w2, r2)) \<and>
    files (disk w2) = (files (disk w))(path \<mapsto> out) \<and> length out = length content \<and>
    (\<forall>j < length content. out ! j = (if j div 16384 \<in> set is then content ! j else 0)) \<and>
    (IsComplete r2 \<longleftrightarrow> {..<num_chunks content} \<subseteq> set is)"
proof -
  obtain w1 r where r: "FileReceiver_new path (of_nat (length content)) (of_nat (num_chunks content)) hash w = (Inr r, w1)"
      "assembling content path hash (disk w) {} (w1, r)"
    using FileReceiver_new_starts [OF assms(3,4,6,5,2)] by blast
  obtain w2 r2 where d: "deliver_all (ReceiveChunk lib key) cs (w1, r) = (Inr (), (w2, r2))"
      "assembling content path hash (disk w) (set is) (w2, r2)"
    using receiver.deliver_any_order [OF r(2) assms(1)] by auto
  have "IsComplete r2 \<longleftrightarrow> {..<num_chunks content} \<subseteq> set is"
    using d(2) by (auto simp: assembling_def IsComplete_iff)
  moreover have "files (disk w2) = (files (disk w))(path \<mapsto> filled content (set is))"
    using d(2) by (simp add: assembling_def)
  ultimately show ?thesis
    using r(1) d(1)
    by (intro exI [of _ r] exI [of _ w1] exI [of _ w2] exI [of _ r2] exI [of _ "filled content (set is)"]) simp
qed

theorem partial_transfer_state_witness:
  "\<exists>r w1 w2 r2 out.
    FileReceiver_new ''/tmp/b.bin'' (of_nat (length [7, 8 :: u8])) (of_nat (num_chunks [7, 8])) [] sample_world = (Inr r, w1) \<and>
    deliver_all (ReceiveChunk toy_cipher sample_key) [sealed_payload (of_nat 0) (block [7, 8] 0)] (w1, r)
      = (Inr (), (w2, r2)) \<and>
    files (disk w2) = (files (disk sample_world))(''/tmp/b.bin'' \<mapsto> out) \<and> length out = length [7, 8 :: u8] \<and>
    (\<forall>j < length [7, 8 :: u8]. out ! j = (if j div 16384 \<in> set [0] then [7, 8] ! j else 0)) \<and>
    (IsComplete r2 \<longleftrightarrow> {..<num_chunks [7, 8]} \<subseteq> set [0])"
  by (rule partial_transfer_state)
     (simp_all add: sealed_payload_of [of 0] num_chunks_def sample_world_def sample_disk_def vec_limit_def
       sealed_payload_of [of 0, simplified])

text \<open>
  C7: \<open>FileReceiver\<close> implements the table of slots, as long as the blocks fit their slots. A receiver for a
  file of \<open>n\<close> bytes is handed chunks one after the other by a caller that goes on after an exception: any
  chunks whose ciphertext is below 2 GiB and whose block, where the chunk opens and has a slot, is exactly as
  long as the slot. It answers each of them as the table does: it refuses those for no slot and those that do
  not open, and keeps the others, the last one for each slot. The output file is then the table written out,
  no other file changes, and the receiver is complete exactly when no slot is empty. A longer block is
  outside: the receiver does not compare it with its slot and writes over the next one.
\<close>

theorem receiver_implements_slots:
  assumes "cipher_ready lib" and "key_ok key" and "\<forall>c \<in> set cs. fits_slot n lib key os c"
    and "writable (disk w) path" and "readable (disk w) path"
    and "n < vec_limit" and "n \<le> file_limit (disk w)" and "slot_total n < 2 ^ 32"
  shows "\<exists>r w1 outcomes w2 r2 table.
    FileReceiver_new path (of_nat n) (of_nat (slot_total n)) hash w = (Inr r, w1) \<and>
    attempt_all (ReceiveChunk lib key) cs (w1, r) = (outcomes, (w2, r2)) \<and>
    attempt_all (slot_message n lib key os) cs Map.empty = (outcomes, table) \<and>
    files (disk w2) = (files (disk w))(path \<mapsto> render n table) \<and>
    (IsComplete r2 \<longleftrightarrow> slots_complete n table)"
proof -
  obtain r w1 where new: "FileReceiver_new path (of_nat n) (of_nat (slot_total n)) hash w = (Inr r, w1)"
      "represents n path (disk w) (w1, r) Map.empty"
    using FileReceiver_new_implements [OF assms(4-8)] by blast
  obtain outcomes w2 r2 table where run:
      "attempt_all (ReceiveChunk lib key) cs (w1, r) = (outcomes, (w2, r2))"
      "attempt_all (slot_message n lib key os) cs Map.empty = (outcomes, table)"
      "represents n path (disk w) (w2, r2) table"
    using receiver_implements [OF assms(1-3) new(2)] by auto
  have "files (disk w2) = (files (disk w))(path \<mapsto> render n table)"
    using run(3) by (simp add: represents_def)
  with new(1) run represents_complete [OF run(3)] show ?thesis by blast
qed

lemma sealed_payload_opened: "length p < 2 ^ 31 \<Longrightarrow> opened_as toy_cipher sample_key os (sealed_payload i p) = Inr p"
  using sealed_payload_opens [of p i] by (simp add: opened_as_def chunk_opens_def)

definition unopenable :: ChunkPayload where
  "unopenable = \<lparr>chunk_index = 0, nonce = [], ciphertext = [], tag = []\<rparr>"

lemma unopenable_opened:
  "opened_as toy_cipher sample_key os unopenable = Inl (RuntimeError ''crypto: bad nonce size'')"
  by (simp add: opened_as_def unopenable_def DecryptChunk_def kGcmNonceSize_def)

theorem receiver_implements_slots_witness:
  "\<exists>r w1 w2 r2.
    FileReceiver_new ''/tmp/b.bin'' (of_nat 3) (of_nat (slot_total 3)) [] sample_world = (Inr r, w1) \<and>
    attempt_all (ReceiveChunk toy_cipher sample_key)
      [unopenable, sealed_payload 0 [1, 2, 3], sealed_payload 7 [], sealed_payload 0 [4, 5, 6]] (w1, r)
      = ([Inl (RuntimeError ''crypto: bad nonce size''), Inr (),
          Inl (RuntimeError ''chunking: chunk_index out of range''), Inr ()], (w2, r2)) \<and>
    files (disk w2) = (files (disk sample_world))(''/tmp/b.bin'' \<mapsto> [4, 5, 6]) \<and> IsComplete r2"
proof -
  let ?cs = "[unopenable, sealed_payload 0 [1, 2, 3], sealed_payload 7 [], sealed_payload 0 [4, 5, 6]]"
  have slots: "slot_total 3 = 1" "slot_length 3 0 = 3"
    by (simp_all add: slot_total_def slot_length_def)
  have index: "chunk_index (sealed_payload i p) = i" "length (ciphertext (sealed_payload i p)) = length p" for i p
    by (simp_all add: sealed_payload_def toy_E_def)
  have fits: "\<forall>c \<in> set ?cs. fits_slot 3 toy_cipher sample_key 0 c"
    by (simp add: fits_slot_def unopenable_opened sealed_payload_opened slots index)
       (simp add: unopenable_def)
  have table: "attempt_all (slot_message 3 toy_cipher sample_key 0) ?cs Map.empty
      = ([Inl (RuntimeError ''crypto: bad nonce size''), Inr (),
          Inl (RuntimeError ''chunking: chunk_index out of range''), Inr ()], [0 \<mapsto> [4, 5, 6]])"
    by (simp add: slot_message_def slot_store_def unopenable_opened sealed_payload_opened slots index)
       (simp add: unopenable_def)
  have "render 3 [0 \<mapsto> [4, 5, 6]] = [4, 5, 6]" and "slots_complete 3 [0 \<mapsto> [4, 5, 6]]"
    by (simp_all add: render_def slots_complete_def slots upt_rec)
  then show ?thesis
    using receiver_implements_slots [OF toy_ready sample_key_ok fits, of sample_world "''/tmp/b.bin''" "[]"] table
    by (auto simp: sample_world_def sample_disk_def vec_limit_def slots)
qed

section \<open>The transport\<close>

text \<open>
  After \<open>ConnectPeers(a, b)\<close> and \<open>SetOnDataReceived\<close> on \<open>b\<close>, the blocks sent through \<open>a\<close> reach that
  callback whole, in order and with the name of \<open>a\<close>, and an exception of the callback stops the sender;
  the peer named in the call plays no part.
\<close>

theorem loopback_delivers_in_order:
  assumes "h a = Some ta" and "h b = Some tb" and "ConnectPeers a b h = Inr h1"
    and "SetOnDataReceived b (Some cb) h1 = Inr h2"
  shows "deliver_all (Send h2 a to) ds u = deliver_all (cb (self_id ta)) ds u"
proof -
  have "loopback_linked h2 a (self_id ta) cb"
    using ConnectPeers_links [OF assms(1,2)] assms(3,4) by (metis sum.inject(2))
  then show ?thesis by (rule loopback.send_in_order)
qed

definition log_callback :: "(string \<times> bytes) list data_callback" where
  "log_callback from_peer d log = (Inr (), log @ [(from_peer, d)])"

theorem loopback_delivers_in_order_witness:
  "\<exists>h. deliver_all (Send h 0 ''nobody'') [[1], [2, 3]] [] = (Inr (), [(''alice'', [1 :: u8]), (''alice'', [2, 3])])"
proof -
  let ?h = "LoopbackTransport_new 1 ''bob'' (LoopbackTransport_new 0 ''alice'' (\<lambda>_. None))
    :: (string \<times> bytes) list loopbacks"
  let ?a = "\<lparr>self_id = ''alice'', peer = None, on_data = None\<rparr> :: (string \<times> bytes) list data_callback LoopbackTransport"
  let ?b = "\<lparr>self_id = ''bob'', peer = None, on_data = None\<rparr> :: (string \<times> bytes) list data_callback LoopbackTransport"
  have a: "?h 0 = Some ?a" and b: "?h 1 = Some ?b"
    by (simp_all add: LoopbackTransport_new_def)
  obtain h1 h2 where h: "ConnectPeers 0 1 ?h = Inr h1" "SetOnDataReceived 1 (Some log_callback) h1 = Inr h2"
    using ConnectPeers_links [of ?h 0 ?a 1 ?b] a b by blast
  from loopback_delivers_in_order [OF a b h, of "''nobody''" "[[1], [2, 3]]" "[]"] show ?thesis
    by (intro exI [of _ h2]) (simp add: log_callback_def)
qed

section \<open>A network that cannot be trusted\<close>

text \<open>
  C3: a hostile network is noticed. A file is offered and cut into sealed chunks, and a receiver made from the
  offer; then the network hands any blocks of bytes to the receiving callback: the chunks again or not at all, in any
  order, under other indices, cut or damaged, or bytes of its own, as long as none carries a chunk that opens
  and was not sealed by the sender. Then only the output file is changed; it never grows past the last
  block, every byte of it is zero or a byte of the sent file from the same place of some block, and the integrity
  check says whether its hash is that of the sent file. So a file that passes the check is the sent
  file, unless the hash collides.
\<close>

theorem hostile_network_is_noticed:
  assumes "digest_ready dlib H" and "cipher_ready lib" and "key_ok key"
    and "transferable (disk w) src dst content"
    and "PrepareFileOffer dlib src w = (Inr offer, w1)"
    and "collect_chunks lib key src w1 = (Inr sent, w2)"
    and "FileReceiver_new dst (file_size offer) (total_chunks offer) (sha256 offer) w2 = (Inr r, w3)"
    and "\<forall>raw \<in> set traffic. unforged lib key sent raw"
    and "attempt_all (bob_on_data lib key peer_name) traffic (w3, r) = (outcomes, (w4, r4))"
  shows "\<exists>f. files (disk w4) = (files (disk w))(dst \<mapsto> f) \<and>
    length f \<le> num_chunks content * unat kChunkSize \<and>
    (\<forall>j < length f. f ! j = 0 \<or>
       (\<exists>i < num_chunks content. j mod unat kChunkSize < length (block content i) \<and>
          f ! j = block content i ! (j mod unat kChunkSize))) \<and>
    fst (VerifyIntegrity dlib r4 w4) = Inr (H f = H content)"
proof -
  note start = receiver_attacked [OF assms(1-7)]
  obtain f where f: "files (disk w4) = (files (disk w))(dst \<mapsto> f)" "patchwork content f"
      "fst (VerifyIntegrity dlib r4 w4) = Inr (H f = H content)"
    by (rule attacked_verified [OF traffic_attacked [OF start(2) assms(8) start(1) assms(9)] assms(1)])
  then show ?thesis by (intro exI [of _ f]) (simp add: patchwork_def)
qed

text \<open>The chunk of the sample file under a wrong index, three bytes that are no message, and the chunk itself.\<close>

theorem hostile_network_is_noticed_witness:
  "\<exists>offer w1 s w2 r w3 outcomes w4 r4 f. PrepareFileOffer toy_digest ''/tmp/a.bin'' sample_world = (Inr offer, w1) \<and>
    collect_chunks toy_cipher sample_key ''/tmp/a.bin'' w1 = (Inr [s], w2) \<and>
    FileReceiver_new ''/tmp/b.bin'' (file_size offer) (total_chunks offer) (sha256 offer) w2 = (Inr r, w3) \<and>
    attempt_all (bob_on_data toy_cipher sample_key ''mallory'')
      [FrameMessage kChunk (EncodeChunk (s\<lparr>chunk_index := 7\<rparr>)), [1, 2, 3], FrameMessage kChunk (EncodeChunk s)] (w3, r)
      = (outcomes, (w4, r4)) \<and>
    files (disk w4) = (files (disk sample_world))(''/tmp/b.bin'' \<mapsto> f) \<and> length f \<le> 16384 \<and>
    fst (VerifyIntegrity toy_digest r4 w4) = Inr (toy_H f = toy_H sample_content)"
proof -
  let ?lib = "toy_cipher" and ?key = "sample_key" and ?src = "''/tmp/a.bin''" and ?dst = "''/tmp/b.bin''"
  obtain offer os where offer: "PrepareFileOffer toy_digest ?src sample_world = (Inr offer, sample_world\<lparr>openssl := os\<rparr>)"
      "offers offer sample_content (toy_H sample_content)"
      "transferable (disk (sample_world\<lparr>openssl := os\<rparr>)) ?src ?dst sample_content"
    by (rule transferable_offer [OF toy_digest_ready sample_transferable])
  obtain os' cs where cs: "collect_chunks ?lib ?key ?src (sample_world\<lparr>openssl := os\<rparr>) = (Inr cs, sample_world\<lparr>openssl := os\<rparr>\<lparr>openssl := os'\<rparr>)"
      "list_all2 (chunk_of ?lib ?key sample_content) [0..<num_chunks sample_content] cs"
    by (rule collect_chunks_all [OF toy_ready sample_key_ok offer(3)])
  have one: "num_chunks sample_content = 1" by (simp add: num_chunks_def sample_content_def)
  then obtain s where s: "cs = [s]" "chunk_of ?lib ?key sample_content 0 s"
    using cs(2) by (auto simp: list_all2_Cons1)
  obtain r w3 where new: "FileReceiver_new ?dst (file_size offer) (total_chunks offer) (sha256 offer) (sample_world\<lparr>openssl := os\<rparr>\<lparr>openssl := os'\<rparr>)
      = (Inr r, w3)"
    using FileReceiver_new_file [of "sample_world\<lparr>openssl := os\<rparr>\<lparr>openssl := os'\<rparr>" ?dst] by (auto simp: sample_world_def sample_disk_def)
  let ?m = "\<lambda>c. FrameMessage kChunk (EncodeChunk c)"
  let ?traffic = "[?m (s\<lparr>chunk_index := 7\<rparr>), [1, 2, 3], ?m s]"
  have ok: "chunk_ok s" by (rule chunk_of_ok [OF s(2)])
  then have ok': "chunk_ok (s\<lparr>chunk_index := 7\<rparr>)" by (simp add: chunk_ok_def)
  have "carried [1, 2, 3] = None" by (simp add: carried_def ParseHeader_cases kHeaderSize_def)
  then have "\<forall>raw \<in> set ?traffic. unforged ?lib ?key [s] raw"
    using carried_framed [OF ok] carried_framed [OF ok'] framed_chunk_fits [OF ok] framed_chunk_fits [OF ok']
    by (auto simp: unforged_def replays_def vec_limit_def)
  moreover obtain outcomes w4 r4 where
    "attempt_all (bob_on_data ?lib ?key ''mallory'') ?traffic (w3, r) = (outcomes, (w4, r4))"
    by (metis prod.collapse)
  ultimately show ?thesis
    using hostile_network_is_noticed [OF toy_digest_ready toy_ready sample_key_ok sample_transferable
        offer(1) cs(1) new, unfolded s(1)] offer(1) cs(1) new one s(1) by fastforce
qed

end
