(* ===== verification/Loopback_Clients.thy ===== *)
theory Loopback_Clients
  imports Transport
begin

text \<open>
  Loopback transports whose callbacks call transports again. \<open>Send\<close> runs the callback of the peer before it
  returns, so a reply sent from a callback is a nested call: such code may not come back. What a piece of
  code does is therefore a partial function, and its termination a theorem.
\<close>

section \<open>The methods\<close>

type_synonym 'u loop_client = "(address, 'u) client"
type_synonym 'u loop_callback = "string \<Rightarrow> bytes \<Rightarrow> 'u \<Rightarrow> 'u loop_client"
type_synonym 'u loop_store = "'u loop_callback loopback_store"

text \<open>
  What a method does to the transports, and the callback that it runs as its last action, if any.
\<close>

definition loopback_method ::
    "'u loop_store \<Rightarrow> address \<Rightarrow> (address, 'u) transport_call \<Rightarrow>
     ('u loop_store \<times> ('u \<Rightarrow> 'u loop_client) option) result" where
  "loopback_method h a c =
     (case c of
        CallStartAdvertising _ \<Rightarrow> Inr (h, None)
      | CallStopAdvertising \<Rightarrow> Inr (h, None)
      | CallStartScanning _ \<Rightarrow> Inr (h, None)
      | CallStopScanning \<Rightarrow> Inr (h, None)
      | CallConnect _ on_result \<Rightarrow> Inr (h, map_option (\<lambda>f. f True) on_result)
      | CallDisconnect _ \<Rightarrow> Inr (h, None)
      | CallSend _ data \<Rightarrow>
          res_bind (deref h a) (\<lambda>this.
          case peer this of
            None \<Rightarrow> Inr (h, None)
          | Some p \<Rightarrow>
              res_bind (deref h p) (\<lambda>t. Inr (h, map_option (\<lambda>cb. cb (self_id this) data) (on_data t))))
      | CallSetOnDataReceived cb \<Rightarrow> res_bind (SetOnDataReceived a cb h) (\<lambda>h. Inr (h, None)))"

text \<open>
  Running a piece of code against the transports: \<open>None\<close> when it never ends. An exception of a callback
  passes through the method that ran it.
\<close>

partial_function (option) run_client ::
    "'u loop_store \<Rightarrow> 'u loop_client \<Rightarrow> (unit result \<times> 'u loop_store \<times> 'u) option" where
  "run_client h code =
     (case code of
        Return u \<Rightarrow> Some (Inr (), h, u)
      | Throw e u \<Rightarrow> Some (Inl e, h, u)
      | Call a c u k \<Rightarrow>
          (case loopback_method h a c of
             Inl e \<Rightarrow> Some (Inl e, h, u)
           | Inr (h, None) \<Rightarrow> run_client h (k u)
           | Inr (h, Some f) \<Rightarrow>
               Option.bind (run_client h (f u)) (\<lambda>(r, h, u).
               case r of Inl e \<Rightarrow> Some (Inl e, h, u) | Inr _ \<Rightarrow> run_client h (k u))))"

lemma run_client_simps [simp]:
  "run_client h (Return u) = Some (Inr (), h, u)"
  "run_client h (Throw e u) = Some (Inl e, h, u)"
  by (simp_all add: run_client.simps)

lemma run_client_error:
  "loopback_method h a c = Inl e \<Longrightarrow> run_client h (Call a c u k) = Some (Inl e, h, u)"
  by (simp add: run_client.simps)

lemma run_client_quiet:
  "loopback_method h a c = Inr (h', None) \<Longrightarrow> run_client h (Call a c u k) = run_client h' (k u)"
  by (subst run_client.simps) simp

lemma run_client_callback:
  "loopback_method h a c = Inr (h', Some f) \<Longrightarrow>
    run_client h (Call a c u k) =
      Option.bind (run_client h' (f u)) (\<lambda>(r, h, u).
        case r of Inl e \<Rightarrow> Some (Inl e, h, u) | Inr _ \<Rightarrow> run_client h (k u))"
  by (subst run_client.simps) simp

section \<open>Callbacks that call nothing\<close>

text \<open>
  A callback that only acts on its state is a client that ends at once. On transports with such callbacks
  a call of \<open>Send\<close> is the function \<open>Send\<close>, so what was proved about that function holds of the interface.
\<close>

definition plain_callback :: "'u data_callback \<Rightarrow> string \<Rightarrow> bytes \<Rightarrow> 'u \<Rightarrow> ('a, 'u) client" where
  "plain_callback cb from_peer d u =
     (case cb from_peer d u of (Inl e, u) \<Rightarrow> Throw e u | (Inr _, u) \<Rightarrow> Return u)"

definition plain_transport :: "'u data_callback LoopbackTransport \<Rightarrow> 'u loop_callback LoopbackTransport" where
  "plain_transport t =
     \<lparr>self_id = self_id t, peer = peer t, on_data = map_option plain_callback (on_data t)\<rparr>"

definition plain_store :: "'u loopbacks \<Rightarrow> 'u loop_store" where
  "plain_store h a = map_option plain_transport (h a)"

lemma plain_transport_simps [simp]:
  "self_id (plain_transport t) = self_id t"
  "peer (plain_transport t) = peer t"
  "on_data (plain_transport t) = map_option plain_callback (on_data t)"
  by (simp_all add: plain_transport_def)

lemma run_client_Send:
  "run_client (plain_store h) (Call a (CallSend to d) u k) =
     (case Send h a to d u of
        (Inl e, u) \<Rightarrow> Some (Inl e, plain_store h, u)
      | (Inr _, u) \<Rightarrow> run_client (plain_store h) (k u))"
  by (subst run_client.simps)
     (auto simp: loopback_method_def Send_def deref_def plain_store_def plain_callback_def
        split: option.split sum.split prod.split)

text \<open>The loop \<open>for (auto& d : ds) a.Send(to, d);\<close>.\<close>

primrec send_each :: "'a \<Rightarrow> string \<Rightarrow> bytes list \<Rightarrow> 'u \<Rightarrow> ('a, 'u) client" where
  "send_each a to [] = Return"
| "send_each a to (d # ds) = (\<lambda>u. Call a (CallSend to d) u (send_each a to ds))"

lemma run_send_each:
  "run_client (plain_store h) (send_each a to ds u) =
     (case deliver_all (Send h a to) ds u of (r, u) \<Rightarrow> Some (r, plain_store h, u))"
  by (induction ds arbitrary: u) (simp_all add: run_client_Send split: prod.split sum.split)

section \<open>Code that comes back\<close>

text \<open>
  A measure \<open>m\<close> on blocks. A piece of code is \<open>modest\<close> below \<open>n\<close> when every block it sends measures less
  than \<open>n\<close>, the callbacks it hands to \<open>Connect\<close> are modest below \<open>n\<close>, and those it installs answer any block
  with smaller ones.
\<close>

inductive modest :: "(bytes \<Rightarrow> nat) \<Rightarrow> nat \<Rightarrow> 'u loop_client \<Rightarrow> bool" for m where
  return: "modest m n (Return u)"
| throw: "modest m n (Throw e u)"
| send: "m d < n \<Longrightarrow> (\<And>u. modest m n (k u)) \<Longrightarrow> modest m n (Call a (CallSend to d) u k)"
| connect: "(\<And>g b u. f = Some g \<Longrightarrow> modest m n (g b u)) \<Longrightarrow> (\<And>u. modest m n (k u)) \<Longrightarrow>
    modest m n (Call a (CallConnect p f) u k)"
| set_callback: "(\<And>g from_peer d u. f = Some g \<Longrightarrow> modest m (m d) (g from_peer d u)) \<Longrightarrow>
    (\<And>u. modest m n (k u)) \<Longrightarrow> modest m n (Call a (CallSetOnDataReceived f) u k)"
| no_effect: "c \<in> {CallStartAdvertising s, CallStopAdvertising, CallStartScanning sc, CallStopScanning,
    CallDisconnect s} \<Longrightarrow> (\<And>u. modest m n (k u)) \<Longrightarrow> modest m n (Call a c u k)"

definition modest_callback :: "(bytes \<Rightarrow> nat) \<Rightarrow> 'u loop_callback \<Rightarrow> bool" where
  "modest_callback m cb \<longleftrightarrow> (\<forall>from_peer d u. modest m (m d) (cb from_peer d u))"

definition modest_store :: "(bytes \<Rightarrow> nat) \<Rightarrow> 'u loop_store \<Rightarrow> bool" where
  "modest_store m h \<longleftrightarrow> (\<forall>a t cb. h a = Some t \<longrightarrow> on_data t = Some cb \<longrightarrow> modest_callback m cb)"

definition comes_back :: "(bytes \<Rightarrow> nat) \<Rightarrow> 'u loop_store \<Rightarrow> 'u loop_client \<Rightarrow> bool" where
  "comes_back m h code \<longleftrightarrow> (\<exists>r h' u. run_client h code = Some (r, h', u) \<and> modest_store m h')"

lemma comes_back_call:
  assumes "loopback_method h a c = Inr (h', Some f)" and "comes_back m h' (f u)"
    and "\<And>h u. modest_store m h \<Longrightarrow> comes_back m h (k u)"
  shows "comes_back m h (Call a c u k)"
  using assms by (fastforce simp: comes_back_def run_client_callback split: sum.split)

lemma comes_back_quiet:
  assumes "loopback_method h a c = Inr (h', None)" and "comes_back m h' (k u)"
  shows "comes_back m h (Call a c u k)"
  using assms by (simp add: comes_back_def run_client_quiet)

lemma comes_back_error:
  assumes "loopback_method h a c = Inl e" and "modest_store m h"
  shows "comes_back m h (Call a c u k)"
  using assms by (simp add: comes_back_def run_client_error)

text \<open>The callback that a \<open>Send\<close> runs is one of those in the store.\<close>

lemma loopback_method_send:
  assumes "loopback_method h a (CallSend to d) = Inr (h', f)"
  obtains (dropped) "h' = h" and "f = None"
  | (delivered) cb from_peer p t where "h' = h" and "f = Some (cb from_peer d)" and "h p = Some t"
      and "on_data t = Some cb"
  using assms
  by (auto simp: loopback_method_def deref_def split: option.splits) blast

lemma SetOnDataReceived_modest:
  assumes "modest_store m h" and "SetOnDataReceived a f h = Inr h'"
    and "\<And>g. f = Some g \<Longrightarrow> modest_callback m g"
  shows "modest_store m h'"
  using assms
  by (auto simp: SetOnDataReceived_def deref_def modest_store_def split: option.splits if_splits)

text \<open>By induction on the bound, and for one bound along the code.\<close>

text \<open>The call that can run a callback: the callback answers with smaller blocks, and the caller goes on.\<close>

lemma send_comes_back:
  fixes k :: "'u \<Rightarrow> 'u loop_client"
  assumes smaller: "\<And>h (code :: 'u loop_client). modest m (m d) code \<Longrightarrow> modest_store m h \<Longrightarrow> comes_back m h code"
    and store: "modest_store m h"
    and rest: "\<And>u h. modest_store m h \<Longrightarrow> comes_back m h (k u)"
  shows "comes_back m h (Call a (CallSend to d) u k)"
proof (cases "loopback_method h a (CallSend to d)")
  case (Inr res)
  obtain h' f where res: "res = (h', f)" by (cases res)
  from Inr res have "loopback_method h a (CallSend to d) = Inr (h', f)" by simp
  then show ?thesis
  proof (cases rule: loopback_method_send)
    case dropped
    with Inr res store rest show ?thesis by (intro comes_back_quiet) simp_all
  next
    case (delivered cb from_peer p t)
    then have "modest m (m d) (cb from_peer d u)"
      using store by (simp add: modest_store_def modest_callback_def)
    then have "comes_back m h' (cb from_peer d u)" using smaller store delivered(1) by simp
    then show ?thesis
      using Inr res delivered(2) rest by (intro comes_back_call) simp_all
  qed
qed (use store in \<open>simp add: comes_back_error\<close>)

lemma modest_comes_back_below:
  fixes code :: "'u loop_client"
  assumes smaller: "\<And>h (code :: 'u loop_client) i. i < n \<Longrightarrow> modest m i code \<Longrightarrow> modest_store m h \<Longrightarrow> comes_back m h code"
    and "modest m b code" and "b \<le> n" and "modest_store m h"
  shows "comes_back m h code"
  using assms(2-4)
proof (induction arbitrary: h rule: modest.induct)
  case (send d b k a to u)
  have "m d < n" using send.hyps(1) send.prems(1) by simp
  with smaller send.prems(2) send.IH [OF send.prems(1)] show ?case by (intro send_comes_back) simp_all
next
  case (connect f b k a p u)
  show ?case
  proof (cases f)
    case None
    with connect show ?thesis by (intro comes_back_quiet) (auto simp: loopback_method_def)
  next
    case (Some g)
    with connect show ?thesis
      by (intro comes_back_call [where f = "g True"]) (auto simp: loopback_method_def)
  qed
next
  case (set_callback f b k a u)
  show ?case
  proof (cases "SetOnDataReceived a f h")
    case (Inr h')
    have "modest_store m h'"
      using SetOnDataReceived_modest [OF set_callback.prems(2) Inr] set_callback.hyps(1)
      by (simp add: modest_callback_def)
    then show ?thesis
      using Inr set_callback.IH(2) [OF set_callback.prems(1)]
      by (intro comes_back_quiet) (simp_all add: loopback_method_def)
  qed (use set_callback.prems in \<open>simp add: comes_back_error loopback_method_def\<close>)
next
  case (no_effect c s sc b k a u)
  then show ?case by (intro comes_back_quiet) (auto simp: loopback_method_def)
qed (simp_all add: comes_back_def)

lemma modest_comes_back: "modest m n code \<Longrightarrow> modest_store m h \<Longrightarrow> comes_back m h code"
proof (induction n arbitrary: code h rule: less_induct)
  case (less n)
  show ?case by (rule modest_comes_back_below [OF less.IH less.prems(1) order_refl less.prems(2)])
qed

section \<open>Code that never comes back\<close>

text \<open>A callback that sends every block back.\<close>

definition echo :: "address \<Rightarrow> 'u loop_callback" where
  "echo a from_peer d u = Call a (CallSend from_peer d) u Return"

definition echoing :: "'u loop_store \<Rightarrow> address \<Rightarrow> address \<Rightarrow> bool" where
  "echoing h a b \<longleftrightarrow> (\<exists>s t. h a = Some \<lparr>self_id = s, peer = Some b, on_data = Some (echo a)\<rparr> \<and>
     h b = Some \<lparr>self_id = t, peer = Some a, on_data = Some (echo b)\<rparr>)"

lemma echoing_method:
  assumes "echoing h a b" and "x \<in> {a, b}"
  shows "\<exists>me. loopback_method h x (CallSend to d) = Inr (h, Some (echo (if x = a then b else a) me d))"
  using assms by (auto simp: echoing_def loopback_method_def deref_def)

definition sends_between :: "address \<Rightarrow> address \<Rightarrow> 'u loop_client \<Rightarrow> bool" where
  "sends_between a b code \<longleftrightarrow> (\<exists>x \<in> {a, b}. \<exists>to d u k. code = Call x (CallSend to d) u k)"

lemma sends_between_echo: "y \<in> {a, b} \<Longrightarrow> sends_between a b (echo y me d u)"
  by (auto simp: sends_between_def echo_def)

lemma echo_never_ends:
  assumes "run_client h code = Some r"
  shows "\<not> (echoing h a b \<and> sends_between a b code)"
proof (rule run_client.raw_induct [where P = "\<lambda>h code r. \<not> (echoing h a b \<and> sends_between a b code)", OF _ assms])
  fix run h code r
  assume IH: "\<And>h code r. run h code = Some r \<Longrightarrow> \<not> (echoing h a b \<and> sends_between a b code)"
    and body: "(case code of
        Return u \<Rightarrow> Some (Inr (), h, u)
      | Throw e u \<Rightarrow> Some (Inl e, h, u)
      | Call a c u k \<Rightarrow>
          (case loopback_method h a c of
             Inl e \<Rightarrow> Some (Inl e, h, u)
           | Inr (h, None) \<Rightarrow> run h (k u)
           | Inr (h, Some f) \<Rightarrow>
               Option.bind (run h (f u)) (\<lambda>(r, h, u).
               case r of Inl e \<Rightarrow> Some (Inl e, h, u) | Inr _ \<Rightarrow> run h (k u)))) = Some r"
  show "\<not> (echoing h a b \<and> sends_between a b code)"
  proof
    assume "echoing h a b \<and> sends_between a b code"
    then obtain x to d u k where e: "echoing h a b" and x: "x \<in> {a, b}" and code: "code = Call x (CallSend to d) u k"
      by (auto simp: sends_between_def)
    let ?y = "if x = a then b else a"
    from echoing_method [OF e x] obtain me where
      "loopback_method h x (CallSend to d) = Inr (h, Some (echo ?y me d))" by blast
    with body code obtain r' where "run h (echo ?y me d u) = Some r'"
      by (cases "run h (echo ?y me d u)") auto
    from IH [OF this] e show False by (simp add: sends_between_echo)
  qed
qed

end
