(* ===== verification/Adapter.thy ===== *)
theory Adapter
  imports Loopback_Clients "HOL-Library.AList"
begin

text \<open>
  \<open>BluetoothTransportAdapter\<close> of \<open>platform/macos/BluetoothBridge.mm\<close>: the C++ object between the clients of
  \<open>ITransport\<close> and CoreBluetooth. It stores callbacks and calls them when the Objective-C side reports an
  event. The methods whose body in the source is a comment (advertising, \<open>StopScanning\<close>, \<open>Disconnect\<close>,
  \<open>Send\<close>) do nothing, and nothing is what they do here.
\<close>

section \<open>Unordered maps\<close>

text \<open>
  \<open>std::unordered_map<std::string, V>\<close>: at most one entry per key, and a generation that a rehash
  advances. An insertion may rehash, and that invalidates every iterator; when it does is up to the
  library, the parameter \<open>rehash\<close> of the number of entries. An iterator that is used when it is invalid is
  undefined behaviour.
\<close>

record 'v unordered_map =
  entries :: "(string \<times> 'v) list"
  generation :: nat

record iterator =
  it_key :: string
  it_generation :: nat

definition map_empty :: "'v unordered_map" where
  "map_empty = \<lparr>entries = [], generation = 0\<rparr>"

definition map_find :: "'v unordered_map \<Rightarrow> string \<Rightarrow> iterator option" where
  "map_find m k =
     (if map_of (entries m) k = None then None
      else Some \<lparr>it_key = k, it_generation = generation m\<rparr>)"

definition map_deref :: "'v unordered_map \<Rightarrow> iterator \<Rightarrow> 'v result" where
  "map_deref m it =
     (if it_generation it = generation m
      then (case map_of (entries m) (it_key it) of None \<Rightarrow> Inl OutOfBounds | Some v \<Rightarrow> Inr v)
      else Inl OutOfBounds)"

definition map_erase :: "'v unordered_map \<Rightarrow> iterator \<Rightarrow> 'v unordered_map result" where
  "map_erase m it =
     res_bind (map_deref m it) (\<lambda>_. Inr (m\<lparr>entries := AList.delete (it_key it) (entries m)\<rparr>))"

text \<open>\<open>m[k] = v\<close>\<close>

definition map_assign :: "(nat \<Rightarrow> bool) \<Rightarrow> string \<Rightarrow> 'v \<Rightarrow> 'v unordered_map \<Rightarrow> 'v unordered_map" where
  "map_assign rehash k v m =
     m\<lparr>entries := AList.update k v (entries m),
       generation :=
         if map_of (entries m) k = None \<and> rehash (length (entries m)) then Suc (generation m)
         else generation m\<rparr>"

section \<open>The adapter\<close>

text \<open>The identifiers by which two devices find each other, from \<open>BluetoothBridge.h\<close>.\<close>

definition kAirdropServiceUUID :: string where
  "kAirdropServiceUUID = ''E7810A71-73AE-499D-8C15-FAA9AAA5D172''"

definition kAirdropRxCharUUID :: string where
  "kAirdropRxCharUUID = ''BEF8D6C9-9C21-4C9E-B632-BD58C1009F9C''"

definition kAirdropTxCharUUID :: string where
  "kAirdropTxCharUUID = ''CA73B3BA-39F6-4A50-8B31-8F82E1CF9F9E''"

lemma uuids_distinct: "distinct [kAirdropServiceUUID, kAirdropRxCharUUID, kAirdropTxCharUUID]"
  by (simp add: kAirdropServiceUUID_def kAirdropRxCharUUID_def kAirdropTxCharUUID_def)

type_synonym 'u adapter_client = "(unit, 'u) client"
type_synonym 'u connect_callback = "bool \<Rightarrow> 'u \<Rightarrow> 'u adapter_client"

record 'u BluetoothTransportAdapter =
  on_peer_found :: "(PeerInfo \<Rightarrow> 'u \<Rightarrow> 'u adapter_client) option"
  on_data_received :: "(string \<Rightarrow> bytes \<Rightarrow> 'u \<Rightarrow> 'u adapter_client) option"
  pending_connect_callbacks :: "'u connect_callback option unordered_map"

definition BluetoothTransportAdapter_new :: "'u BluetoothTransportAdapter" where
  "BluetoothTransportAdapter_new =
     \<lparr>on_peer_found = None, on_data_received = None, pending_connect_callbacks = map_empty\<rparr>"

text \<open>The methods of \<open>ITransport\<close>. None of them runs a callback.\<close>

definition adapter_method ::
    "(nat \<Rightarrow> bool) \<Rightarrow> (unit, 'u) transport_call \<Rightarrow> 'u BluetoothTransportAdapter \<Rightarrow> 'u BluetoothTransportAdapter" where
  "adapter_method rehash c this =
     (case c of
        CallStartAdvertising _ \<Rightarrow> this
      | CallStopAdvertising \<Rightarrow> this
      | CallStartScanning cb \<Rightarrow> this\<lparr>on_peer_found := cb\<rparr>
      | CallStopScanning \<Rightarrow> this
      | CallConnect p on_result \<Rightarrow>
          this\<lparr>pending_connect_callbacks := map_assign rehash p on_result (pending_connect_callbacks this)\<rparr>
      | CallDisconnect p \<Rightarrow> this
      | CallSend p data \<Rightarrow> this
      | CallSetOnDataReceived cb \<Rightarrow> this\<lparr>on_data_received := cb\<rparr>)"

text \<open>A piece of client code, run against the adapter: it always ends.\<close>

primrec run_on_adapter ::
    "(nat \<Rightarrow> bool) \<Rightarrow> 'u adapter_client \<Rightarrow> 'u BluetoothTransportAdapter \<Rightarrow>
     unit result \<times> 'u BluetoothTransportAdapter \<times> 'u" where
  "run_on_adapter rehash (Return u) = (\<lambda>this. (Inr (), this, u))"
| "run_on_adapter rehash (Throw e u) = (\<lambda>this. (Inl e, this, u))"
| "run_on_adapter rehash (Call a c u k) =
     (\<lambda>this. run_on_adapter rehash (k u) (adapter_method rehash c this))"

type_synonym 'u adapter_prog = "('u BluetoothTransportAdapter \<times> 'u, unit) prog"

definition DeliverIncomingData :: "(nat \<Rightarrow> bool) \<Rightarrow> string \<Rightarrow> bytes \<Rightarrow> 'u adapter_prog" where
  "DeliverIncomingData rehash p d s =
     (let (this, u) = s in
      case on_data_received this of
        None \<Rightarrow> (Inr (), s)
      | Some cb \<Rightarrow> run_on_adapter rehash (cb p d u) this)"

definition NotifyPeerFound :: "(nat \<Rightarrow> bool) \<Rightarrow> PeerInfo \<Rightarrow> 'u adapter_prog" where
  "NotifyPeerFound rehash info s =
     (let (this, u) = s in
      case on_peer_found this of
        None \<Rightarrow> (Inr (), s)
      | Some cb \<Rightarrow> run_on_adapter rehash (cb info u) this)"

text \<open>
  The callback is called while its entry is in the table, and it may be empty: the source does not test.
  The entry is erased through the iterator when the callback has returned. The call is made on the function
  object in the table, so that a \<open>Connect\<close> for the same peer from inside the callback assigns to the object
  that is running and destroys what it captured. Here the callback goes on all the same, as it does in C++
  when it uses no capture after that call; if it does use one, that is undefined in C++ and not in the model.
\<close>

definition NotifyConnectResult :: "(nat \<Rightarrow> bool) \<Rightarrow> string \<Rightarrow> bool \<Rightarrow> 'u adapter_prog" where
  "NotifyConnectResult rehash p success s =
     (let (this, u) = s in
      case map_find (pending_connect_callbacks this) p of
        None \<Rightarrow> (Inr (), s)
      | Some it \<Rightarrow>
          (case map_deref (pending_connect_callbacks this) it of
             Inl e \<Rightarrow> (Inl e, s)
           | Inr None \<Rightarrow> (Inl BadFunctionCall, s)
           | Inr (Some f) \<Rightarrow>
               (case run_on_adapter rehash (f success u) this of
                  (Inl e, s) \<Rightarrow> (Inl e, s)
                | (Inr _, (this, u)) \<Rightarrow>
                    (case map_erase (pending_connect_callbacks this) it of
                       Inl e \<Rightarrow> (Inl e, (this, u))
                     | Inr m \<Rightarrow> (Inr (), (this\<lparr>pending_connect_callbacks := m\<rparr>, u))))))"

section \<open>Events\<close>

text \<open>
  What happens to an adapter: code of its owner runs, or the Objective-C side reports something. An
  exception goes to whoever caused the event, and the adapter stays as it is then.
\<close>

datatype 'u adapter_event =
    ClientRuns "'u \<Rightarrow> 'u adapter_client"
  | PeerFound PeerInfo
  | DataArrived string bytes
  | ConnectResult string bool

fun on_event :: "(nat \<Rightarrow> bool) \<Rightarrow> 'u adapter_event \<Rightarrow> 'u adapter_prog" where
  "on_event rehash (ClientRuns code) s = run_on_adapter rehash (code (snd s)) (fst s)"
| "on_event rehash (PeerFound info) s = NotifyPeerFound rehash info s"
| "on_event rehash (DataArrived p d) s = DeliverIncomingData rehash p d s"
| "on_event rehash (ConnectResult p success) s = NotifyConnectResult rehash p success s"

definition after_events ::
    "(nat \<Rightarrow> bool) \<Rightarrow> 'u adapter_event list \<Rightarrow> 'u BluetoothTransportAdapter \<times> 'u \<Rightarrow>
     'u BluetoothTransportAdapter \<times> 'u" where
  "after_events rehash es s = foldl (\<lambda>s e. snd (on_event rehash e s)) s es"

lemma after_events_simps [simp]:
  "after_events rehash [] s = s"
  "after_events rehash (e # es) s = after_events rehash es (snd (on_event rehash e s))"
  by (simp_all add: after_events_def)

section \<open>The table of pending connections\<close>

lemma map_assign_lookup [simp]:
  "map_of (entries (map_assign rehash k v m)) = (map_of (entries m))(k \<mapsto> v)"
  by (simp add: map_assign_def update_conv')

lemma map_erase_lookup:
  "map_erase m it = Inr m' \<Longrightarrow>
    map_of (entries m') = (map_of (entries m))(it_key it := None) \<and> generation m' = generation m"
  by (auto simp: map_erase_def delete_conv')

lemma map_find_deref:
  "map_find m k = Some it \<Longrightarrow> it_key it = k \<and> (\<exists>v. map_of (entries m) k = Some v \<and> map_deref m it = Inr v)"
  by (auto simp: map_find_def map_deref_def split: if_splits)

lemma map_find_None: "map_find m k = None \<longleftrightarrow> map_of (entries m) k = None"
  by (simp add: map_find_def)

abbreviation pending_of :: "'u BluetoothTransportAdapter \<Rightarrow> string \<rightharpoonup> 'u connect_callback option" where
  "pending_of this \<equiv> map_of (entries (pending_connect_callbacks this))"

text \<open>The adapter without the entry of \<open>p\<close>.\<close>

definition forget :: "string \<Rightarrow> 'u BluetoothTransportAdapter \<Rightarrow> 'u BluetoothTransportAdapter" where
  "forget p this = this\<lparr>pending_connect_callbacks := (pending_connect_callbacks this)
     \<lparr>entries := AList.delete p (entries (pending_connect_callbacks this))\<rparr>\<rparr>"

lemma forget_simps [simp]:
  "on_peer_found (forget p this) = on_peer_found this"
  "on_data_received (forget p this) = on_data_received this"
  "pending_of (forget p this) = (pending_of this)(p := None)"
  "generation (pending_connect_callbacks (forget p this)) = generation (pending_connect_callbacks this)"
  by (simp_all add: forget_def delete_conv')

text \<open>A reported connection, one equation per way out.\<close>

lemma NotifyConnectResult_unknown:
  "pending_of this p = None \<Longrightarrow> NotifyConnectResult rehash p b (this, u) = (Inr (), (this, u))"
  by (simp add: NotifyConnectResult_def map_find_def)

lemma NotifyConnectResult_empty:
  "pending_of this p = Some None \<Longrightarrow> NotifyConnectResult rehash p b (this, u) = (Inl BadFunctionCall, (this, u))"
  by (simp add: NotifyConnectResult_def map_find_def map_deref_def)

lemma NotifyConnectResult_throws:
  assumes "pending_of this p = Some (Some f)" and "run_on_adapter rehash (f b u) this = (Inl e, s')"
  shows "NotifyConnectResult rehash p b (this, u) = (Inl e, s')"
  using assms by (simp add: NotifyConnectResult_def map_find_def map_deref_def)

lemma NotifyConnectResult_returns:
  assumes "pending_of this p = Some (Some f)" and "run_on_adapter rehash (f b u) this = (Inr (), (this', u'))"
  shows "NotifyConnectResult rehash p b (this, u) =
    (if generation (pending_connect_callbacks this') = generation (pending_connect_callbacks this) \<and>
        pending_of this' p \<noteq> None
     then (Inr (), (forget p this', u'))
     else (Inl OutOfBounds, (this', u')))"
  using assms
  by (auto simp: NotifyConnectResult_def map_find_def map_erase_def map_deref_def forget_def split: option.split)

lemma NotifyConnectResult_elim:
  assumes "NotifyConnectResult rehash p b (this, u) = (r, (this', u'))"
  obtains (not_called) "this' = this" and "u' = u" and "\<forall>f. pending_of this p \<noteq> Some (Some f)"
  | (called) f r1 t1 where "pending_of this p = Some (Some f)"
      and "run_on_adapter rehash (f b u) this = (r1, (t1, u'))" and "this' = t1 \<or> this' = forget p t1"
proof -
  consider "pending_of this p = None" | "pending_of this p = Some None"
    | f where "pending_of this p = Some (Some f)"
    by (cases "pending_of this p") auto
  then show thesis
  proof cases
    case (3 f)
    obtain r1 t1 u1 where run: "run_on_adapter rehash (f b u) this = (r1, (t1, u1))"
      by (metis prod.collapse)
    have "u1 = u' \<and> (this' = t1 \<or> this' = forget p t1)"
    proof (cases r1)
      case (Inl e)
      with NotifyConnectResult_throws [OF 3] run assms show ?thesis by simp
    next
      case (Inr x)
      with NotifyConnectResult_returns [OF 3] run assms show ?thesis
        by (auto split: if_splits)
    qed
    with called [OF 3] run show thesis by blast
  qed (use assms not_called in \<open>simp_all add: NotifyConnectResult_unknown NotifyConnectResult_empty\<close>)
qed

section \<open>Code that leaves a peer alone\<close>

text \<open>
  A piece of code avoids the peer \<open>p\<close> when neither it nor any callback it installs calls \<open>Connect\<close> for \<open>p\<close>.
\<close>

inductive avoids :: "string \<Rightarrow> 'u adapter_client \<Rightarrow> bool" for p where
  return: "avoids p (Return u)"
| throw: "avoids p (Throw e u)"
| connect: "q \<noteq> p \<Longrightarrow> (\<And>g b u. f = Some g \<Longrightarrow> avoids p (g b u)) \<Longrightarrow> (\<And>u. avoids p (k u)) \<Longrightarrow>
    avoids p (Call a (CallConnect q f) u k)"
| scan: "(\<And>g i u. f = Some g \<Longrightarrow> avoids p (g i u)) \<Longrightarrow> (\<And>u. avoids p (k u)) \<Longrightarrow>
    avoids p (Call a (CallStartScanning f) u k)"
| set_callback: "(\<And>g q d u. f = Some g \<Longrightarrow> avoids p (g q d u)) \<Longrightarrow> (\<And>u. avoids p (k u)) \<Longrightarrow>
    avoids p (Call a (CallSetOnDataReceived f) u k)"
| no_effect: "c \<in> {CallStartAdvertising s, CallStopAdvertising, CallStopScanning, CallDisconnect s, CallSend s d} \<Longrightarrow>
    (\<And>u. avoids p (k u)) \<Longrightarrow> avoids p (Call a c u k)"

inductive_cases avoids_CallE: "avoids p (Call a c u k)"

text \<open>The callbacks an adapter holds, apart from the one of \<open>p\<close> itself, avoid \<open>p\<close>.\<close>

definition callbacks_avoid :: "string \<Rightarrow> 'u BluetoothTransportAdapter \<Rightarrow> bool" where
  "callbacks_avoid p this \<longleftrightarrow>
     (\<forall>g i u. on_peer_found this = Some g \<longrightarrow> avoids p (g i u)) \<and>
     (\<forall>g q d u. on_data_received this = Some g \<longrightarrow> avoids p (g q d u)) \<and>
     (\<forall>q g b u. q \<noteq> p \<longrightarrow> pending_of this q = Some (Some g) \<longrightarrow> avoids p (g b u))"

lemma adapter_method_avoids:
  assumes "avoids p (Call a c u k)" and "callbacks_avoid p this"
  shows "callbacks_avoid p (adapter_method rehash c this)"
    and "pending_of (adapter_method rehash c this) p = pending_of this p"
    and "avoids p (k u')"
proof -
  show "callbacks_avoid p (adapter_method rehash c this)"
    using assms by (auto elim!: avoids_CallE simp: adapter_method_def callbacks_avoid_def split: if_splits)
  show "pending_of (adapter_method rehash c this) p = pending_of this p"
    using assms(1) by (auto elim!: avoids_CallE simp: adapter_method_def)
  show "avoids p (k u')"
    using assms(1) by (auto elim!: avoids_CallE)
qed

lemma run_on_adapter_avoids:
  assumes "avoids p code" and "callbacks_avoid p this"
    and "run_on_adapter rehash code this = (r, (this', u'))"
  shows "callbacks_avoid p this' \<and> pending_of this' p = pending_of this p"
  using assms
proof (induction code arbitrary: this rule: client_calls_induct)
  case (Call a c u k)
  note step = adapter_method_avoids [OF Call.prems(1,2)]
  have "run_on_adapter rehash (k u) (adapter_method rehash c this) = (r, (this', u'))"
    using Call.prems(3) by simp
  from Call.IH [OF step(3,1) this] step(2) show ?case by simp
qed simp_all

text \<open>
  An event leaves \<open>p\<close> alone when it reports nothing about \<open>p\<close> and the code it runs avoids \<open>p\<close>. Such events
  keep the pending callback of \<open>p\<close>.
\<close>

fun event_avoids :: "string \<Rightarrow> 'u adapter_event \<Rightarrow> bool" where
  "event_avoids p (ClientRuns code) \<longleftrightarrow> (\<forall>u. avoids p (code u))"
| "event_avoids p (PeerFound info) \<longleftrightarrow> True"
| "event_avoids p (DataArrived q d) \<longleftrightarrow> True"
| "event_avoids p (ConnectResult q b) \<longleftrightarrow> q \<noteq> p"

lemma NotifyConnectResult_avoids:
  assumes "q \<noteq> p" and avoid: "callbacks_avoid p this"
    and notify: "NotifyConnectResult rehash q b (this, u) = (r, (this', u'))"
  shows "callbacks_avoid p this' \<and> pending_of this' p = pending_of this p"
proof (rule NotifyConnectResult_elim [OF notify])
  fix f r1 t1
  assume f: "pending_of this q = Some (Some f)" and run: "run_on_adapter rehash (f b u) this = (r1, (t1, u'))"
    and this': "this' = t1 \<or> this' = forget q t1"
  have "avoids p (f b u)" using f avoid assms(1) by (simp add: callbacks_avoid_def)
  note t1 = run_on_adapter_avoids [OF this avoid run]
  then have "callbacks_avoid p (forget q t1)" by (auto simp: callbacks_avoid_def split: if_splits)
  with t1 this' assms(1) show ?thesis by auto
qed (simp add: avoid)

lemma NotifyPeerFound_avoids:
  assumes "callbacks_avoid p this" and "NotifyPeerFound rehash info (this, u) = (r, (this', u'))"
  shows "callbacks_avoid p this' \<and> pending_of this' p = pending_of this p"
proof (cases "on_peer_found this")
  case (Some g)
  then have "avoids p (g info u)" using assms(1) by (simp add: callbacks_avoid_def)
  from run_on_adapter_avoids [OF this assms(1)] assms(2) Some show ?thesis by (simp add: NotifyPeerFound_def)
qed (use assms in \<open>simp add: NotifyPeerFound_def\<close>)

lemma DeliverIncomingData_avoids:
  assumes "callbacks_avoid p this" and "DeliverIncomingData rehash q d (this, u) = (r, (this', u'))"
  shows "callbacks_avoid p this' \<and> pending_of this' p = pending_of this p"
proof (cases "on_data_received this")
  case (Some g)
  then have "avoids p (g q d u)" using assms(1) by (simp add: callbacks_avoid_def)
  from run_on_adapter_avoids [OF this assms(1)] assms(2) Some show ?thesis by (simp add: DeliverIncomingData_def)
qed (use assms in \<open>simp add: DeliverIncomingData_def\<close>)

lemma on_event_avoids:
  assumes "event_avoids p e" and "callbacks_avoid p this"
    and "on_event rehash e (this, u) = (r, (this', u'))"
  shows "callbacks_avoid p this' \<and> pending_of this' p = pending_of this p"
proof (cases e)
  case (ClientRuns code)
  then have "avoids p (code u)" and "run_on_adapter rehash (code u) this = (r, (this', u'))"
    using assms(1,3) by simp_all
  from run_on_adapter_avoids [OF this(1) assms(2) this(2)] show ?thesis .
next
  case (PeerFound info)
  with assms(3) NotifyPeerFound_avoids [OF assms(2)] show ?thesis by simp
next
  case (DataArrived q d)
  with assms(3) DeliverIncomingData_avoids [OF assms(2)] show ?thesis by simp
next
  case (ConnectResult q b)
  with assms NotifyConnectResult_avoids [of q p this] show ?thesis by simp
qed

lemma after_events_avoid:
  assumes "\<forall>e \<in> set es. event_avoids p e" and "callbacks_avoid p this"
    and "after_events rehash es (this, u) = (this', u')"
  shows "callbacks_avoid p this' \<and> pending_of this' p = pending_of this p"
  using assms
proof (induction es arbitrary: this u)
  case (Cons e es)
  obtain r t1 u1 where e: "on_event rehash e (this, u) = (r, (t1, u1))" by (metis prod.collapse)
  have "event_avoids p e" using Cons.prems(1) by simp
  note step = on_event_avoids [OF this Cons.prems(2) e]
  have rest: "\<forall>e \<in> set es. event_avoids p e" "after_events rehash es (t1, u1) = (this', u')"
    using Cons.prems(1,3) e by simp_all
  show ?case using Cons.IH [OF rest(1) conjunct1 [OF step] rest(2)] step by simp
qed simp

text \<open>Once \<open>p\<close> is answered, it stays so, whatever is reported about it again.\<close>

definition report_of :: "string \<Rightarrow> 'u adapter_event \<Rightarrow> bool" where
  "report_of p e \<longleftrightarrow> (\<exists>b. e = ConnectResult p b)"

lemma after_events_answered:
  assumes "\<forall>e \<in> set es. event_avoids p e \<or> report_of p e" and "callbacks_avoid p this"
    and "pending_of this p = None" and "after_events rehash es (this, u) = (this', u')"
  shows "callbacks_avoid p this' \<and> pending_of this' p = None"
  using assms
proof (induction es arbitrary: this u)
  case (Cons e es)
  obtain r t1 u1 where e: "on_event rehash e (this, u) = (r, (t1, u1))" by (metis prod.collapse)
  have step: "callbacks_avoid p t1 \<and> pending_of t1 p = None"
  proof (cases "report_of p e")
    case True
    then show ?thesis using Cons.prems(2,3) e by (auto simp: report_of_def NotifyConnectResult_unknown)
  next
    case False
    then have "event_avoids p e" using Cons.prems(1) by simp
    from on_event_avoids [OF this Cons.prems(2) e] Cons.prems(3) show ?thesis by simp
  qed
  have rest: "\<forall>e \<in> set es. event_avoids p e \<or> report_of p e" "after_events rehash es (t1, u1) = (this', u')"
    using Cons.prems(1,4) e by simp_all
  show ?case using Cons.IH [OF rest(1) conjunct1 [OF step] conjunct2 [OF step] rest(2)] .
qed simp

section \<open>The object that owns the adapter\<close>

text \<open>
  The Objective-C object that owns the adapter. \<open>init\<close> builds one unless the superclass refuses, which
  gives \<open>nil\<close>; the two managers of CoreBluetooth that it creates besides are used by no code.
\<close>

record 'u BluetoothBridge =
  bridge_adapter :: "'u BluetoothTransportAdapter"

definition BluetoothBridge_init :: "bool \<Rightarrow> 'u BluetoothBridge option" where
  "BluetoothBridge_init super_init =
     (if super_init then Some \<lparr>bridge_adapter = BluetoothTransportAdapter_new\<rparr> else None)"

definition asTransport :: "'u BluetoothBridge \<Rightarrow> 'u BluetoothTransportAdapter" where
  "asTransport bridge = bridge_adapter bridge"

lemma asTransport_init:
  "BluetoothBridge_init b = Some bridge \<Longrightarrow> asTransport bridge = BluetoothTransportAdapter_new"
  by (auto simp: BluetoothBridge_init_def asTransport_def split: if_splits)

text \<open>
  The delegate methods, which CoreBluetooth calls. Their bodies in the source are comments, so that they do
  nothing: what they are meant to report to the adapter are the events \<open>PeerFound\<close>, \<open>ConnectResult\<close> and \<open>DataArrived\<close>
  above, which the properties of the adapter allow in any order.
\<close>

datatype delegate_call =
    CentralManagerDidUpdateState
  | DidDiscoverPeripheral string "string option" int
  | DidConnectPeripheral string
  | PeripheralManagerDidUpdateState

fun delegate_method :: "delegate_call \<Rightarrow> 'u BluetoothBridge \<times> 'u \<Rightarrow> 'u BluetoothBridge \<times> 'u" where
  "delegate_method CentralManagerDidUpdateState s = s"
| "delegate_method (DidDiscoverPeripheral identifier localName RSSI) s = s"
| "delegate_method (DidConnectPeripheral identifier) s = s"
| "delegate_method PeripheralManagerDidUpdateState s = s"

text \<open>The bridge as it stands: clients call the adapter through \<open>asTransport\<close>, CoreBluetooth the delegate.\<close>

datatype 'u bridge_event =
    ClientCalls "'u \<Rightarrow> 'u adapter_client"
  | CoreBluetoothCalls delegate_call

fun on_bridge :: "(nat \<Rightarrow> bool) \<Rightarrow> 'u bridge_event \<Rightarrow> 'u BluetoothBridge \<times> 'u \<Rightarrow> 'u BluetoothBridge \<times> 'u" where
  "on_bridge rehash (ClientCalls code) (bridge, u) =
     (let (_, this, u) = run_on_adapter rehash (code u) (asTransport bridge)
      in (bridge\<lparr>bridge_adapter := this\<rparr>, u))"
| "on_bridge rehash (CoreBluetoothCalls c) s = delegate_method c s"

text \<open>
  What a client does by itself, without a callback ever being called. On the bridge as it stands that is all
  that happens: nothing sent arrives, no peer is found and no connection is answered.
\<close>

primrec alone :: "'u adapter_client \<Rightarrow> 'u" where
  "alone (Return u) = u"
| "alone (Throw e u) = u"
| "alone (Call a c u k) = alone (k u)"

lemma run_on_adapter_alone: "snd (snd (run_on_adapter rehash code this)) = alone code"
  by (induction code arbitrary: this rule: client_calls_induct) simp_all

fun alone_event :: "'u bridge_event \<Rightarrow> 'u \<Rightarrow> 'u" where
  "alone_event (ClientCalls code) u = alone (code u)"
| "alone_event (CoreBluetoothCalls c) u = u"

lemma delegate_method_nothing: "delegate_method c s = s"
  by (cases c) simp_all

lemma bridge_never_calls_back:
  "snd (fold (on_bridge rehash) es (bridge, u)) = fold alone_event es u"
proof (induction es arbitrary: bridge u)
  case (Cons e es)
  have "snd (on_bridge rehash e (bridge, u)) = alone_event e u"
    by (cases e) (simp_all add: delegate_method_nothing Let_def case_prod_beta run_on_adapter_alone)
  with Cons.IH show ?case by (cases "on_bridge rehash e (bridge, u)") simp
qed simp

section \<open>What a client relies on\<close>

text \<open>
  The side of \<open>ITransport\<close> that receives: data that arrives is handed to the callback set last, and dropped
  when there is none. \<open>run\<close> runs client code against the transport \<open>this\<close>, \<open>arrives d\<close> is the arrival of the
  block \<open>d\<close> from \<open>from_peer\<close>.
\<close>

primrec arrive_each ::
    "(bytes \<Rightarrow> 'h \<Rightarrow> 'u \<Rightarrow> (unit result \<times> 'h \<times> 'u) option) \<Rightarrow> bytes list \<Rightarrow> 'h \<Rightarrow> 'u \<Rightarrow>
     (unit result \<times> 'h \<times> 'u) option" where
  "arrive_each f [] h u = Some (Inr (), h, u)"
| "arrive_each f (d # ds) h u =
     Option.bind (f d h u) (\<lambda>(r, h, u).
     case r of Inl e \<Rightarrow> Some (Inl e, h, u) | Inr _ \<Rightarrow> arrive_each f ds h u)"

locale receiving_transport =
  fixes run :: "'h \<Rightarrow> ('a, 'u) client \<Rightarrow> (unit result \<times> 'h \<times> 'u) option"
    and this :: 'a
    and from_peer :: string
    and arrives :: "bytes \<Rightarrow> 'h \<Rightarrow> 'u \<Rightarrow> (unit result \<times> 'h \<times> 'u) option"
    and connected :: "'h \<Rightarrow> bool"
    and callback :: "'h \<Rightarrow> (string \<Rightarrow> bytes \<Rightarrow> 'u \<Rightarrow> ('a, 'u) client) option"
  assumes run_Return: "run h (Return u) = Some (Inr (), h, u)"
    and run_Throw: "run h (Throw e u) = Some (Inl e, h, u)"
    and run_set: "connected h \<Longrightarrow> \<exists>h'. connected h' \<and> callback h' = cb \<and>
      (\<forall>u k. run h (Call this (CallSetOnDataReceived cb) u k) = run h' (k u))"
    and arrival: "connected h \<Longrightarrow> arrives d h u =
      (case callback h of None \<Rightarrow> Some (Inr (), h, u) | Some cb \<Rightarrow> run h (cb from_peer d u))"
begin

lemma plain_arrives:
  assumes "connected h" and "callback h = Some (plain_callback cb)"
  shows "arrive_each arrives ds h u = (case deliver_all (cb from_peer) ds u of (r, u) \<Rightarrow> Some (r, h, u))"
proof (induction ds arbitrary: u)
  case (Cons d ds)
  then show ?case
    by (cases "cb from_peer d u")
       (auto simp: arrival [OF assms(1)] assms(2) plain_callback_def run_Return run_Throw split: sum.split)
qed simp

lemma set_then_arrives:
  assumes "connected h"
  shows "\<exists>h'. run h (Call this (CallSetOnDataReceived (Some (plain_callback cb))) u Return) = Some (Inr (), h', u) \<and>
    (\<forall>ds u. arrive_each arrives ds h' u = (case deliver_all (cb from_peer) ds u of (r, u) \<Rightarrow> Some (r, h', u)))"
  using run_set [OF assms, of "Some (plain_callback cb)"] plain_arrives run_Return by fastforce

end

text \<open>Both transports keep it: on the loopback, data arrives when the peer at \<open>a\<close> sends.\<close>

definition loopback_connected :: "address \<Rightarrow> string \<Rightarrow> address \<Rightarrow> 'u loop_store \<Rightarrow> bool" where
  "loopback_connected a from_peer b h \<longleftrightarrow>
     (\<exists>ta tb. h a = Some ta \<and> self_id ta = from_peer \<and> peer ta = Some b \<and> h b = Some tb)"

definition loopback_arrives ::
    "address \<Rightarrow> string \<Rightarrow> bytes \<Rightarrow> 'u loop_store \<Rightarrow> 'u \<Rightarrow> (unit result \<times> 'u loop_store \<times> 'u) option" where
  "loopback_arrives a to d h u = run_client h (Call a (CallSend to d) u Return)"

definition adapter_arrives ::
    "(nat \<Rightarrow> bool) \<Rightarrow> string \<Rightarrow> bytes \<Rightarrow> 'u BluetoothTransportAdapter \<Rightarrow> 'u \<Rightarrow>
     (unit result \<times> 'u BluetoothTransportAdapter \<times> 'u) option" where
  "adapter_arrives rehash from_peer d this u = Some (DeliverIncomingData rehash from_peer d (this, u))"

lemma run_client_then_return:
  "Option.bind (run_client h code) (\<lambda>(r, h, u).
     case r of Inl e \<Rightarrow> Some (Inl e, h, u) | Inr _ \<Rightarrow> run_client h (Return u)) = run_client h code"
  by (cases "run_client h code") (auto split: sum.split)

interpretation loopback_in: receiving_transport run_client b from_peer "loopback_arrives a to"
    "loopback_connected a from_peer b" "\<lambda>h. case h b of None \<Rightarrow> None | Some t \<Rightarrow> on_data t"
  for a b from_peer to
proof
  fix h :: "'u loop_store" and cb :: "'u loop_callback option"
  assume "loopback_connected a from_peer b h"
  then obtain ta tb where h: "h a = Some ta" "self_id ta = from_peer" "peer ta = Some b" "h b = Some tb"
    by (auto simp: loopback_connected_def)
  let ?h = "h(b \<mapsto> tb\<lparr>on_data := cb\<rparr>)"
  have "loopback_connected a from_peer b ?h"
    using h by (auto simp: loopback_connected_def)
  moreover have "run_client h (Call b (CallSetOnDataReceived cb) u k) = run_client ?h (k u)" for u k
    using h by (intro run_client_quiet) (simp add: loopback_method_def SetOnDataReceived_def deref_def)
  ultimately show "\<exists>h'. loopback_connected a from_peer b h' \<and>
      (case h' b of None \<Rightarrow> None | Some t \<Rightarrow> on_data t) = cb \<and>
      (\<forall>u k. run_client h (Call b (CallSetOnDataReceived cb) u k) = run_client h' (k u))"
    by (intro exI [of _ ?h]) simp
next
  fix h :: "'u loop_store" and d u
  assume "loopback_connected a from_peer b h"
  then obtain ta tb where h: "h a = Some ta" "self_id ta = from_peer" "peer ta = Some b" "h b = Some tb"
    by (auto simp: loopback_connected_def)
  show "loopback_arrives a to d h u =
      (case case h b of None \<Rightarrow> None | Some t \<Rightarrow> on_data t of
         None \<Rightarrow> Some (Inr (), h, u) | Some cb \<Rightarrow> run_client h (cb from_peer d u))"
  proof (cases "on_data tb")
    case None
    with h have "loopback_method h a (CallSend to d) = Inr (h, None)"
      by (simp add: loopback_method_def deref_def)
    with None h show ?thesis by (simp add: loopback_arrives_def run_client_quiet)
  next
    case (Some cb)
    with h have "loopback_method h a (CallSend to d) = Inr (h, Some (cb from_peer d))"
      by (simp add: loopback_method_def deref_def)
    with Some h show ?thesis
      by (simp only: loopback_arrives_def run_client_callback run_client_then_return option.case)
  qed
qed simp_all

interpretation adapter_in: receiving_transport "\<lambda>this code. Some (run_on_adapter rehash code this)" "()"
    from_peer "adapter_arrives rehash from_peer" "\<lambda>this. True" on_data_received
  for rehash from_peer
proof
  show "\<exists>this'. True \<and> on_data_received this' = cb \<and>
      (\<forall>u k. Some (run_on_adapter rehash (Call () (CallSetOnDataReceived cb) u k) this)
         = Some (run_on_adapter rehash (k u) this'))" for this :: "'u BluetoothTransportAdapter" and cb
    by (intro exI [of _ "this\<lparr>on_data_received := cb\<rparr>"]) (simp add: adapter_method_def)
  show "adapter_arrives rehash from_peer d this u =
      (case on_data_received this of
         None \<Rightarrow> Some (Inr (), this, u)
       | Some cb \<Rightarrow> Some (run_on_adapter rehash (cb from_peer d u) this))"
    for this :: "'u BluetoothTransportAdapter" and d u
    by (simp add: adapter_arrives_def DeliverIncomingData_def split: option.split)
qed simp_all

end
