(* ===== verification/Adapter_Spec.thy ===== *)
theory Adapter_Spec
  imports Adapter
begin

text \<open>
  What the adapter for CoreBluetooth promises, without hash table and iterators: two callbacks and a map from
  the peers that were asked for to what is to be called. A report about a peer in the map calls its callback
  and takes the peer out when the callback has returned. The adapter implements it as long as the callbacks
  of \<open>Connect\<close> do not call \<open>Connect\<close> themselves, whenever the hash table may rehash.
\<close>

section \<open>The table of promises\<close>

record 'u promises =
  found :: "(PeerInfo \<Rightarrow> 'u \<Rightarrow> 'u adapter_client) option"
  received :: "(string \<Rightarrow> bytes \<Rightarrow> 'u \<Rightarrow> 'u adapter_client) option"
  awaiting :: "string \<rightharpoonup> 'u connect_callback option"

definition no_promises :: "'u promises" where
  "no_promises = \<lparr>found = None, received = None, awaiting = Map.empty\<rparr>"

fun promise :: "(unit, 'u) transport_call \<Rightarrow> 'u promises \<Rightarrow> 'u promises" where
  "promise (CallStartScanning cb) t = t\<lparr>found := cb\<rparr>"
| "promise (CallSetOnDataReceived cb) t = t\<lparr>received := cb\<rparr>"
| "promise (CallConnect p f) t = t\<lparr>awaiting := (awaiting t)(p \<mapsto> f)\<rparr>"
| "promise c t = t"

primrec run_promising ::
    "'u adapter_client \<Rightarrow> 'u promises \<Rightarrow> unit result \<times> 'u promises \<times> 'u" where
  "run_promising (Return u) = (\<lambda>t. (Inr (), t, u))"
| "run_promising (Throw e u) = (\<lambda>t. (Inl e, t, u))"
| "run_promising (Call a c u k) = (\<lambda>t. run_promising (k u) (promise c t))"

definition answer :: "string \<Rightarrow> bool \<Rightarrow> ('u promises \<times> 'u, unit) prog" where
  "answer p success s =
     (let (t, u) = s in
      case awaiting t p of
        None \<Rightarrow> (Inr (), s)
      | Some None \<Rightarrow> (Inl BadFunctionCall, s)
      | Some (Some f) \<Rightarrow>
          prog_bind (\<lambda>(t, u). run_promising (f success u) t) (\<lambda>_ (t, u).
            (Inr (), (t\<lparr>awaiting := (awaiting t)(p := None)\<rparr>, u))) s)"

fun on_promises :: "'u adapter_event \<Rightarrow> ('u promises \<times> 'u, unit) prog" where
  "on_promises (ClientRuns code) (t, u) = run_promising (code u) t"
| "on_promises (PeerFound info) (t, u) =
     (case found t of None \<Rightarrow> (Inr (), (t, u)) | Some cb \<Rightarrow> run_promising (cb info u) t)"
| "on_promises (DataArrived p d) (t, u) =
     (case received t of None \<Rightarrow> (Inr (), (t, u)) | Some cb \<Rightarrow> run_promising (cb p d u) t)"
| "on_promises (ConnectResult p success) s = answer p success s"

text \<open>The table that an adapter stands for.\<close>

definition promises_of :: "'u BluetoothTransportAdapter \<Rightarrow> 'u promises" where
  "promises_of this =
     \<lparr>found = on_peer_found this, received = on_data_received this, awaiting = pending_of this\<rparr>"

lemma promises_of_simps [simp]:
  "found (promises_of this) = on_peer_found this"
  "received (promises_of this) = on_data_received this"
  "awaiting (promises_of this) = pending_of this"
  by (simp_all add: promises_of_def)

lemma promises_of_new: "promises_of BluetoothTransportAdapter_new = no_promises"
  by (simp add: promises_of_def BluetoothTransportAdapter_new_def no_promises_def map_empty_def)

lemma promises_of_forget:
  "promises_of (forget p this) = (promises_of this)\<lparr>awaiting := (pending_of this)(p := None)\<rparr>"
  by (simp add: promises_of_def)

lemma promises_of_method: "promises_of (adapter_method rehash c this) = promise c (promises_of this)"
  by (cases c) (simp_all add: promises_of_def adapter_method_def)

text \<open>Code does the same on both.\<close>

lemma run_on_adapter_promises:
  "run_on_adapter rehash code this = (r, (this', u')) \<Longrightarrow>
    run_promising code (promises_of this) = (r, (promises_of this', u'))"
proof (induction code arbitrary: this rule: client_calls_induct)
  case (Call a c u k)
  then have "run_on_adapter rehash (k u) (adapter_method rehash c this) = (r, (this', u'))" by simp
  from Call.IH [OF this] show ?case by (simp add: promises_of_method)
qed auto

section \<open>Code whose callbacks leave the table alone\<close>

definition asks_nobody :: "'u adapter_client \<Rightarrow> bool" where
  "asks_nobody code \<longleftrightarrow> (\<forall>q. avoids q code)"

text \<open>Calm code calls \<open>Connect\<close> as it likes, with callbacks that do not, now or in any callback they install.\<close>

inductive calm :: "'u adapter_client \<Rightarrow> bool" where
  return: "calm (Return u)"
| throw: "calm (Throw e u)"
| connect: "(\<And>g b u. f = Some g \<Longrightarrow> asks_nobody (g b u)) \<Longrightarrow> (\<And>u. calm (k u)) \<Longrightarrow>
    calm (Call a (CallConnect q f) u k)"
| scan: "(\<And>g i u. f = Some g \<Longrightarrow> calm (g i u)) \<Longrightarrow> (\<And>u. calm (k u)) \<Longrightarrow>
    calm (Call a (CallStartScanning f) u k)"
| set_callback: "(\<And>g q d u. f = Some g \<Longrightarrow> calm (g q d u)) \<Longrightarrow> (\<And>u. calm (k u)) \<Longrightarrow>
    calm (Call a (CallSetOnDataReceived f) u k)"
| no_effect: "c \<in> {CallStartAdvertising s, CallStopAdvertising, CallStopScanning, CallDisconnect s, CallSend s d} \<Longrightarrow>
    (\<And>u. calm (k u)) \<Longrightarrow> calm (Call a c u k)"

inductive_cases calm_CallE: "calm (Call a c u k)"

lemma avoids_Call:
  assumes "avoids q (Call a c u k)"
  shows "avoids q (k u')" and "c \<noteq> CallConnect q f"
    and "c = CallStartScanning (Some g) \<Longrightarrow> avoids q (g i u')"
    and "c = CallSetOnDataReceived (Some h) \<Longrightarrow> avoids q (h q' d u')"
  using assms by (auto elim!: avoids_CallE)

lemma asks_nobody_Call:
  assumes "asks_nobody (Call a c u k)"
  shows "asks_nobody (k u')" and "c \<noteq> CallConnect q f"
    and "c = CallStartScanning (Some g) \<Longrightarrow> asks_nobody (g i u')"
    and "c = CallSetOnDataReceived (Some h) \<Longrightarrow> asks_nobody (h q' d u')"
proof -
  note all = assms [unfolded asks_nobody_def, rule_format]
  show "asks_nobody (k u')" unfolding asks_nobody_def using avoids_Call(1) [OF all] by blast
  show "c \<noteq> CallConnect q f" by (rule avoids_Call(2) [OF all])
  show "asks_nobody (g i u')" if "c = CallStartScanning (Some g)"
    unfolding asks_nobody_def using avoids_Call(3) [OF all that] by blast
  show "asks_nobody (h q' d u')" if "c = CallSetOnDataReceived (Some h)"
    unfolding asks_nobody_def using avoids_Call(4) [OF all that] by blast
qed

lemma asks_nobody_calm:
  assumes "asks_nobody code"
  shows "calm code"
proof -
  have "calm code" if "avoids p code" and "asks_nobody code" for p
    using that
  proof (induction rule: avoids.induct)
    case (connect q f k a u)
    from asks_nobody_Call(2) [OF connect.prems, of q f] show ?case by simp
  next
    case (scan f k a u)
    show ?case
      by (rule calm.scan, rule scan.IH(1), assumption, rule asks_nobody_Call(3) [OF scan.prems], simp,
          rule scan.IH(2), rule asks_nobody_Call(1) [OF scan.prems])
  next
    case (set_callback f k a u)
    show ?case
      by (rule calm.set_callback, rule set_callback.IH(1), assumption,
          rule asks_nobody_Call(4) [OF set_callback.prems], simp,
          rule set_callback.IH(2), rule asks_nobody_Call(1) [OF set_callback.prems])
  next
    case (no_effect c s d k a u)
    show ?case
      by (rule calm.no_effect [OF no_effect.hyps(1)], rule no_effect.IH,
          rule asks_nobody_Call(1) [OF no_effect.prems])
  qed (auto intro: calm.return calm.throw)
  with assms show ?thesis unfolding asks_nobody_def by blast
qed

text \<open>The callbacks that a calm adapter holds.\<close>

definition calm_adapter :: "'u BluetoothTransportAdapter \<Rightarrow> bool" where
  "calm_adapter this \<longleftrightarrow>
     (\<forall>g i u. on_peer_found this = Some g \<longrightarrow> calm (g i u)) \<and>
     (\<forall>g q d u. on_data_received this = Some g \<longrightarrow> calm (g q d u)) \<and>
     (\<forall>q f b u. pending_of this q = Some (Some f) \<longrightarrow> asks_nobody (f b u))"

lemma calm_adapter_new: "calm_adapter BluetoothTransportAdapter_new"
  by (simp add: calm_adapter_def BluetoothTransportAdapter_new_def map_empty_def)

lemma calm_adapter_forget: "calm_adapter this \<Longrightarrow> calm_adapter (forget p this)"
  by (auto simp: calm_adapter_def split: if_splits)

lemma adapter_method_calm:
  assumes "calm (Call a c u k)" and "calm_adapter this"
  shows "calm_adapter (adapter_method rehash c this)" and "calm (k u')"
  using assms by (auto elim!: calm_CallE simp: adapter_method_def calm_adapter_def split: if_splits)

lemma run_on_adapter_calm:
  assumes "calm code" and "calm_adapter this" and "run_on_adapter rehash code this = (r, (this', u'))"
  shows "calm_adapter this'"
  using assms
proof (induction code arbitrary: this rule: client_calls_induct)
  case (Call a c u k)
  note step = adapter_method_calm [OF Call.prems(1,2)]
  have "run_on_adapter rehash (k u) (adapter_method rehash c this) = (r, (this', u'))"
    using Call.prems(3) by simp
  then show ?case by (rule Call.IH [OF step(2,1)])
qed simp_all

text \<open>Code that asks nobody leaves the table as it is, generation and all: an iterator stays valid.\<close>

lemma run_on_adapter_asks_nobody:
  assumes "asks_nobody code" and "run_on_adapter rehash code this = (r, (this', u'))"
  shows "pending_connect_callbacks this' = pending_connect_callbacks this"
  using assms
proof (induction code arbitrary: this rule: client_calls_induct)
  case (Call a c u k)
  have "run_on_adapter rehash (k u) (adapter_method rehash c this) = (r, (this', u'))"
    using Call.prems(2) by simp
  note rest = Call.IH [OF asks_nobody_Call(1) [OF Call.prems(1)] this]
  have "pending_connect_callbacks (adapter_method rehash c this) = pending_connect_callbacks this"
    using asks_nobody_Call(2) [OF Call.prems(1)] by (cases c) (auto simp: adapter_method_def)
  with rest show ?case by simp
qed simp_all

section \<open>The adapter implements the table\<close>

fun calm_event :: "'u adapter_event \<Rightarrow> bool" where
  "calm_event (ClientRuns code) \<longleftrightarrow> (\<forall>u. calm (code u))"
| "calm_event _ \<longleftrightarrow> True"

lemma NotifyConnectResult_promises:
  assumes calm: "calm_adapter this" and notify: "NotifyConnectResult rehash p b (this, u) = (r, (this', u'))"
  shows "answer p b (promises_of this, u) = (r, (promises_of this', u')) \<and> calm_adapter this'"
proof (cases "pending_of this p")
  case None
  with notify calm show ?thesis by (simp add: NotifyConnectResult_unknown answer_def)
next
  case (Some cb)
  show ?thesis
  proof (cases cb)
    case None
    with Some notify calm show ?thesis by (simp add: NotifyConnectResult_empty answer_def)
  next
    case f: (Some f)
    with Some have pending: "pending_of this p = Some (Some f)" by simp
    then have quiet: "asks_nobody (f b u)" using calm by (simp add: calm_adapter_def)
    obtain r1 t1 u1 where run: "run_on_adapter rehash (f b u) this = (r1, (t1, u1))" by (metis prod.collapse)
    note t1 = run_on_adapter_asks_nobody [OF quiet run] run_on_adapter_promises [OF run]
      run_on_adapter_calm [OF asks_nobody_calm [OF quiet] calm run]
    show ?thesis
    proof (cases r1)
      case (Inl e)
      from NotifyConnectResult_throws [OF pending run [unfolded Inl]] notify
      have "r = Inl e" and "t1 = this'" and "u1 = u'" by simp_all
      with Inl pending t1 show ?thesis by (simp add: answer_def prog_bind_def)
    next
      case (Inr x)
      have "r = Inr () \<and> this' = forget p t1 \<and> u1 = u'"
        using NotifyConnectResult_returns [OF pending, of rehash b u] run Inr t1(1) pending notify by simp
      with Inr pending t1 show ?thesis
        by (simp add: answer_def prog_bind_def promises_of_forget calm_adapter_forget)
    qed
  qed
qed

lemma on_event_promises:
  assumes calm: "calm_adapter this" and e: "calm_event e"
    and on: "on_event rehash e (this, u) = (r, (this', u'))"
  shows "on_promises e (promises_of this, u) = (r, (promises_of this', u')) \<and> calm_adapter this'"
proof (cases e)
  case (ClientRuns code)
  then have "calm (code u)" and run: "run_on_adapter rehash (code u) this = (r, (this', u'))"
    using e on by simp_all
  from run_on_adapter_promises [OF run] run_on_adapter_calm [OF this(1) calm run] ClientRuns
  show ?thesis by simp
next
  case (PeerFound info)
  show ?thesis
  proof (cases "on_peer_found this")
    case (Some g)
    then have "calm (g info u)" and "run_on_adapter rehash (g info u) this = (r, (this', u'))"
      using calm on PeerFound by (simp_all add: calm_adapter_def NotifyPeerFound_def)
    from run_on_adapter_promises [OF this(2)] run_on_adapter_calm [OF this(1) calm this(2)] Some PeerFound
    show ?thesis by simp
  qed (use PeerFound on calm in \<open>simp add: NotifyPeerFound_def\<close>)
next
  case (DataArrived p d)
  show ?thesis
  proof (cases "on_data_received this")
    case (Some g)
    then have "calm (g p d u)" and "run_on_adapter rehash (g p d u) this = (r, (this', u'))"
      using calm on DataArrived by (simp_all add: calm_adapter_def DeliverIncomingData_def)
    from run_on_adapter_promises [OF this(2)] run_on_adapter_calm [OF this(1) calm this(2)] Some DataArrived
    show ?thesis by simp
  qed (use DataArrived on calm in \<open>simp add: DeliverIncomingData_def\<close>)
next
  case (ConnectResult p b)
  with on NotifyConnectResult_promises [OF calm] show ?thesis by simp
qed

lemma events_promises:
  assumes "calm_adapter this" and "\<forall>e \<in> set es. calm_event e"
    and "attempt_all (on_event rehash) es (this, u) = (rs, (this', u'))"
  shows "attempt_all on_promises es (promises_of this, u) = (rs, (promises_of this', u')) \<and> calm_adapter this'"
  using assms
proof (induction es arbitrary: this u rs)
  case (Cons e es)
  obtain r t1 u1 where e: "on_event rehash e (this, u) = (r, (t1, u1))" by (metis prod.collapse)
  obtain rs1 where rest: "attempt_all (on_event rehash) es (t1, u1) = (rs1, (this', u'))" "rs = r # rs1"
    using Cons.prems(3) e by (auto split: prod.splits)
  have "calm_event e" and es: "\<forall>e \<in> set es. calm_event e" using Cons.prems(2) by simp_all
  note step = on_event_promises [OF Cons.prems(1) this(1) e]
  from Cons.IH [OF conjunct2 [OF step] es rest(1)] step rest(2) show ?case by simp
qed simp

end
