(* ===== verification/Platform_Props.thy ===== *)
theory Platform_Props
  imports Adapter_Spec
begin

text \<open>
  The properties of the transports as their clients see them: code that calls back into a loopback
  transport, and the adapter for CoreBluetooth against its specification.
\<close>

section \<open>Replies on a loopback transport\<close>

text \<open>
  C20: code whose callbacks answer every block with smaller ones comes back. When a measure decreases from
  each block to the blocks sent in answer to it, in the callbacks installed now and in those the code
  installs, the code ends, with a result or an exception, however deep the calls nest.
\<close>

theorem modest_replies_terminate:
  assumes "modest m n code" and "modest_store m h"
  shows "\<exists>r h' u. run_client h code = Some (r, h', u)"
  using modest_comes_back [OF assms] unfolding comes_back_def by blast

text \<open>A pair of transports that acknowledge every block by an empty one and count what is acknowledged.\<close>

definition acknowledge :: "address \<Rightarrow> nat loop_callback" where
  "acknowledge a from_peer d u =
     (if d = [] then Return (Suc u) else Call a (CallSend from_peer []) u Return)"

definition two_peers :: "(address \<Rightarrow> 'u loop_callback) \<Rightarrow> 'u loop_store" where
  "two_peers cb =
     [0 \<mapsto> \<lparr>self_id = ''alice'', peer = Some 1, on_data = Some (cb 0)\<rparr>,
      1 \<mapsto> \<lparr>self_id = ''bob'', peer = Some 0, on_data = Some (cb 1)\<rparr>]"

lemma acknowledge_modest: "modest_callback length (acknowledge a)"
  by (auto simp: modest_callback_def acknowledge_def intro!: modest.return modest.send)

theorem modest_replies_terminate_witness:
  "\<exists>r h' u. run_client (two_peers acknowledge) (Call 0 (CallSend ''bob'' [1, 2]) 0 Return) = Some (r, h', u)"
proof (rule modest_replies_terminate [of length 3])
  show "modest length 3 (Call 0 (CallSend ''bob'' [1, 2]) 0 Return)"
    by (auto intro!: modest.return modest.send)
  show "modest_store length (two_peers acknowledge)"
    by (auto simp: modest_store_def two_peers_def acknowledge_modest split: if_splits)
qed

text \<open>
  C24: two transports that send back what they receive never come back: the first \<open>Send\<close> calls the
  callback of the peer, which calls \<open>Send\<close>, and so on. The interface does not say that \<open>Send\<close> runs the
  receiver.
\<close>

theorem echo_never_comes_back:
  assumes "echoing h a b"
  shows "run_client h (Call a (CallSend to d) u k) = None"
proof (cases "run_client h (Call a (CallSend to d) u k)")
  case (Some r)
  have "sends_between a b (Call a (CallSend to d) u k)" by (auto simp: sends_between_def)
  with echo_never_ends [OF Some, of a b] assms show ?thesis by simp
qed

theorem echo_never_comes_back_witness:
  "run_client (two_peers echo) (Call 0 (CallSend ''bob'' [1]) (0 :: nat) Return) = None"
  by (rule echo_never_comes_back [of _ 0 1]) (simp add: echoing_def two_peers_def)

section \<open>The adapter\<close>

text \<open>
  C21: the two transports deliver alike to callbacks that do not call the transport themselves. A client that
  sets such a callback on the receiving end of a connected loopback pair, and one that sets it on the adapter,
  get the same blocks from the same peer, in order, with the same result: those that the callback makes of the
  list of blocks, up to its first exception. A callback that replies sees a difference: on the loopback its
  \<open>Send\<close> runs the callback of the peer, on the adapter it does nothing.
\<close>

theorem transports_deliver_alike:
  assumes "loopback_connected a from_peer b h"
  shows "\<exists>h' this'.
    run_client h (Call b (CallSetOnDataReceived (Some (plain_callback cb))) u Return) = Some (Inr (), h', u) \<and>
    run_on_adapter rehash (Call () (CallSetOnDataReceived (Some (plain_callback cb))) u Return) this
      = (Inr (), this', u) \<and>
    (\<forall>ds u r u'. deliver_all (cb from_peer) ds u = (r, u') \<longrightarrow>
       arrive_each (loopback_arrives a to) ds h' u = Some (r, h', u') \<and>
       arrive_each (adapter_arrives rehash from_peer) ds this' u = Some (r, this', u'))"
proof -
  obtain h' where h': "run_client h (Call b (CallSetOnDataReceived (Some (plain_callback cb))) u Return) = Some (Inr (), h', u)"
      "\<forall>ds u. arrive_each (loopback_arrives a to) ds h' u
        = (case deliver_all (cb from_peer) ds u of (r, u) \<Rightarrow> Some (r, h', u))"
    using loopback_in.set_then_arrives [OF assms] by blast
  obtain this' where this': "run_on_adapter rehash (Call () (CallSetOnDataReceived (Some (plain_callback cb))) u Return) this
        = (Inr (), this', u)"
      "\<forall>ds u. arrive_each (adapter_arrives rehash from_peer) ds this' u
        = (case deliver_all (cb from_peer) ds u of (r, u) \<Rightarrow> Some (r, this', u))"
    using adapter_in.set_then_arrives [of rehash cb u this from_peer] by blast
  from h' this' show ?thesis by (intro exI [of _ h'] exI [of _ this']) simp
qed

definition count_callback :: "nat data_callback" where
  "count_callback from_peer d n = (Inr (), n + length d)"

theorem transports_deliver_alike_witness:
  "\<exists>h' this'.
    run_client (two_peers acknowledge) (Call 1 (CallSetOnDataReceived (Some (plain_callback count_callback))) 0 Return)
      = Some (Inr (), h', 0) \<and>
    run_on_adapter (\<lambda>_. True) (Call () (CallSetOnDataReceived (Some (plain_callback count_callback))) 0 Return)
      BluetoothTransportAdapter_new = (Inr (), this', 0) \<and>
    (\<forall>ds u r u'. deliver_all (count_callback ''alice'') ds u = (r, u') \<longrightarrow>
       arrive_each (loopback_arrives 0 ''bob'') ds h' u = Some (r, h', u') \<and>
       arrive_each (adapter_arrives (\<lambda>_. True) ''alice'') ds this' u = Some (r, this', u'))"
  by (rule transports_deliver_alike) (simp add: loopback_connected_def two_peers_def)

text \<open>
  C19: a connection that was asked for is answered once. After \<open>Connect(p, f)\<close> any other events may happen,
  as long as no code asks for \<open>p\<close> again and nothing is reported about \<open>p\<close>. The report of \<open>p\<close> then calls \<open>f\<close> with the
  outcome, and \<open>f\<close> may call the transport, with \<open>Connect\<close> for other peers too, as long as it does not ask for \<open>p\<close>,
  throws nothing, and the table does not rehash meanwhile. From then on, whatever happens short of another
  \<open>Connect\<close> for \<open>p\<close>, the reports about \<open>p\<close> that were made meanwhile included, a report about \<open>p\<close> does nothing.
\<close>

theorem connect_callback_called_once:
  assumes "callbacks_avoid p this" and "\<forall>e \<in> set es. event_avoids p e" and "\<forall>b u. avoids p (f b u)"
    and "after_events rehash (ClientRuns (\<lambda>u. Call () (CallConnect p (Some f)) u Return) # es) (this, u) = (this1, u1)"
    and "run_on_adapter rehash (f success u1) this1 = (Inr (), (this2, u2))"
    and "generation (pending_connect_callbacks this2) = generation (pending_connect_callbacks this1)"
  shows "\<exists>this3. on_event rehash (ConnectResult p success) (this1, u1) = (Inr (), (this3, u2)) \<and>
    (\<forall>later this4 u4 again. (\<forall>e \<in> set later. event_avoids p e \<or> report_of p e) \<longrightarrow>
       after_events rehash later (this3, u2) = (this4, u4) \<longrightarrow>
       on_event rehash (ConnectResult p again) (this4, u4) = (Inr (), (this4, u4)))"
proof -
  let ?t = "adapter_method rehash (CallConnect p (Some f)) this"
  have "callbacks_avoid p ?t"
    using assms(1) by (auto simp: adapter_method_def callbacks_avoid_def split: if_splits)
  moreover have "after_events rehash es (?t, u) = (this1, u1)" using assms(4) by simp
  ultimately have this1: "callbacks_avoid p this1" "pending_of this1 p = Some (Some f)"
    using after_events_avoid [OF assms(2)] by (simp_all add: adapter_method_def)
  have "avoids p (f success u1)" using assms(3) by simp
  note this2 = run_on_adapter_avoids [OF this this1(1) assms(5)]
  have "NotifyConnectResult rehash p success (this1, u1) = (Inr (), (forget p this2, u2))"
    using NotifyConnectResult_returns [OF this1(2) assms(5)] assms(6) this1(2) this2 by simp
  moreover have "callbacks_avoid p (forget p this2)"
    using this2 by (auto simp: callbacks_avoid_def split: if_splits)
  then have "on_event rehash (ConnectResult p again) (this4, u4) = (Inr (), (this4, u4))"
    if "\<forall>e \<in> set later. event_avoids p e \<or> report_of p e"
      and "after_events rehash later (forget p this2, u2) = (this4, u4)" for later this4 u4 again
    using after_events_answered [OF that(1) _ _ that(2)] by (simp add: NotifyConnectResult_unknown)
  ultimately show ?thesis by (intro exI [of _ "forget p this2"]) simp
qed

text \<open>A callback that asks for another peer, for which there is an entry already.\<close>

definition chain :: "bool list connect_callback" where
  "chain b log = Call () (CallConnect ''q'' (Some (\<lambda>_ log. Return log))) (log @ [b]) Return"

definition asked_twice :: "bool list BluetoothTransportAdapter" where
  "asked_twice = adapter_method (\<lambda>_. True) (CallConnect ''q'' None)
     (adapter_method (\<lambda>_. True) (CallConnect ''p'' (Some chain)) BluetoothTransportAdapter_new)"

theorem connect_callback_called_once_witness:
  "\<exists>this3. on_event (\<lambda>_. True) (ConnectResult ''p'' True) (asked_twice, []) = (Inr (), (this3, [True])) \<and>
    on_event (\<lambda>_. True) (ConnectResult ''p'' False)
      (after_events (\<lambda>_. True) [ConnectResult ''q'' True, ConnectResult ''p'' True] (this3, [True]))
    = (Inr (), after_events (\<lambda>_. True) [ConnectResult ''q'' True, ConnectResult ''p'' True] (this3, [True]))"
proof -
  let ?es = "[ClientRuns (\<lambda>u. Call () (CallConnect ''q'' None) u Return), ConnectResult ''q'' False]"
  let ?later = "[ConnectResult ''q'' True, ConnectResult ''p'' True] :: bool list adapter_event list"
  let ?t = "adapter_method (\<lambda>_. True) (CallConnect ''q'' (Some (\<lambda>_ log. Return log))) asked_twice"
  have "pending_of asked_twice ''q'' = Some None" by (simp add: asked_twice_def adapter_method_def)
  from NotifyConnectResult_empty [OF this]
  have run: "after_events (\<lambda>_. True) (ClientRuns (\<lambda>u. Call () (CallConnect ''p'' (Some chain)) u Return) # ?es)
      (BluetoothTransportAdapter_new, []) = (asked_twice, [])"
    by (simp add: asked_twice_def)
  have calls: "run_on_adapter (\<lambda>_. True) (chain True []) asked_twice = (Inr (), (?t, [True]))"
    by (simp add: chain_def)
  have gen: "generation (pending_connect_callbacks ?t) = generation (pending_connect_callbacks asked_twice)"
    by (simp add: asked_twice_def adapter_method_def map_assign_def update_conv')
  have "callbacks_avoid ''p'' (BluetoothTransportAdapter_new :: bool list BluetoothTransportAdapter)"
    by (simp add: callbacks_avoid_def BluetoothTransportAdapter_new_def map_empty_def)
  moreover have "\<forall>e \<in> set ?es. event_avoids ''p'' e"
    by (auto intro!: avoids.return avoids.connect)
  moreover have "\<forall>b u. avoids ''p'' (chain b u)"
    by (auto simp: chain_def intro!: avoids.return avoids.connect)
  ultimately obtain this3 where
    first: "on_event (\<lambda>_. True) (ConnectResult ''p'' True) (asked_twice, []) = (Inr (), (this3, [True]))"
    and later: "\<forall>later this4 u4 again. (\<forall>e \<in> set later. event_avoids ''p'' e \<or> report_of ''p'' e) \<longrightarrow>
       after_events (\<lambda>_. True) later (this3, [True]) = (this4, u4) \<longrightarrow>
       on_event (\<lambda>_. True) (ConnectResult ''p'' again) (this4, u4) = (Inr (), (this4, u4))"
    using connect_callback_called_once [OF _ _ _ run calls gen] by blast
  have "\<forall>e \<in> set ?later. event_avoids ''p'' e \<or> report_of ''p'' e" by (auto simp: report_of_def)
  with first later show ?thesis by (metis prod.collapse)
qed

text \<open>
  C23: the adapter implements its abstract specification, the table of promises. From the construction of the
  bridge on, and for any sequence of calls of clients and reports of CoreBluetooth, as long as no callback of
  \<open>Connect\<close> calls \<open>Connect\<close> itself: every event ends as on the table (the callback of the peer is called with the
  reported outcome, and the peer is forgotten when it has returned, and only then), what the clients have
  seen is the same, and the adapter stands for the table that results. So no iterator is used after it was
  invalidated, at whatever insertions the hash table rehashes.
\<close>

theorem adapter_implements_promises:
  assumes "BluetoothBridge_init super_init = Some bridge" and "\<forall>e \<in> set es. calm_event e"
    and "attempt_all (on_event rehash) es (asTransport bridge, u) = (outcomes, (this, u'))"
  shows "attempt_all on_promises es (no_promises, u) = (outcomes, (promises_of this, u'))"
  using events_promises [OF calm_adapter_new assms(2), of rehash u outcomes this u'] assms(3)
  by (simp add: asTransport_init [OF assms(1)] promises_of_new)

theorem adapter_implements_promises_witness:
  "\<exists>this. attempt_all (on_event (\<lambda>_. True))
      [ClientRuns (\<lambda>u. Call () (CallConnect ''p'' (Some (\<lambda>b log. Return (log @ [b])))) u Return),
       ClientRuns (\<lambda>u. Call () (CallConnect ''q'' None) u Return),
       ConnectResult ''p'' True, ConnectResult ''q'' True, ConnectResult ''p'' False]
      (asTransport \<lparr>bridge_adapter = BluetoothTransportAdapter_new\<rparr>, [])
    = ([Inr (), Inr (), Inr (), Inl BadFunctionCall, Inr ()], (this, [True])) \<and>
    promises_of this = \<lparr>found = None, received = None, awaiting = [''q'' \<mapsto> None]\<rparr>"
proof -
  let ?f = "\<lambda>b (log :: bool list). Return (log @ [b])"
  let ?es = "[ClientRuns (\<lambda>u. Call () (CallConnect ''p'' (Some ?f)) u Return),
    ClientRuns (\<lambda>u. Call () (CallConnect ''q'' None) u Return),
    ConnectResult ''p'' True, ConnectResult ''q'' True, ConnectResult ''p'' False]"
  let ?bridge = "\<lparr>bridge_adapter = BluetoothTransportAdapter_new\<rparr> :: bool list BluetoothBridge"
  obtain outcomes this u where run: "attempt_all (on_event (\<lambda>_. True)) ?es (asTransport ?bridge, []) = (outcomes, (this, u))"
    by (metis prod.collapse)
  have "\<forall>e \<in> set ?es. calm_event e"
    by (auto intro!: calm.return calm.connect avoids.return simp: asks_nobody_def)
  from adapter_implements_promises [OF _ this run, of True]
  have "attempt_all on_promises ?es (no_promises, []) = (outcomes, (promises_of this, u))"
    by (simp add: BluetoothBridge_init_def)
  moreover have "attempt_all on_promises ?es (no_promises, [])
      = ([Inr (), Inr (), Inr (), Inl BadFunctionCall, Inr ()],
         (\<lparr>found = None, received = None, awaiting = [''q'' \<mapsto> None]\<rparr>, [True]))"
    by (simp add: no_promises_def answer_def prog_bind_def fun_upd_twist)
  ultimately show ?thesis using run by simp
qed

text \<open>
  C22: a retry from inside the callback is lost. When the callback of \<open>p\<close> asks for \<open>p\<close> again, the new callback
  takes the entry that the report is about to erase: nothing is pending afterwards, and no report will
  ever call it. When it asks for another peer and the insertion rehashes, the erasing is undefined.
\<close>

theorem retry_inside_callback_is_lost:
  assumes "map_of (entries (pending_connect_callbacks this)) p = Some (Some f)"
    and "f success u = Call () (CallConnect q (Some g)) u Return"
  shows "(q = p \<longrightarrow> (\<exists>this'. NotifyConnectResult rehash p success (this, u) = (Inr (), (this', u)) \<and>
       map_of (entries (pending_connect_callbacks this')) p = None \<and>
       (\<forall>again u. NotifyConnectResult rehash p again (this', u) = (Inr (), (this', u))))) \<and>
    (map_of (entries (pending_connect_callbacks this)) q = None \<and>
       rehash (length (entries (pending_connect_callbacks this))) \<longrightarrow>
     fst (NotifyConnectResult rehash p success (this, u)) = Inl OutOfBounds)"
proof -
  let ?t = "adapter_method rehash (CallConnect q (Some g)) this"
  have run: "run_on_adapter rehash (f success u) this = (Inr (), (?t, u))" using assms(2) by simp
  note notify = NotifyConnectResult_returns [OF assms(1) run]
  show ?thesis
  proof (intro conjI impI)
    assume q: "q = p"
    then have "NotifyConnectResult rehash p success (this, u) = (Inr (), (forget p ?t, u))"
      using notify assms(1) by (simp add: adapter_method_def map_assign_def update_conv')
    then show "\<exists>this'. NotifyConnectResult rehash p success (this, u) = (Inr (), (this', u)) \<and>
       map_of (entries (pending_connect_callbacks this')) p = None \<and>
       (\<forall>again u. NotifyConnectResult rehash p again (this', u) = (Inr (), (this', u)))"
      by (intro exI [of _ "forget p ?t"]) (simp add: NotifyConnectResult_unknown)
  next
    assume "map_of (entries (pending_connect_callbacks this)) q = None \<and>
      rehash (length (entries (pending_connect_callbacks this)))"
    then show "fst (NotifyConnectResult rehash p success (this, u)) = Inl OutOfBounds"
      using notify by (simp add: adapter_method_def map_assign_def)
  qed
qed

definition retry :: "nat connect_callback" where
  "retry b u = Call () (CallConnect ''p'' (Some (\<lambda>b u. Return (Suc u)))) u Return"

definition retrying_adapter :: "nat BluetoothTransportAdapter" where
  "retrying_adapter = adapter_method (\<lambda>_. False) (CallConnect ''p'' (Some retry)) BluetoothTransportAdapter_new"

theorem retry_inside_callback_is_lost_witness:
  "\<exists>this'. NotifyConnectResult (\<lambda>_. False) ''p'' False (retrying_adapter, 0) = (Inr (), (this', 0)) \<and>
    (\<forall>again u. NotifyConnectResult (\<lambda>_. False) ''p'' again (this', u) = (Inr (), (this', u)))"
proof -
  have "map_of (entries (pending_connect_callbacks retrying_adapter)) ''p'' = Some (Some retry)"
    by (simp add: retrying_adapter_def adapter_method_def)
  from retry_inside_callback_is_lost [OF this retry_def, where rehash = "\<lambda>_. False" and success = False and u = 0] show ?thesis by auto
qed

text \<open>
  An empty callback. The loopback transport tests the callback of \<open>Connect\<close> before it calls it, the
  adapter does not: on the adapter the report of a connection asked for with an empty callback is an
  exception, the entry stays, and so does every later report.
\<close>

theorem empty_connect_callback:
  "run_client h (Call a (CallConnect p None) u k) = run_client h (k u) \<and>
   (\<exists>this'. on_event rehash (ClientRuns (\<lambda>u. Call () (CallConnect p None) u Return)) (this, u) = (Inr (), (this', u)) \<and>
     (\<forall>success u. on_event rehash (ConnectResult p success) (this', u) = (Inl BadFunctionCall, (this', u))))"
proof -
  let ?t = "adapter_method rehash (CallConnect p None) this"
  have "pending_of ?t p = Some None" by (simp add: adapter_method_def)
  then have "on_event rehash (ConnectResult p success) (?t, u) = (Inl BadFunctionCall, (?t, u))" for success u
    by (simp add: NotifyConnectResult_empty)
  then show ?thesis
    by (intro conjI exI [of _ ?t]) (simp_all add: run_client_quiet loopback_method_def)
qed

end
