(* ===== verification/Bridge.thy ===== *)
theory Bridge
  imports CApi
begin

text \<open>
  The Go daemon: \<open>cmd/daemon/bridge.go\<close>, the wrapper around the C interface, and the self-check that
  \<open>cmd/daemon/main.go\<close> makes through it. The state is that of OpenSSL and the heap of \<open>malloc\<close>; the memory
  of Go is its own and is collected. A function that returns a value and an \<open>error\<close> returns a sum; a
  run-time panic is the failure \<open>Panic\<close>. A nil slice and an empty one are the same list.
\<close>

section \<open>What cgo provides\<close>

text \<open>\<open>fmt.Errorf(format, status)\<close>\<close>

datatype go_error = Errorf string airdrop_status

type_synonym 'a go = "go_error + 'a"

text \<open>\<open>C.CString\<close> copies a string and a zero behind it to the heap of C; it does not return without memory.\<close>

definition C_CString :: "string \<Rightarrow> (heap, address) prog" where
  "C_CString s h =
     (case malloc (length s + 1) h of
        (None, h) \<Rightarrow> (Inl (Panic ''runtime: C malloc failed''), h)
      | (Some a, h) \<Rightarrow> prog_bind (memcpy_to a (map byte_of_char s @ [0])) (\<lambda>_. prog_return a) h)"

text \<open>\<open>C.GoBytes(p, n)\<close>; \<open>n\<close> is a \<open>C.int\<close>.\<close>

definition C_GoBytes :: "address \<Rightarrow> 32 word \<Rightarrow> (heap, bytes) prog" where
  "C_GoBytes p n h =
     (if sint n < 0 then (Inl (Panic ''runtime: gobytes: length out of range''), h)
      else case blocks h p of
        None \<Rightarrow> (Inl OutOfBounds, h)
      | Some b \<Rightarrow> (mem_read b (unat n), h))"

text \<open>\<open>&s[0]\<close> of a slice: the pointer reaches to the end of the slice.\<close>

definition first_element :: "bytes \<Rightarrow> bytes option result" where
  "first_element s =
     (if s = [] then Inl (Panic ''runtime error: index out of range [0] with length 0'') else Inr (Some s))"

text \<open>The value of a variable whose address was passed to C.\<close>

definition zero_array :: bytes where
  "zero_array = replicate 32 0"

definition zero_buffer :: airdrop_buffer where
  "zero_buffer = \<lparr>buf_data = None, buf_len = 0\<rparr>"

definition array_var :: "bytes option \<Rightarrow> bytes" where
  "array_var p = (case p of None \<Rightarrow> zero_array | Some b \<Rightarrow> b)"

definition buffer_var :: "airdrop_buffer option \<Rightarrow> airdrop_buffer" where
  "buffer_var p = (case p of None \<Rightarrow> zero_buffer | Some b \<Rightarrow> b)"

text \<open>\<open>defer f()\<close>: \<open>f\<close> runs when the function is left, by a return or a panic.\<close>

definition go_defer :: "('s, unit) prog \<Rightarrow> ('s, 'a) prog \<Rightarrow> ('s, 'a) prog" where
  "go_defer f m s =
     (let (r, s) = m s in case f s of (Inl e, s) \<Rightarrow> (Inl e, s) | (Inr _, s) \<Rightarrow> (r, s))"

definition on_fst :: "('a, 'r) prog \<Rightarrow> ('a \<times> 'b, 'r) prog" where
  "on_fst m s = (let (r, a) = m (fst s) in (r, (a, snd s)))"

definition on_snd :: "('b, 'r) prog \<Rightarrow> ('a \<times> 'b, 'r) prog" where
  "on_snd m s = (let (r, b) = m (snd s) in (r, (fst s, b)))"

section \<open>The bridge\<close>

record GoKeyPair =
  Public :: bytes
  Private :: bytes

record GoEncryptedChunk =
  Nonce :: bytes
  Ciphertext :: bytes
  Tag :: bytes

definition GoGenerateKeyPair :: "('o, 'k, 'p) pkey_lib \<Rightarrow> ('o \<times> heap, GoKeyPair go) prog" where
  "GoGenerateKeyPair lib =
     prog_bind (on_fst (airdrop_generate_keypair lib (Some zero_array) (Some zero_array))) (\<lambda>(status, pub, priv).
     if status \<noteq> AIRDROP_OK
     then prog_return (Inl (Errorf ''airdrop_generate_keypair failed: status=%d'' status))
     else prog_return (Inr \<lparr>Public = array_var pub, Private = array_var priv\<rparr>))"

definition GoDeriveSessionKey ::
    "('o, 'k, 'p) pkey_lib \<Rightarrow> bytes \<Rightarrow> bytes \<Rightarrow> string \<Rightarrow> ('o \<times> heap, bytes go) prog" where
  "GoDeriveSessionKey lib myPrivate peerPublic info =
     prog_bind (on_snd (C_CString info)) (\<lambda>cInfo.
     go_defer (on_snd (heap_free cInfo)) (\<lambda>s.
       prog_bind (on_fst (airdrop_derive_session_key lib (Some myPrivate) (Some peerPublic)
         (blocks (snd s) cInfo) (Some zero_array))) (\<lambda>(status, sessionKey).
       if status \<noteq> AIRDROP_OK
       then prog_return (Inl (Errorf ''airdrop_derive_session_key failed: status=%d'' status))
       else prog_return (Inr (array_var sessionKey))) s))"

definition bufToBytes :: "airdrop_buffer \<Rightarrow> (heap, bytes) prog" where
  "bufToBytes buf =
     (case buf_data buf of
        None \<Rightarrow> prog_return []
      | Some p \<Rightarrow>
          if buf_len buf = 0 then prog_return []
          else go_defer (airdrop_free_buffer buf) (C_GoBytes p (ucast (buf_len buf))))"

definition GoEncryptChunk ::
    "('o, 'c) cipher_lib \<Rightarrow> bytes \<Rightarrow> bytes \<Rightarrow> ('o \<times> heap, GoEncryptedChunk go) prog" where
  "GoEncryptChunk lib sessionKey plaintext =
     (let ptPtr = (if length plaintext > 0 then Some plaintext else None) in
      prog_bind (airdrop_encrypt_chunk lib (Some sessionKey) ptPtr (vec_size plaintext)
        (Some zero_buffer) (Some zero_buffer) (Some zero_buffer)) (\<lambda>(status, nonce, ciphertext, tag).
      if status \<noteq> AIRDROP_OK
      then prog_return (Inl (Errorf ''airdrop_encrypt_chunk failed: status=%d'' status))
      else
        prog_bind (on_snd (bufToBytes (buffer_var nonce))) (\<lambda>n.
        prog_bind (on_snd (bufToBytes (buffer_var ciphertext))) (\<lambda>c.
        prog_bind (on_snd (bufToBytes (buffer_var tag))) (\<lambda>t.
        prog_return (Inr \<lparr>Nonce = n, Ciphertext = c, Tag = t\<rparr>))))))"

definition GoDecryptChunk ::
    "('o, 'c) cipher_lib \<Rightarrow> bytes \<Rightarrow> GoEncryptedChunk \<Rightarrow> ('o \<times> heap, bytes go) prog" where
  "GoDecryptChunk lib sessionKey chunk s =
     (case res_bind (first_element (Nonce chunk)) (\<lambda>n.
           res_bind (first_element (Ciphertext chunk)) (\<lambda>c.
           res_bind (first_element (Tag chunk)) (\<lambda>t. Inr (n, c, t)))) of
        Inl e \<Rightarrow> (Inl e, s)
      | Inr (n, c, t) \<Rightarrow>
          prog_bind (airdrop_decrypt_chunk lib (Some sessionKey) n (vec_size (Nonce chunk))
            c (vec_size (Ciphertext chunk)) t (vec_size (Tag chunk)) (Some zero_buffer)) (\<lambda>(status, plaintext).
          if status \<noteq> AIRDROP_OK
          then prog_return (Inl (Errorf
            ''airdrop_decrypt_chunk failed (auth error or corrupted data): status=%d'' status))
          else prog_bind (on_snd (bufToBytes (buffer_var plaintext))) (\<lambda>p. prog_return (Inr p))) s)"

definition GoSha256File ::
    "('o, 'm) digest_lib \<Rightarrow> filesystem \<Rightarrow> string \<Rightarrow> ('o \<times> heap, bytes go) prog" where
  "GoSha256File lib fs path =
     prog_bind (on_snd (C_CString path)) (\<lambda>cPath.
     go_defer (on_snd (heap_free cPath)) (\<lambda>s.
       prog_bind (on_fst (airdrop_sha256_file lib fs (blocks (snd s) cPath) (Some zero_array))) (\<lambda>(status, digest).
       if status \<noteq> AIRDROP_OK
       then prog_return (Inl (Errorf ''airdrop_sha256_file failed: status=%d'' status))
       else prog_return (Inr (array_var digest))) s))"

section \<open>The self-check of the daemon\<close>

text \<open>
  How \<open>main\<close> ends: at its end, or by \<open>log.Fatal\<close>, here with what the message says and the error it prints.
  The lines printed on the way are left out.
\<close>

datatype daemon_end = MainReturns | Fatal string "go_error option"

text \<open>The test message, in UTF-8.\<close>

definition test_plaintext :: bytes where
  "test_plaintext =
     [0xD0, 0xBF, 0xD1, 0x80, 0xD0, 0xB8, 0xD0, 0xB2, 0xD0, 0xB5, 0xD1, 0x82, 0x2C, 0x20, 0xD1, 0x8D, 0xD1, 0x82,
      0xD0, 0xBE, 0x20, 0xD1, 0x82, 0xD0, 0xB5, 0xD1, 0x81, 0xD1, 0x82, 0xD0, 0xBE, 0xD0, 0xB2, 0xD1, 0x8B, 0xD0,
      0xB9, 0x20, 0xD1, 0x87, 0xD0, 0xB0, 0xD0, 0xBD, 0xD0, 0xBA, 0x20, 0xD1, 0x84, 0xD0, 0xB0, 0xD0, 0xB9, 0xD0,
      0xBB, 0xD0, 0xB0]"

text \<open>\<open>v, err := m; if err != nil { log.Fatalf(what, err) }\<close>\<close>

definition or_fatal :: "('s, 'a go) prog \<Rightarrow> string \<Rightarrow> ('a \<Rightarrow> ('s, daemon_end) prog) \<Rightarrow> ('s, daemon_end) prog" where
  "or_fatal m what f =
     prog_bind m (\<lambda>r. case r of Inl err \<Rightarrow> prog_return (Fatal what (Some err)) | Inr v \<Rightarrow> f v)"

definition daemon_main ::
    "('o, 'k, 'p) pkey_lib \<Rightarrow> ('o, 'c) cipher_lib \<Rightarrow> ('o, 'm) digest_lib \<Rightarrow> filesystem \<Rightarrow> string \<Rightarrow>
     ('o \<times> heap, daemon_end) prog" where
  "daemon_main plib lib dlib fs selfPath =
     or_fatal (GoGenerateKeyPair plib) ''GenerateKeyPair (alice)'' (\<lambda>alice.
     or_fatal (GoGenerateKeyPair plib) ''GenerateKeyPair (bob)'' (\<lambda>bob.
     or_fatal (GoDeriveSessionKey plib (Private alice) (Public bob) ''airdrop-session-v1'')
       ''DeriveSessionKey (alice)'' (\<lambda>sessionAlice.
     or_fatal (GoDeriveSessionKey plib (Private bob) (Public alice) ''airdrop-session-v1'')
       ''DeriveSessionKey (bob)'' (\<lambda>sessionBob.
     if sessionAlice \<noteq> sessionBob then prog_return (Fatal ''session keys differ'' None)
     else
       let plaintext = test_plaintext in
       or_fatal (GoEncryptChunk lib sessionAlice plaintext) ''EncryptChunk'' (\<lambda>enc.
       or_fatal (GoDecryptChunk lib sessionBob enc) ''DecryptChunk'' (\<lambda>decrypted.
       if decrypted \<noteq> plaintext then prog_return (Fatal ''decrypted data differ'' None)
       else prog_bind (GoSha256File dlib fs selfPath) (\<lambda>digest. prog_return MainReturns)))))))"

section \<open>Slices out of C buffers\<close>

lemma sint_int_nonneg:
  assumes "unat (y :: 32 word) < 2 ^ 31"
  shows "0 \<le> sint y"
proof -
  have "int (unat y) < int (2 ^ 31)" using assms by (simp only: of_nat_less_iff)
  then have "uint y < 2 ^ 31" by simp
  then have "signed_take_bit 31 (uint y) = uint y"
    by (intro signed_take_bit_int_eq_self) (auto intro: order_trans [OF _ uint_ge_0])
  then show ?thesis by (simp add: sint_uint)
qed

lemma unat_ucast_vec_size:
  assumes "length d < 2 ^ 32"
  shows "unat (ucast (vec_size d) :: 32 word) = length d"
proof -
  have "unat (vec_size d) = length d" using assms by (intro unat_vec_size) (simp add: vec_limit_def)
  then show ?thesis using assms by (simp add: unsigned_ucast_eq take_bit_nat_eq_self)
qed

lemma bufToBytes_holds:
  assumes ok: "heap_ok h" and b: "holds h b d" and "d \<noteq> []" and d: "length d < 2 ^ 31"
  obtains h' where "bufToBytes b h = (Inr d, h')" and "heap_ok h'" and "heap_room h' = heap_room h + length d"
    and "\<And>b' d'. b' \<noteq> b \<Longrightarrow> holds h b' d' \<Longrightarrow> holds h' b' d'"
proof -
  obtain a where a: "b = \<lparr>buf_data = Some a, buf_len = vec_size d\<rparr>" "blocks h a = Some d"
    using b by (auto simp: holds_def)
  have n: "unat (ucast (vec_size d) :: 32 word) = length d" using d by (intro unat_ucast_vec_size) simp
  then have "0 \<le> sint (ucast (vec_size d) :: 32 word)" using d by (intro sint_int_nonneg) simp
  then have read: "C_GoBytes a (ucast (vec_size d)) h = (Inr d, h)"
    using a(2) n by (simp add: C_GoBytes_def mem_read_def)
  have "unat (vec_size d) = length d" using d by (intro unat_vec_size) (simp add: vec_limit_def)
  then have "vec_size d \<noteq> 0" using assms(3) by (metis length_0_conv unat_0)
  then have eq: "bufToBytes b h = go_defer (airdrop_free_buffer b) (C_GoBytes a (ucast (vec_size d))) h"
    by (simp add: bufToBytes_def a(1))
  from cbuf.release_room [OF ok b] obtain h' where
    "airdrop_free_buffer b h = (Inr (), h')" "heap_ok h'" "heap_room h' = heap_room h + length d"
    "\<forall>b' d'. b' \<noteq> b \<longrightarrow> holds h b' d' \<longrightarrow> holds h' b' d'" by blast
  with read show thesis by (intro that [of h']) (simp_all add: eq go_defer_def)
qed

text \<open>An empty buffer is a nil slice, and stays on the heap.\<close>

lemma bufToBytes_empty: "holds h b [] \<Longrightarrow> bufToBytes b h = (Inr [], h)"
  by (auto simp: holds_def bufToBytes_def vec_size_def)

text \<open>A plaintext is passed without a pointer when it is empty; for the callee that is the same.\<close>

lemma encrypt_null_pointer:
  "airdrop_encrypt_chunk lib k None (vec_size ([] :: bytes)) n c t s =
    airdrop_encrypt_chunk lib k (Some []) (vec_size ([] :: bytes)) n c t s"
proof -
  have "vec_from None (vec_size ([] :: bytes)) = vec_from (Some []) (vec_size ([] :: bytes))"
    by (simp add: vec_from_def vec_size_def mem_read_def)
  then show ?thesis by (simp only: airdrop_encrypt_chunk_def)
qed

lemma encrypt_pointer:
  "airdrop_encrypt_chunk lib k (if length p > 0 then Some p else None) (vec_size p) n c t s =
    airdrop_encrypt_chunk lib k (Some p) (vec_size p) n c t s"
  using encrypt_null_pointer by (cases "p = []") simp_all

text \<open>
  Encrypting through the bridge: a chunk that decrypts to the plaintext, under any state of the library. The
  buffers of C are back on the heap, except that of an empty ciphertext.
\<close>

lemma GoEncryptChunk_seals:
  assumes ready: "cipher_ready lib" and key: "key_ok k" and p: "length p < 2 ^ 31"
    and h: "heap_ok h" and room: "28 + length p \<le> heap_room h"
  obtains e os1 h1 where "GoEncryptChunk lib k p (os, h) = (Inr (Inr e), (os1, h1))"
    and "length (Nonce e) = 12" and "length (Ciphertext e) = length p" and "length (Tag e) = 16"
    and "\<forall>os. fst (DecryptChunk lib k \<lparr>enc_nonce = Nonce e, enc_ciphertext = Ciphertext e, enc_tag = Tag e\<rparr> os) = Inr p"
    and "heap_ok h1" and "heap_room h1 = heap_room h"
    and "p = [] \<longrightarrow> (\<exists>b. holds h1 b [])"
proof -
  obtain os1 h0 nb cb tb n c t where enc:
      "airdrop_encrypt_chunk lib (Some k) (Some p) (vec_size p) (Some zero_buffer) (Some zero_buffer)
         (Some zero_buffer) (os, h) = (Inr (AIRDROP_OK, Some nb, Some cb, Some tb), (os1, h0))"
      "heap_ok h0" "heap_room h0 = heap_room h - (28 + length p)"
      and held: "holds h0 nb n" "holds h0 cb c" "holds h0 tb t" and dist: "distinct [nb, cb, tb]"
      and len: "length n = 12" "length c = length p" "length t = 16"
      and dec: "\<forall>os2. fst (DecryptChunk lib k \<lparr>enc_nonce = n, enc_ciphertext = c, enc_tag = t\<rparr> os2) = Inr p"
    using encrypt_chunk_buffers [OF ready key p h room, of zero_buffer zero_buffer zero_buffer os] by blast
  have ne: "n \<noteq> []" "t \<noteq> []" "length n < 2 ^ 31" "length t < 2 ^ 31" "length c < 2 ^ 31"
    using len p by auto
  obtain h2 where h2: "bufToBytes nb h0 = (Inr n, h2)" "heap_ok h2" "heap_room h2 = heap_room h0 + length n"
      "holds h2 cb c" "holds h2 tb t"
    using bufToBytes_holds [OF enc(2) held(1) ne(1,3)] held(2,3) dist by (metis distinct_length_2_or_more)
  obtain h3 where h3: "bufToBytes cb h2 = (Inr c, h3)" "heap_ok h3" "heap_room h3 = heap_room h2 + length c"
      "holds h3 tb t" "c = [] \<Longrightarrow> holds h3 cb []"
  proof (cases "c = []")
    case True
    then show thesis using that [of h2] bufToBytes_empty [of h2 cb] h2 by simp
  next
    case False
    from bufToBytes_holds [OF h2(2,4) False ne(5)] h2(5) dist that False show thesis
      by (metis distinct_length_2_or_more)
  qed
  obtain h4 where h4: "bufToBytes tb h3 = (Inr t, h4)" "heap_ok h4" "heap_room h4 = heap_room h3 + length t"
      "c = [] \<Longrightarrow> holds h4 cb []"
    using bufToBytes_holds [OF h3(2,4) ne(2,4)] h3(5) dist by (metis distinct_length_2_or_more)
  let ?e = "\<lparr>Nonce = n, Ciphertext = c, Tag = t\<rparr>"
  have "GoEncryptChunk lib k p (os, h) = (Inr (Inr ?e), (os1, h4))"
    unfolding GoEncryptChunk_def Let_def encrypt_pointer
    using enc(1) h2(1) h3(1) h4(1) by (simp add: on_snd_def buffer_var_def prog_bind_def)
  then show thesis
    using len dec h4(2-4) h3(3) h2(3) enc(3) room by (intro that [of ?e os1 h4]) auto
qed

lemma GoDecryptChunk_opens:
  assumes key: "key_ok k" and dec: "\<forall>os. fst (DecryptChunk lib k
      \<lparr>enc_nonce = Nonce e, enc_ciphertext = Ciphertext e, enc_tag = Tag e\<rparr> os) = Inr p"
    and ne: "Nonce e \<noteq> []" "Ciphertext e \<noteq> []" "Tag e \<noteq> []" "p \<noteq> []"
    and len: "length (Nonce e) < vec_limit" "length (Ciphertext e) < vec_limit" "length (Tag e) < vec_limit"
      "length p < 2 ^ 31"
    and h: "heap_ok h" and room: "length p \<le> heap_room h"
  obtains os1 h1 where "GoDecryptChunk lib k e (os, h) = (Inr (Inr p), (os1, h1))"
    and "heap_ok h1" and "heap_room h1 = heap_room h"
proof -
  obtain os1 where d: "DecryptChunk lib k
      \<lparr>enc_nonce = Nonce e, enc_ciphertext = Ciphertext e, enc_tag = Tag e\<rparr> os = (Inr p, os1)"
    using dec by (metis prod.collapse)
  obtain pb h2 where mk: "MakeBuffer p h = (Inr pb, h2)" "heap_ok h2" "heap_room h2 = heap_room h - length p"
      "holds h2 pb p"
    using cbuf.make_contains [OF h room] by blast
  obtain h3 where h3: "bufToBytes pb h2 = (Inr p, h3)" "heap_ok h3" "heap_room h3 = heap_room h2 + length p"
    using bufToBytes_holds [OF mk(2,4) ne(4) len(4)] by blast
  have "airdrop_decrypt_chunk lib (Some k) (Some (Nonce e)) (vec_size (Nonce e)) (Some (Ciphertext e))
      (vec_size (Ciphertext e)) (Some (Tag e)) (vec_size (Tag e)) (Some zero_buffer) (os, h)
    = (Inr (AIRDROP_OK, Some pb), (os1, h2))"
    using decrypt_chunk_status [OF key len(1-3) d, of zero_buffer h] mk(1) by simp
  then have "GoDecryptChunk lib k e (os, h) = (Inr (Inr p), (os1, h3))"
    using ne h3(1) by (simp add: GoDecryptChunk_def first_element_def on_snd_def buffer_var_def prog_bind_def)
  then show thesis
    using h3(2,3) mk(3) room by (intro that [of os1 h3]) simp_all
qed

section \<open>C strings\<close>

text \<open>A Go string can hold zero bytes; C reads it up to the first.\<close>

definition c_prefix :: "string \<Rightarrow> string" where
  "c_prefix = takeWhile (\<lambda>c. byte_of_char c \<noteq> 0)"

lemma c_string_terminated: "c_string (map byte_of_char s @ [0]) = Inr (c_prefix s)"
proof -
  have "takeWhile (\<lambda>b. b \<noteq> 0) (map byte_of_char s @ [0]) = map byte_of_char (c_prefix s)"
    unfolding c_prefix_def by (induction s) auto
  moreover have "0 \<in> set (map byte_of_char s @ [0])" by simp
  ultimately show ?thesis by (simp only: c_string_def if_True map_char_of_byte)
qed

lemma length_c_prefix: "length (c_prefix s) \<le> length s"
  unfolding c_prefix_def by (rule length_takeWhile_le)

text \<open>The copy on the heap of C, from \<open>CString\<close> to the deferred \<open>free\<close>.\<close>

lemma C_CString_copies:
  assumes "heap_ok h" and "length s < heap_room h"
  obtains a h1 where "C_CString s h = (Inr a, h1)" and "blocks h1 a = Some (map byte_of_char s @ [0])"
    and "\<exists>h2. heap_free a h1 = (Inr (), h2) \<and> heap_ok h2 \<and> heap_room h2 = heap_room h"
proof -
  let ?d = "map byte_of_char s @ [0]"
  let ?h1 = "h\<lparr>blocks := (blocks h)(next_block h \<mapsto> ?d), next_block := Suc (next_block h),
      heap_room := heap_room h - length ?d\<rparr>"
  let ?h2 = "?h1\<lparr>blocks := (blocks ?h1)(next_block h := None), heap_room := heap_room ?h1 + length ?d\<rparr>"
  have copy: "C_CString s h = (Inr (next_block h), ?h1)"
    using assms(2) by (simp add: C_CString_def malloc_def memcpy_to_def prog_bind_def)
  have block: "blocks ?h1 (next_block h) = Some ?d" by simp
  have "heap_free (next_block h) ?h1 = (Inr (), ?h2)"
    by (simp add: heap_free_def)
  moreover have "heap_ok ?h2" and "heap_room ?h2 = heap_room h"
    using assms by (simp_all add: heap_ok_def)
  ultimately show thesis by (intro that [OF copy block] exI [of _ ?h2] conjI)
qed

lemma go_with_CString:
  assumes "heap_ok h" and "length s < heap_room h"
    and "\<And>h1 a. blocks h1 a = Some (map byte_of_char s @ [0]) \<Longrightarrow> m a (os, h1) = (r, (os', h1))"
  obtains h' where "prog_bind (on_snd (C_CString s)) (\<lambda>a. go_defer (on_snd (heap_free a)) (m a)) (os, h) = (r, (os', h'))"
    and "heap_ok h'" and "heap_room h' = heap_room h"
proof -
  obtain a h1 where "C_CString s h = (Inr a, h1)" "blocks h1 a = Some (map byte_of_char s @ [0])"
      "\<exists>h2. heap_free a h1 = (Inr (), h2) \<and> heap_ok h2 \<and> heap_room h2 = heap_room h"
    by (rule C_CString_copies [OF assms(1,2)])
  moreover from this(3) obtain h2 where "heap_free a h1 = (Inr (), h2)" "heap_ok h2" "heap_room h2 = heap_room h"
    by blast
  ultimately have "prog_bind (on_snd (C_CString s)) (\<lambda>a. go_defer (on_snd (heap_free a)) (m a)) (os, h) = (r, (os', h2))"
    using assms(3) [of h1 a] by (simp add: on_snd_def prog_bind_def go_defer_def)
  then show thesis using that \<open>heap_ok h2\<close> \<open>heap_room h2 = heap_room h\<close> by blast
qed

section \<open>Keys and hashes through the bridge\<close>

text \<open>The C calls on variables of 32 zero bytes, as both callers make them.\<close>

lemma airdrop_generate_keypair_fresh:
  assumes "kex_contract lib st priv pubk pub dh hkdf"
  obtains a os' where "airdrop_generate_keypair lib (Some zero_array) (Some zero_array) os
      = (Inr (AIRDROP_OK, Some (pub a), Some a), os')"
    and "length a = 32" and "length (pub a) = 32"
proof -
  obtain a os' where a: "GenerateKeyPair lib os = (Inr \<lparr>public_key = pub a, private_key = a\<rparr>, os')"
      "length a = 32" "length (pub a) = 32"
    using GenerateKeyPair_fresh [OF assms] by blast
  then have "airdrop_generate_keypair lib (Some zero_array) (Some zero_array) os
      = (Inr (AIRDROP_OK, Some (pub a), Some a), os')"
    by (simp add: airdrop_generate_keypair_def c_memory zero_array_def)
  from this a(2,3) show thesis by (rule that)
qed

lemma airdrop_derive_session_key_derives:
  assumes con: "kex_contract lib st priv pubk pub dh hkdf"
    and len: "length a = 32" "length p = 32" "length info \<le> 1024" and s: "dh a p = Some s"
  obtains os' where "airdrop_derive_session_key lib (Some a) (Some p) (Some (map byte_of_char info @ [0]))
      (Some zero_array) os = (Inr (AIRDROP_OK, Some (hkdf [] s (map byte_of_char (c_prefix info)))), os')"
    and "length (hkdf [] s (map byte_of_char (c_prefix info))) = 32"
proof -
  let ?k = "hkdf [] s (map byte_of_char (c_prefix info))"
  have "dh_algebra pub dh hkdf" using con by (simp add: kex_contract_def)
  then have k: "length ?k = 32" by (simp add: dh_algebra_def)
  have keys: "key_ok a" "key_ok p" using len by (simp_all add: key_ok_def crypto_sizes)
  have info: "length (c_prefix info) \<le> 1024" using length_c_prefix [of info] len(3) by simp
  obtain os' where d: "DeriveSessionKey lib a p (c_prefix info) os = (Inr ?k, os')"
    using DeriveSessionKey_outcome [OF con keys info, of os] s by auto
  have "airdrop_derive_session_key lib (Some a) (Some p) (Some (map byte_of_char info @ [0])) (Some zero_array) os
      = (Inr (AIRDROP_OK, Some ?k), os')"
    using d k len c_string_terminated [of info]
    by (simp add: airdrop_derive_session_key_def mem_read_def buf_store_def try_catch_def zero_array_def crypto_sizes)
  from this k show thesis by (rule that)
qed

lemma GoGenerateKeyPair_fresh:
  assumes "kex_contract lib st priv pubk pub dh hkdf"
  obtains a os' where "GoGenerateKeyPair lib (os, h) = (Inr (Inr \<lparr>Public = pub a, Private = a\<rparr>), (os', h))"
    and "length a = 32" and "length (pub a) = 32"
proof -
  obtain a os' where a: "airdrop_generate_keypair lib (Some zero_array) (Some zero_array) os
      = (Inr (AIRDROP_OK, Some (pub a), Some a), os')" "length a = 32" "length (pub a) = 32"
    by (rule airdrop_generate_keypair_fresh [OF assms])
  then have "GoGenerateKeyPair lib (os, h) = (Inr (Inr \<lparr>Public = pub a, Private = a\<rparr>), (os', h))"
    by (simp add: GoGenerateKeyPair_def on_fst_def prog_bind_def array_var_def)
  from this a(2,3) show thesis by (rule that)
qed

lemma GoDeriveSessionKey_derives:
  assumes con: "kex_contract lib st priv pubk pub dh hkdf"
    and len: "length a = 32" "length p = 32" "length info \<le> 1024" and s: "dh a p = Some s"
    and h: "heap_ok h" "length info < heap_room h"
  obtains os' h' where "GoDeriveSessionKey lib a p info (os, h)
      = (Inr (Inr (hkdf [] s (map byte_of_char (c_prefix info)))), (os', h'))"
    and "heap_ok h'" and "heap_room h' = heap_room h"
proof -
  let ?k = "hkdf [] s (map byte_of_char (c_prefix info))"
  obtain os' where "airdrop_derive_session_key lib (Some a) (Some p) (Some (map byte_of_char info @ [0]))
      (Some zero_array) os = (Inr (AIRDROP_OK, Some ?k), os')" "length ?k = 32"
    by (rule airdrop_derive_session_key_derives [OF con len s])
  then have body: "prog_bind (on_fst (airdrop_derive_session_key lib (Some a) (Some p) (blocks (snd (os, h1)) q)
        (Some zero_array))) (\<lambda>(status, sessionKey).
      if status \<noteq> AIRDROP_OK
      then prog_return (Inl (Errorf ''airdrop_derive_session_key failed: status=%d'' status))
      else prog_return (Inr (array_var sessionKey))) (os, h1) = (Inr (Inr ?k), (os', h1))"
    if "blocks h1 q = Some (map byte_of_char info @ [0])" for h1 q
    using that by (simp add: on_fst_def prog_bind_def array_var_def)
  show thesis
    by (rule go_with_CString [OF h body], assumption, rule that [unfolded GoDeriveSessionKey_def])
qed

lemma GoSha256File_ends:
  assumes "digest_ready lib H" and h: "heap_ok h" "length path < heap_room h"
  obtains os' h' where "GoSha256File lib fs path (os, h) =
      (Inr (case files fs (c_prefix path) of
              Some content \<Rightarrow> if readable fs (c_prefix path) then Inr (H content)
                else Inl (Errorf ''airdrop_sha256_file failed: status=%d'' AIRDROP_ERR_IO)
            | None \<Rightarrow> Inl (Errorf ''airdrop_sha256_file failed: status=%d'' AIRDROP_ERR_IO)), (os', h'))"
    and "heap_ok h'" and "heap_room h' = heap_room h"
proof -
  let ?name = "c_prefix path"
  obtain absorbed where con: "digest_contract lib absorbed H" using assms(1) by (auto simp: digest_ready_def)
  have len: "length (H m) = 32" for m
    using digest_steps(1) [OF con] by (simp add: SHA256_DIGEST_LENGTH_def)
  let ?result = "case files fs ?name of
      Some content \<Rightarrow> if readable fs ?name then Inr (H content)
        else Inl (Errorf ''airdrop_sha256_file failed: status=%d'' AIRDROP_ERR_IO)
    | None \<Rightarrow> Inl (Errorf ''airdrop_sha256_file failed: status=%d'' AIRDROP_ERR_IO)"
  let ?ok = "files fs ?name \<noteq> None \<and> readable fs ?name"
  let ?content = "case files fs ?name of Some c \<Rightarrow> c | None \<Rightarrow> []"
  obtain os' where "airdrop_sha256_file lib fs (Some (map byte_of_char path @ [0])) (Some zero_array) os
      = (Inr (if ?ok then AIRDROP_OK else AIRDROP_ERR_IO, Some (if ?ok then H ?content else zero_array)), os')"
  proof (cases ?ok)
    case True
    then obtain content where c: "files fs ?name = Some content" "readable fs ?name" by auto
    obtain os' where "Sha256File lib fs ?name os = (Inr (H content), os')"
      using Sha256File_hash [OF con c] by blast
    then show thesis
      using c len c_string_terminated [of path]
      by (intro that [of os']) (simp add: airdrop_sha256_file_def buf_store_def try_catch_def zero_array_def)
  next
    case False
    then have "files fs ?name = None \<or> \<not> readable fs ?name" by auto
    from Sha256File_missing [OF this, of lib os] False show thesis
      using c_string_terminated [of path]
      by (intro that) (auto simp: airdrop_sha256_file_def try_catch_def)
  qed
  then have body: "prog_bind (on_fst (airdrop_sha256_file lib fs (blocks (snd (os, h1)) q) (Some zero_array)))
      (\<lambda>(status, digest).
        if status \<noteq> AIRDROP_OK
        then prog_return (Inl (Errorf ''airdrop_sha256_file failed: status=%d'' status))
        else prog_return (Inr (array_var digest))) (os, h1) = (Inr ?result, (os', h1))"
    if "blocks h1 q = Some (map byte_of_char path @ [0])" for h1 q
    using that by (auto simp: on_fst_def prog_bind_def array_var_def split: option.splits)
  show thesis
    by (rule go_with_CString [OF h body], assumption, rule that [unfolded GoSha256File_def])
qed

end
