(* ===== verification/Bridge_Props.thy ===== *)
theory Bridge_Props
  imports Bridge Samples
begin

text \<open>
  The properties of the Go side: a chunk through the bridge, the chunk the bridge cannot take back, what
  happens without memory, and the self-check of the daemon.
\<close>

section \<open>A chunk through the bridge\<close>

text \<open>
  A chunk encrypted through the Go bridge decrypts through it to the same bytes, and the C heap has all
  its room back after each call: every buffer was released. For chunks that are not empty and below 2 GiB.
\<close>

theorem go_chunk_round_trip:
  assumes "cipher_ready lib" and "key_ok k" and "p \<noteq> []" and "length p < 2 ^ 31"
    and "heap_ok h" and "28 + length p \<le> heap_room h"
  shows "\<exists>e os1 h1 os2 h2.
    GoEncryptChunk lib k p (os, h) = (Inr (Inr e), (os1, h1)) \<and> heap_room h1 = heap_room h \<and>
    length (Nonce e) = 12 \<and> length (Ciphertext e) = length p \<and> length (Tag e) = 16 \<and>
    GoDecryptChunk lib k e (os1, h1) = (Inr (Inr p), (os2, h2)) \<and> heap_room h2 = heap_room h"
proof -
  obtain e os1 h1 where e: "GoEncryptChunk lib k p (os, h) = (Inr (Inr e), (os1, h1))"
      "length (Nonce e) = 12" "length (Ciphertext e) = length p" "length (Tag e) = 16"
      "\<forall>os. fst (DecryptChunk lib k \<lparr>enc_nonce = Nonce e, enc_ciphertext = Ciphertext e, enc_tag = Tag e\<rparr> os) = Inr p"
      "heap_ok h1" "heap_room h1 = heap_room h" "p = [] \<longrightarrow> (\<exists>b. holds h1 b [])"
    by (rule GoEncryptChunk_seals [OF assms(1,2,4-6)])
  have ne: "Nonce e \<noteq> []" "Ciphertext e \<noteq> []" "Tag e \<noteq> []" using e(2-4) assms(3) by auto
  have len: "length (Nonce e) < vec_limit" "length (Ciphertext e) < vec_limit" "length (Tag e) < vec_limit"
    using e(2-4) assms(4) by (simp_all add: vec_limit_def)
  have room: "length p \<le> heap_room h1" using e(7) assms(6) by simp
  obtain os2 h2 where "GoDecryptChunk lib k e (os1, h1) = (Inr (Inr p), (os2, h2))" "heap_room h2 = heap_room h1"
    by (rule GoDecryptChunk_opens [OF assms(2) e(5) ne assms(3) len assms(4) e(6) room])
  with e show ?thesis by auto
qed

definition daemon_heap :: heap where
  "daemon_heap = \<lparr>blocks = (\<lambda>_. None), next_block = 1, heap_room = 4096\<rparr>"

lemma daemon_heap_ok: "heap_ok daemon_heap" "heap_room daemon_heap = 4096"
  by (simp_all add: daemon_heap_def heap_ok_def)

theorem go_chunk_round_trip_witness:
  "\<exists>e os1 h1 os2 h2.
    GoEncryptChunk toy_cipher sample_key [1, 2, 3] (0, daemon_heap) = (Inr (Inr e), (os1, h1)) \<and>
    heap_room h1 = heap_room daemon_heap \<and>
    length (Nonce e) = 12 \<and> length (Ciphertext e) = length [1, 2, 3 :: u8] \<and> length (Tag e) = 16 \<and>
    GoDecryptChunk toy_cipher sample_key e (os1, h1) = (Inr (Inr [1, 2, 3]), (os2, h2)) \<and>
    heap_room h2 = heap_room daemon_heap"
  by (rule go_chunk_round_trip [OF toy_ready sample_key_ok]) (simp_all add: daemon_heap_ok)

text \<open>
  C25: the empty chunk. The core and the C interface encrypt and decrypt it; the bridge encrypts it, leaves
  the block of its ciphertext on the C heap, even when the heap was empty before, and panics when it is to decrypt what it returned, because it
  takes the address of the first byte of an empty slice. This with every key and every state.
\<close>

theorem go_empty_chunk_panics:
  assumes "cipher_ready lib" and "key_ok k" and "heap_ok h" and "28 \<le> heap_room h"
  shows "\<exists>e os1 h1.
    GoEncryptChunk lib k [] (os, h) = (Inr (Inr e), (os1, h1)) \<and>
    (\<forall>os. fst (DecryptChunk lib k \<lparr>enc_nonce = Nonce e, enc_ciphertext = Ciphertext e, enc_tag = Tag e\<rparr> os) = Inr []) \<and>
    (blocks h = Map.empty \<longrightarrow> (\<exists>a. blocks h1 a = Some [])) \<and>
    (\<forall>k' s. GoDecryptChunk lib k' e s
       = (Inl (Panic ''runtime error: index out of range [0] with length 0''), s))"
proof -
  have room: "28 + length ([] :: bytes) \<le> heap_room h" "length ([] :: bytes) < 2 ^ 31"
    using assms(4) by simp_all
  obtain e os1 h1 where e: "GoEncryptChunk lib k [] (os, h) = (Inr (Inr e), (os1, h1))"
      "length (Nonce e) = 12" "length (Ciphertext e) = length ([] :: bytes)" "length (Tag e) = 16"
      "\<forall>os. fst (DecryptChunk lib k \<lparr>enc_nonce = Nonce e, enc_ciphertext = Ciphertext e, enc_tag = Tag e\<rparr> os) = Inr []"
      "heap_ok h1" "heap_room h1 = heap_room h" "([] :: bytes) = [] \<longrightarrow> (\<exists>b. holds h1 b [])"
    by (rule GoEncryptChunk_seals [OF assms(1,2) room(2) assms(3) room(1)])
  from e(8) [rule_format] obtain a where "blocks h1 a = Some []" by (auto simp: holds_def)
  moreover have "GoDecryptChunk lib k' e s
      = (Inl (Panic ''runtime error: index out of range [0] with length 0''), s)" for k' s
    using e(2,3) by (auto simp: GoDecryptChunk_def first_element_def)
  ultimately show ?thesis using e(1,5) by blast
qed

theorem go_empty_chunk_panics_witness:
  "\<exists>e os1 h1.
    GoEncryptChunk toy_cipher sample_key [] (0, daemon_heap) = (Inr (Inr e), (os1, h1)) \<and>
    (\<forall>os. fst (DecryptChunk toy_cipher sample_key
       \<lparr>enc_nonce = Nonce e, enc_ciphertext = Ciphertext e, enc_tag = Tag e\<rparr> os) = Inr []) \<and>
    (blocks daemon_heap = Map.empty \<longrightarrow> (\<exists>a. blocks h1 a = Some [])) \<and>
    (\<forall>k' s. GoDecryptChunk toy_cipher k' e s
       = (Inl (Panic ''runtime error: index out of range [0] with length 0''), s))"
  by (rule go_empty_chunk_panics [OF toy_ready sample_key_ok]) (simp_all add: daemon_heap_ok)

text \<open>
  When the C heap has no room for the ciphertext, the bridge returns no error: the chunk it returns has a
  nonce and a tag around an empty ciphertext.
\<close>

theorem go_success_without_memory:
  assumes "cipher_ready lib" and "key_ok k" and "length p < 2 ^ 31" and "heap_ok h"
    and "28 \<le> heap_room h" and "heap_room h < 12 + length p"
  shows "\<exists>e s. GoEncryptChunk lib k p (os, h) = (Inr (Inr e), s) \<and> Ciphertext e = [] \<and> p \<noteq> []"
proof -
  obtain c os' where c: "EncryptChunk lib k p os = (Inr c, os')"
      "length (enc_nonce c) = 12" "length (enc_ciphertext c) = length p" "length (enc_tag c) = 16"
    using gcm.enc_dec [OF assms(1-3), of os] by blast
  have n: "length (enc_nonce c) \<le> heap_room h" using c(2) assms(5) by simp
  obtain nb h1 where nb: "MakeBuffer (enc_nonce c) h = (Inr nb, h1)" "heap_ok h1"
      "heap_room h1 = heap_room h - 12" "holds h1 nb (enc_nonce c)"
    using cbuf.make_contains [OF assms(4) n] c(2) by auto
  let ?cb = "\<lparr>buf_data = None, buf_len = vec_size (enc_ciphertext c)\<rparr>"
  have cb: "MakeBuffer (enc_ciphertext c) h1 = (Inr ?cb, h1)"
    using MakeBuffer_exhausted [of h1 "enc_ciphertext c"] nb(3) c(3) assms(5,6) by simp
  have t: "length (enc_tag c) \<le> heap_room h1" using c(4) nb(3) assms(5) by simp
  obtain tb h2 where tb: "MakeBuffer (enc_tag c) h1 = (Inr tb, h2)" "heap_ok h2" "holds h2 tb (enc_tag c)"
      "holds h2 nb (enc_nonce c)" "nb \<noteq> tb"
    using cbuf.make_contains [OF nb(2) t] nb(4) by blast
  have ne: "enc_nonce c \<noteq> []" "enc_tag c \<noteq> []" using c by auto
  have small: "length (enc_nonce c) < 2 ^ 31" "length (enc_tag c) < 2 ^ 31" using c by simp_all
  obtain h3 where h3: "bufToBytes nb h2 = (Inr (enc_nonce c), h3)" "heap_ok h3" "holds h3 tb (enc_tag c)"
    using bufToBytes_holds [OF tb(2,4) ne(1) small(1)] tb(3,5) by metis
  obtain h4 where h4: "bufToBytes tb h3 = (Inr (enc_tag c), h4)"
    by (rule bufToBytes_holds [OF h3(2,3) ne(2) small(2)])
  have lim: "length p < vec_limit" using assms(3) by (simp add: vec_limit_def)
  have "airdrop_encrypt_chunk lib (Some k) (Some p) (vec_size p) (Some zero_buffer) (Some zero_buffer)
      (Some zero_buffer) (os, h) = (Inr (AIRDROP_OK, Some nb, Some ?cb, Some tb), (os', h2))"
    using c(1) nb(1) cb tb(1)
    by (simp add: airdrop_encrypt_chunk_def mem_read_key [OF assms(2)] vec_from_all [OF lim])
  then have "GoEncryptChunk lib k p (os, h)
      = (Inr (Inr \<lparr>Nonce = enc_nonce c, Ciphertext = [], Tag = enc_tag c\<rparr>), (os', h4))"
    unfolding GoEncryptChunk_def Let_def encrypt_pointer
    using h3(1) h4 by (simp add: on_snd_def buffer_var_def prog_bind_def bufToBytes_def [of ?cb])
  then show ?thesis using assms(5,6) by auto
qed

section \<open>The daemon\<close>

text \<open>The key agreement of the self-check: both sides derive the same key, and the heap has its room back.\<close>

lemma go_session_keys:
  assumes con: "kex_contract plib st priv pubk pub dh hkdf"
    and honest: "\<forall>a b. length a = 32 \<longrightarrow> length b = 32 \<longrightarrow> dh a (pub b) \<noteq> None"
    and h: "heap_ok h" and info: "length info \<le> 1024" "length info < heap_room h"
  obtains a b k os1 os2 os3 h3 os4 h4 where
    "GoGenerateKeyPair plib (os, h) = (Inr (Inr \<lparr>Public = pub a, Private = a\<rparr>), (os1, h))"
    and "GoGenerateKeyPair plib (os1, h) = (Inr (Inr \<lparr>Public = pub b, Private = b\<rparr>), (os2, h))"
    and "GoDeriveSessionKey plib a (pub b) info (os2, h) = (Inr (Inr k), (os3, h3))"
    and "GoDeriveSessionKey plib b (pub a) info (os3, h3) = (Inr (Inr k), (os4, h4))"
    and "key_ok k" and "heap_ok h4" and "heap_room h4 = heap_room h"
proof -
  have alg: "dh_algebra pub dh hkdf" using con by (simp add: kex_contract_def)
  obtain a os1 where a: "GoGenerateKeyPair plib (os, h) = (Inr (Inr \<lparr>Public = pub a, Private = a\<rparr>), (os1, h))"
      "length a = 32" "length (pub a) = 32"
    by (rule GoGenerateKeyPair_fresh [OF con])
  obtain b os2 where b: "GoGenerateKeyPair plib (os1, h) = (Inr (Inr \<lparr>Public = pub b, Private = b\<rparr>), (os2, h))"
      "length b = 32" "length (pub b) = 32"
    by (rule GoGenerateKeyPair_fresh [OF con])
  obtain s where s: "dh a (pub b) = Some s" using honest a(2) b(2) by blast
  with alg a(2) b(2) have s': "dh b (pub a) = Some s" by (simp add: dh_algebra_def)
  let ?k = "hkdf [] s (map byte_of_char (c_prefix info))"
  have k: "key_ok ?k" using alg by (simp add: dh_algebra_def key_ok_def crypto_sizes)
  obtain os3 h3 where d1: "GoDeriveSessionKey plib a (pub b) info (os2, h) = (Inr (Inr ?k), (os3, h3))"
      "heap_ok h3" "heap_room h3 = heap_room h"
    by (rule GoDeriveSessionKey_derives [OF con a(2) b(3) info(1) s h info(2)])
  have room3: "length info < heap_room h3" using info(2) d1(3) by simp
  obtain os4 h4 where d2: "GoDeriveSessionKey plib b (pub a) info (os3, h3) = (Inr (Inr ?k), (os4, h4))"
      "heap_ok h4" "heap_room h4 = heap_room h3"
    by (rule GoDeriveSessionKey_derives [OF con b(2) a(3) info(1) s' d1(2) room3])
  show thesis using d2(3) d1(3) by (intro that [OF a(1) b(1) d1(1) d2(1) k d2(2)]) simp
qed

text \<open>
  C26: the self-check of the daemon succeeds: with libraries that keep their contracts, a Diffie-Hellman
  function that is defined on honest keys, and room on the C heap, \<open>main\<close> runs to its end without a panic or
  a fatal error, whether or not its own binary can be read, and the C heap is as roomy as before.
\<close>

theorem daemon_self_check_succeeds:
  assumes con: "kex_contract plib st priv pubk pub dh hkdf"
    and honest: "\<forall>a b. length a = 32 \<longrightarrow> length b = 32 \<longrightarrow> dh a (pub b) \<noteq> None"
    and ready: "cipher_ready lib" and sha: "digest_ready dlib H"
    and h: "heap_ok h" "100 \<le> heap_room h" "length selfPath < heap_room h"
  shows "\<exists>os' h'. daemon_main plib lib dlib fs selfPath (os, h) = (Inr MainReturns, (os', h')) \<and>
    heap_room h' = heap_room h"
proof -
  let ?info = "''airdrop-session-v1''"
  have info: "length ?info \<le> 1024" "length ?info < heap_room h" using h(2) by simp_all
  obtain a b k os1 os2 os3 h3 os4 h4 where keys:
      "GoGenerateKeyPair plib (os, h) = (Inr (Inr \<lparr>Public = pub a, Private = a\<rparr>), (os1, h))"
      "GoGenerateKeyPair plib (os1, h) = (Inr (Inr \<lparr>Public = pub b, Private = b\<rparr>), (os2, h))"
      "GoDeriveSessionKey plib a (pub b) ?info (os2, h) = (Inr (Inr k), (os3, h3))"
      "GoDeriveSessionKey plib b (pub a) ?info (os3, h3) = (Inr (Inr k), (os4, h4))"
    and k: "key_ok k" and h4: "heap_ok h4" "heap_room h4 = heap_room h"
    by (rule go_session_keys [OF con honest h(1) info])
  have p: "length test_plaintext = 57" by (simp add: test_plaintext_def)
  have p': "length test_plaintext < 2 ^ 31" "test_plaintext \<noteq> []" "28 + length test_plaintext \<le> heap_room h4"
    using p h(2) h4(2) by auto
  obtain e os5 h5 where e: "GoEncryptChunk lib k test_plaintext (os4, h4) = (Inr (Inr e), (os5, h5))"
      "length (Nonce e) = 12" "length (Ciphertext e) = length test_plaintext" "length (Tag e) = 16"
      "\<forall>os. fst (DecryptChunk lib k \<lparr>enc_nonce = Nonce e, enc_ciphertext = Ciphertext e, enc_tag = Tag e\<rparr> os)
         = Inr test_plaintext"
      "heap_ok h5" "heap_room h5 = heap_room h4" "test_plaintext = [] \<longrightarrow> (\<exists>b. holds h5 b [])"
    by (rule GoEncryptChunk_seals [OF ready k p'(1) h4(1) p'(3)])
  have ne: "Nonce e \<noteq> []" "Ciphertext e \<noteq> []" "Tag e \<noteq> []" using e(2-4) p by auto
  have len: "length (Nonce e) < vec_limit" "length (Ciphertext e) < vec_limit" "length (Tag e) < vec_limit"
    using e(2-4) p by (simp_all add: vec_limit_def)
  have room5: "length test_plaintext \<le> heap_room h5" using e(7) p'(3) by simp
  obtain os6 h6 where d: "GoDecryptChunk lib k e (os5, h5) = (Inr (Inr test_plaintext), (os6, h6))"
      "heap_ok h6" "heap_room h6 = heap_room h5"
    by (rule GoDecryptChunk_opens [OF k e(5) ne p'(2) len p'(1) e(6) room5])
  have room6: "length selfPath < heap_room h6" using h(3) d(3) e(7) h4(2) by simp
  obtain r os7 h7 where f: "GoSha256File dlib fs selfPath (os6, h6) = (Inr r, (os7, h7))"
      "heap_room h7 = heap_room h6"
    by (rule GoSha256File_ends [OF sha d(2) room6])
  have "daemon_main plib lib dlib fs selfPath (os, h) = (Inr MainReturns, (os7, h7))"
    using keys e(1) d(1) f(1)
    by (simp add: daemon_main_def or_fatal_def prog_bind_def Let_def)
  then show ?thesis using f(2) d(3) e(7) h4(2) by auto
qed

theorem daemon_self_check_succeeds_witness:
  "\<exists>os' h'. daemon_main toy_pkey toy_cipher toy_digest sample_disk ''./daemon'' (0, daemon_heap)
    = (Inr MainReturns, (os', h')) \<and> heap_room h' = heap_room daemon_heap"
  using toy_dh_honest
  by (intro daemon_self_check_succeeds [OF toy_kex_contract _ toy_ready toy_digest_ready])
     (simp_all add: daemon_heap_ok)

end
