(* ===== verification/Self_Test.thy ===== *)
theory Self_Test
  imports Bridge
begin

text \<open>
  The self-test of the macOS application, \<open>platform/macos/AirdropSelfTest/CoreSelfTest.swift\<close>: it calls the
  C interface from Swift. The state is that of OpenSSL and the heap of \<open>malloc\<close>; Swift arrays are lists. A
  trap of the Swift runtime is the failure \<open>Panic\<close>. Strings of Foundation are a parameter: a type \<open>'t\<close> with
  the equality of strings, and the conversion \<open>utf8\<close> from bytes, which may fail.
\<close>

section \<open>Steps\<close>

text \<open>
  A step has a title and a flag. The titles are constants, one per step; the text \<open>detail\<close>, which is chosen
  by the flag, is left out.
\<close>

datatype step_title =
    KeyGenerationStep
  | KeyExchangeStep
  | EncryptionStep
  | DecryptionStep
  | TamperStep

text \<open>The steps are enumerated in the order in which the code takes them.\<close>

instantiation step_title :: enum
begin

definition enum_step_title :: "step_title list" where
  "enum_step_title = [KeyGenerationStep, KeyExchangeStep, EncryptionStep, DecryptionStep, TamperStep]"

definition enum_all_step_title :: "(step_title \<Rightarrow> bool) \<Rightarrow> bool" where
  "enum_all_step_title P \<longleftrightarrow> list_all P Enum.enum"

definition enum_ex_step_title :: "(step_title \<Rightarrow> bool) \<Rightarrow> bool" where
  "enum_ex_step_title P \<longleftrightarrow> list_ex P Enum.enum"

instance
proof
  have "x \<in> set Enum.enum" for x :: step_title by (cases x) (simp_all add: enum_step_title_def)
  then show all: "(UNIV :: step_title set) = set Enum.enum" by blast
  show "distinct (Enum.enum :: step_title list)" by (simp add: enum_step_title_def)
  show "enum_class.enum_all P \<longleftrightarrow> Ball UNIV P" "enum_class.enum_ex P \<longleftrightarrow> Bex UNIV P"
    for P :: "step_title \<Rightarrow> bool"
    by (simp_all add: all enum_all_step_title_def enum_ex_step_title_def list_all_iff list_ex_iff)
qed

end

record SelfTestStep =
  title :: step_title
  success :: bool

section \<open>Swift and C memory\<close>

text \<open>\<open>Array(UnsafeBufferPointer(start: buf.data, count: buf.len))\<close>; the length is imported as a signed \<open>Int\<close>.\<close>

definition buffer_array :: "airdrop_buffer \<Rightarrow> (heap, bytes) prog" where
  "buffer_array buf h =
     (if sint (buf_len buf) < 0
      then (Inl (Panic ''Fatal error: Not enough bits to represent the passed value''), h)
      else case buf_data buf of
        None \<Rightarrow>
          (if buf_len buf = 0 then Inr []
           else Inl (Panic ''Fatal error: UnsafeBufferPointer has a nil start and nonzero count''), h)
      | Some a \<Rightarrow>
          (case blocks h a of None \<Rightarrow> Inl OutOfBounds | Some b \<Rightarrow> mem_read b (unat (buf_len buf)), h))"

text \<open>\<open>if !a.isEmpty { a[0] ^= 0xFF }\<close>\<close>

fun damage :: "bytes \<Rightarrow> bytes" where
  "damage [] = []"
| "damage (b # bs) = (b XOR 0xFF) # bs"

definition with_c_string :: "string \<Rightarrow> bytes" where
  "with_c_string s = map byte_of_char s @ [0]"

section \<open>The self-test\<close>

definition CoreSelfTest_run ::
    "(bytes \<Rightarrow> 't option) \<Rightarrow> 't \<Rightarrow> 't \<Rightarrow> ('o, 'k, 'p) pkey_lib \<Rightarrow> ('o, 'c) cipher_lib \<Rightarrow>
     ('o \<times> heap, SelfTestStep list) prog" where
  "CoreSelfTest_run utf8 no_text not_utf8 plib lib =
     prog_bind (on_fst (airdrop_generate_keypair plib (Some zero_array) (Some zero_array)))
       (\<lambda>(keygenAliceStatus, alicePub, alicePriv).
     prog_bind (on_fst (airdrop_generate_keypair plib (Some zero_array) (Some zero_array)))
       (\<lambda>(keygenBobStatus, bobPub, bobPriv).
     let keygenOk = (keygenAliceStatus = AIRDROP_OK \<and> keygenBobStatus = AIRDROP_OK);
         steps = [\<lparr>title = KeyGenerationStep, success = keygenOk\<rparr>] in
     if \<not> keygenOk then prog_return steps else
     let info = with_c_string ''airdrop-session-v1'' in
     prog_bind (on_fst (airdrop_derive_session_key plib alicePriv bobPub (Some info) (Some zero_array)))
       (\<lambda>(deriveAliceStatus, sessionAlice).
     prog_bind (on_fst (airdrop_derive_session_key plib bobPriv alicePub (Some info) (Some zero_array)))
       (\<lambda>(deriveBobStatus, sessionBob).
     let deriveOk = (deriveAliceStatus = AIRDROP_OK \<and> deriveBobStatus = AIRDROP_OK \<and> sessionAlice = sessionBob);
         steps = steps @ [\<lparr>title = KeyExchangeStep, success = deriveOk\<rparr>] in
     if \<not> deriveOk then prog_return steps else
     let plaintext = test_plaintext in
     prog_bind (airdrop_encrypt_chunk lib sessionAlice (Some plaintext) (vec_size plaintext)
       (Some zero_buffer) (Some zero_buffer) (Some zero_buffer))
       (\<lambda>(encryptStatus, nonceBuf, ciphertextBuf, tagBuf).
     let encryptOk = (encryptStatus = AIRDROP_OK);
         steps = steps @ [\<lparr>title = EncryptionStep, success = encryptOk\<rparr>] in
     if \<not> encryptOk then prog_return steps else
     prog_bind (on_snd (buffer_array (buffer_var nonceBuf))) (\<lambda>iv.
     prog_bind (on_snd (buffer_array (buffer_var ciphertextBuf))) (\<lambda>ct.
     prog_bind (on_snd (buffer_array (buffer_var tagBuf))) (\<lambda>tg.
     prog_bind (on_snd (deliver_all airdrop_free_buffer
       [buffer_var nonceBuf, buffer_var ciphertextBuf, buffer_var tagBuf])) (\<lambda>_.
     prog_bind (airdrop_decrypt_chunk lib sessionBob (Some iv) (vec_size iv) (Some ct) (vec_size ct)
       (Some tg) (vec_size tg) (Some zero_buffer)) (\<lambda>(decryptStatus, decryptedBuf).
     let decryptOk = (decryptStatus = AIRDROP_OK) in
     prog_bind
       (if decryptOk
        then prog_bind (on_snd (buffer_array (buffer_var decryptedBuf))) (\<lambda>decrypted.
             prog_bind (on_snd (airdrop_free_buffer (buffer_var decryptedBuf))) (\<lambda>_.
             prog_return (case utf8 decrypted of None \<Rightarrow> not_utf8 | Some t \<Rightarrow> t)))
        else prog_return no_text) (\<lambda>decryptedText.
     let roundTripOk = (decryptOk \<and> Some decryptedText = utf8 plaintext);
         steps = steps @ [\<lparr>title = DecryptionStep, success = roundTripOk\<rparr>];
         tamperedTag = damage tg in
     prog_bind (airdrop_decrypt_chunk lib sessionBob (Some iv) (vec_size iv) (Some ct) (vec_size ct)
       (Some tamperedTag) (vec_size tamperedTag) (Some zero_buffer)) (\<lambda>(tamperedStatus, tamperedOutBuf).
     let tamperDetected = (tamperedStatus \<noteq> AIRDROP_OK) in
     prog_bind
       (if tamperedStatus = AIRDROP_OK then on_snd (airdrop_free_buffer (buffer_var tamperedOutBuf))
        else prog_return ()) (\<lambda>_.
     prog_return (steps @ [\<lparr>title = TamperStep, success = tamperDetected\<rparr>]))))))))))))))"

section \<open>Buffers read from Swift\<close>

lemma buffer_array_holds:
  assumes "holds h b d" and "length d < 2 ^ 63"
  shows "buffer_array b h = (Inr d, h)"
proof -
  obtain a where a: "b = \<lparr>buf_data = Some a, buf_len = vec_size d\<rparr>" "blocks h a = Some d"
    using assms(1) by (auto simp: holds_def)
  have n: "unat (vec_size d) = length d" using assms(2) by (intro unat_vec_size) (simp add: vec_limit_def)
  then have "sint (vec_size d) = int (length d)" using sint_small [of "vec_size d"] assms(2) by simp
  with a n show ?thesis by (simp add: buffer_array_def mem_read_def)
qed

lemma damage_differs: "t \<noteq> [] \<Longrightarrow> damage t \<noteq> t"
proof (cases t)
  case (Cons b bs)
  have "b XOR (b XOR 0xFF) = 0xFF" by (simp flip: xor.assoc)
  moreover have "b XOR b \<noteq> 0xFF" by simp
  ultimately have "b XOR 0xFF \<noteq> b" by metis
  with Cons show ?thesis by simp
qed simp

lemma length_damage [simp]: "length (damage t) = length t"
  by (cases t) simp_all

text \<open>A genuine chunk whose tag was damaged does not open.\<close>

lemma damaged_tag_rejected:
  assumes con: "gcm_contract lib st E D T" and av: "cipher_available lib" and key: "key_ok k"
    and c: "length c < 2 ^ 31" "length n = 12" "length t = 16"
    and opens: "fst (DecryptChunk lib k \<lparr>enc_nonce = n, enc_ciphertext = c, enc_tag = t\<rparr> os) = Inr p"
  shows "fst (DecryptChunk lib k \<lparr>enc_nonce = n, enc_ciphertext = c, enc_tag = damage t\<rparr> os2) = Inl auth_failed"
proof -
  have ctx: "fst (EVP_CIPHER_CTX_new lib os) \<noteq> None" for os
    using available_steps(2) [OF av, of os] by auto
  have "t = T k n c"
    using DecryptChunk_outcome [OF con key, of "\<lparr>enc_nonce = n, enc_ciphertext = c, enc_tag = t\<rparr>" os] opens c ctx [of os]
    by (simp add: crypto_sizes auth_failed_def split: if_splits)
  moreover have "t \<noteq> []" using c(3) by auto
  then have "damage t \<noteq> t" by (rule damage_differs)
  ultimately show ?thesis
    using DecryptChunk_outcome [OF con key, of "\<lparr>enc_nonce = n, enc_ciphertext = c, enc_tag = damage t\<rparr>" os2] c ctx [of os2]
    by (auto simp: crypto_sizes)
qed

section \<open>The self-test succeeds\<close>

definition step_passed :: "step_title \<Rightarrow> SelfTestStep" where
  "step_passed x = \<lparr>title = x, success = True\<rparr>"

text \<open>The first two steps: both sides get the same session key.\<close>

lemma self_test_keys:
  assumes con: "kex_contract plib st priv pubk pub dh hkdf" and honest: "honest_dh pub dh"
  obtains a os1 b os2 k os3 os4 where
    "airdrop_generate_keypair plib (Some zero_array) (Some zero_array) os = (Inr (AIRDROP_OK, Some (pub a), Some a), os1)"
    and "airdrop_generate_keypair plib (Some zero_array) (Some zero_array) os1 = (Inr (AIRDROP_OK, Some (pub b), Some b), os2)"
    and "airdrop_derive_session_key plib (Some a) (Some (pub b)) (Some (with_c_string ''airdrop-session-v1''))
      (Some zero_array) os2 = (Inr (AIRDROP_OK, Some k), os3)"
    and "airdrop_derive_session_key plib (Some b) (Some (pub a)) (Some (with_c_string ''airdrop-session-v1''))
      (Some zero_array) os3 = (Inr (AIRDROP_OK, Some k), os4)"
    and "key_ok k"
proof -
  have alg: "dh_algebra pub dh hkdf" using con by (simp add: kex_contract_def)
  obtain a os1 where a: "airdrop_generate_keypair plib (Some zero_array) (Some zero_array) os
      = (Inr (AIRDROP_OK, Some (pub a), Some a), os1)" "length a = 32" "length (pub a) = 32"
    by (rule airdrop_generate_keypair_fresh [OF con])
  obtain b os2 where b: "airdrop_generate_keypair plib (Some zero_array) (Some zero_array) os1
      = (Inr (AIRDROP_OK, Some (pub b), Some b), os2)" "length b = 32" "length (pub b) = 32"
    by (rule airdrop_generate_keypair_fresh [OF con])
  obtain s where s: "dh a (pub b) = Some s" using honest a(2) b(2) by (auto simp: honest_dh_def)
  with alg a(2) b(2) have s': "dh b (pub a) = Some s" by (simp add: dh_algebra_def)
  have info: "length ''airdrop-session-v1'' \<le> 1024" by simp
  obtain os3 where d1: "airdrop_derive_session_key plib (Some a) (Some (pub b))
      (Some (map byte_of_char ''airdrop-session-v1'' @ [0])) (Some zero_array) os2
      = (Inr (AIRDROP_OK, Some (hkdf [] s (map byte_of_char (c_prefix ''airdrop-session-v1'')))), os3)"
      "length (hkdf [] s (map byte_of_char (c_prefix ''airdrop-session-v1''))) = 32"
    by (rule airdrop_derive_session_key_derives [OF con a(2) b(3) info s])
  obtain os4 where d2: "airdrop_derive_session_key plib (Some b) (Some (pub a))
      (Some (map byte_of_char ''airdrop-session-v1'' @ [0])) (Some zero_array) os3
      = (Inr (AIRDROP_OK, Some (hkdf [] s (map byte_of_char (c_prefix ''airdrop-session-v1'')))), os4)"
    by (rule airdrop_derive_session_key_derives [OF con b(2) a(3) info s'])
  show thesis
    using d1(2)
    by (intro that [OF a(1) b(1) d1(1) [folded with_c_string_def] d2 [folded with_c_string_def]])
       (simp add: key_ok_def crypto_sizes)
qed

text \<open>
  The steps with a chunk: the buffers are read and released, the chunk opens, and with a damaged tag it does
  not. The heap has its room back after each of them.
\<close>

lemma read_and_release:
  assumes "heap_ok h" and "holds h nb n" and "holds h cb c" and "holds h tb t" and "distinct [nb, cb, tb]"
    and "length n < 2 ^ 63" and "length c < 2 ^ 63" and "length t < 2 ^ 63"
  shows "\<exists>h'. heap_ok h' \<and> heap_room h' = heap_room h + (length n + length c + length t) \<and>
    (\<forall>k os. prog_bind (on_snd (buffer_array nb)) (\<lambda>n.
      prog_bind (on_snd (buffer_array cb)) (\<lambda>c.
      prog_bind (on_snd (buffer_array tb)) (\<lambda>t.
      prog_bind (on_snd (deliver_all airdrop_free_buffer [nb, cb, tb])) (\<lambda>_. k n c t)))) (os, h)
    = k n c t (os, h'))"
proof -
  obtain h' where h': "deliver_all airdrop_free_buffer [nb, cb, tb] h = (Inr (), h')" "heap_ok h'"
      "heap_room h' = heap_room h + (length n + length c + length t)"
    using cbuf.release_three [OF assms(1-5)] by blast
  have "buffer_array nb h = (Inr n, h)" "buffer_array cb h = (Inr c, h)" "buffer_array tb h = (Inr t, h)"
    using buffer_array_holds assms(2-4,6-8) by blast+
  with h' show ?thesis
    by (intro exI [of _ h'])
       (simp add: on_snd_def prog_bind_def del: deliver_all.simps)
qed

lemma self_test_opens:
  assumes key: "key_ok k" and len: "length n = 12" "length c < 2 ^ 31" "length t = 16" "length p < 2 ^ 31"
    and dec: "\<forall>os. fst (DecryptChunk lib k \<lparr>enc_nonce = n, enc_ciphertext = c, enc_tag = t\<rparr> os) = Inr p"
    and h: "heap_ok h" "length p \<le> heap_room h"
  shows "\<exists>os' h1 pb h'. airdrop_decrypt_chunk lib (Some k) (Some n) (vec_size n) (Some c) (vec_size c) (Some t)
      (vec_size t) (Some zero_buffer) (os, h) = (Inr (AIRDROP_OK, Some pb), (os', h1)) \<and>
    buffer_array pb h1 = (Inr p, h1) \<and> airdrop_free_buffer pb h1 = (Inr (), h') \<and>
    heap_ok h' \<and> heap_room h' = heap_room h"
proof -
  obtain os' where d: "DecryptChunk lib k \<lparr>enc_nonce = n, enc_ciphertext = c, enc_tag = t\<rparr> os = (Inr p, os')"
    using dec by (metis prod.collapse)
  obtain pb h1 where mk: "MakeBuffer p h = (Inr pb, h1)" "heap_ok h1" "heap_room h1 = heap_room h - length p"
      "holds h1 pb p"
    using cbuf.make_contains [OF h] by blast
  obtain h' where h': "airdrop_free_buffer pb h1 = (Inr (), h')" "heap_ok h'" "heap_room h' = heap_room h1 + length p"
    using cbuf.release_room [OF mk(2,4)] by blast
  have lim: "length n < vec_limit" "length c < vec_limit" "length t < vec_limit"
    using len by (simp_all add: vec_limit_def)
  have "length p < 2 ^ 63" using len(4) by simp
  then show ?thesis
    using decrypt_chunk_status [OF key lim d, of zero_buffer h] mk(1) h' buffer_array_holds [OF mk(4)] mk(3) h(2)
    by (intro exI [of _ os'] exI [of _ h1] exI [of _ pb] exI [of _ h']) simp
qed

lemma self_test_detects:
  assumes key: "key_ok k" and len: "length n = 12" "length c < 2 ^ 31" "length t = 16"
    and dec: "\<And>os. fst (DecryptChunk lib k \<lparr>enc_nonce = n, enc_ciphertext = c, enc_tag = t\<rparr> os) = Inl auth_failed"
  shows "\<exists>os'. airdrop_decrypt_chunk lib (Some k) (Some n) (vec_size n) (Some c) (vec_size c) (Some t)
      (vec_size t) (Some zero_buffer) (os, h) = (Inr (AIRDROP_ERR_CRYPTO, Some zero_buffer), (os', h))"
proof -
  obtain os' where d: "DecryptChunk lib k \<lparr>enc_nonce = n, enc_ciphertext = c, enc_tag = t\<rparr> os = (Inl auth_failed, os')"
    using dec by (metis prod.collapse)
  have lim: "length n < vec_limit" "length c < vec_limit" "length t < vec_limit"
    using len by (simp_all add: vec_limit_def)
  show ?thesis
    using decrypt_chunk_status [OF key lim d, of zero_buffer h] by (simp add: auth_failed_def)
qed

text \<open>The steps with the chunk together, from the session key on.\<close>

lemma self_test_chunk:
  fixes lib :: "('o, 'c) cipher_lib" and h :: heap
  assumes con: "gcm_contract lib st' E D T" and av: "cipher_available lib" and key: "key_ok k"
    and h: "heap_ok h" and room: "85 \<le> heap_room h"
  obtains os5 h1 nb cb tb n c t h2 os6 h3 pb h4 os7 where
    "airdrop_encrypt_chunk lib (Some k) (Some test_plaintext) (vec_size test_plaintext) (Some zero_buffer)
      (Some zero_buffer) (Some zero_buffer) (state, h) = (Inr (AIRDROP_OK, Some nb, Some cb, Some tb), (os5, h1))"
    and "\<forall>(m :: bytes \<Rightarrow> bytes \<Rightarrow> bytes \<Rightarrow> ('o \<times> heap, SelfTestStep list) prog) os.
      prog_bind (on_snd (buffer_array nb)) (\<lambda>n. prog_bind (on_snd (buffer_array cb)) (\<lambda>c.
      prog_bind (on_snd (buffer_array tb)) (\<lambda>t.
      prog_bind (on_snd (deliver_all airdrop_free_buffer [nb, cb, tb])) (\<lambda>_. m n c t)))) (os, h1) = m n c t (os, h2)"
    and "airdrop_decrypt_chunk lib (Some k) (Some n) (vec_size n) (Some c) (vec_size c) (Some t) (vec_size t)
      (Some zero_buffer) (os5, h2) = (Inr (AIRDROP_OK, Some pb), (os6, h3))"
    and "buffer_array pb h3 = (Inr test_plaintext, h3)" and "airdrop_free_buffer pb h3 = (Inr (), h4)"
    and "heap_ok h4" and "heap_room h4 = heap_room h"
    and "airdrop_decrypt_chunk lib (Some k) (Some n) (vec_size n) (Some c) (vec_size c) (Some (damage t))
      (vec_size (damage t)) (Some zero_buffer) (os6, h4) = (Inr (AIRDROP_ERR_CRYPTO, Some zero_buffer), (os7, h4))"
proof -
  have ready: "cipher_ready lib" using con av unfolding cipher_ready_def by blast
  have p: "length test_plaintext = 57" by (simp add: test_plaintext_def)
  then have p': "length test_plaintext < 2 ^ 31" "28 + length test_plaintext \<le> heap_room h" using room by simp_all
  obtain os5 h1 nb cb tb n c t where enc:
    "airdrop_encrypt_chunk lib (Some k) (Some test_plaintext) (vec_size test_plaintext) (Some zero_buffer)
      (Some zero_buffer) (Some zero_buffer) (state, h) = (Inr (AIRDROP_OK, Some nb, Some cb, Some tb), (os5, h1))"
    "heap_ok h1" "heap_room h1 = heap_room h - (28 + length test_plaintext)"
    and held: "holds h1 nb n" "holds h1 cb c" "holds h1 tb t" "distinct [nb, cb, tb]"
    and len: "length n = 12" "length c = length test_plaintext" "length t = 16"
    and dec: "\<forall>os2. fst (DecryptChunk lib k \<lparr>enc_nonce = n, enc_ciphertext = c, enc_tag = t\<rparr> os2) = Inr test_plaintext"
    using encrypt_chunk_buffers [OF ready key p'(1) h p'(2), of zero_buffer zero_buffer zero_buffer state] by blast
  have small: "length n < 2 ^ 63" "length c < 2 ^ 63" "length t < 2 ^ 63" "length c < 2 ^ 31" using len p by simp_all
  obtain h2 where h2: "heap_ok h2" "heap_room h2 = heap_room h1 + (length n + length c + length t)"
    "\<And>(m :: bytes \<Rightarrow> bytes \<Rightarrow> bytes \<Rightarrow> ('o \<times> heap, SelfTestStep list) prog) os.
      prog_bind (on_snd (buffer_array nb)) (\<lambda>n. prog_bind (on_snd (buffer_array cb)) (\<lambda>c.
      prog_bind (on_snd (buffer_array tb)) (\<lambda>t.
      prog_bind (on_snd (deliver_all airdrop_free_buffer [nb, cb, tb])) (\<lambda>_. m n c t)))) (os, h1) = m n c t (os, h2)"
    using read_and_release [OF enc(2) held small(1-3)] by blast
  have room2: "heap_room h2 = heap_room h" using h2(2) enc(3) len p room by simp
  obtain os6 h3 pb h4 where opened:
    "airdrop_decrypt_chunk lib (Some k) (Some n) (vec_size n) (Some c) (vec_size c) (Some t) (vec_size t)
      (Some zero_buffer) (os5, h2) = (Inr (AIRDROP_OK, Some pb), (os6, h3))"
    "buffer_array pb h3 = (Inr test_plaintext, h3)" "airdrop_free_buffer pb h3 = (Inr (), h4)"
    "heap_ok h4" "heap_room h4 = heap_room h2"
    using self_test_opens [OF key len(1) small(4) len(3) p'(1) dec h2(1), of os5] room2 room p by auto
  obtain os7 where tampered:
    "airdrop_decrypt_chunk lib (Some k) (Some n) (vec_size n) (Some c) (vec_size c) (Some (damage t))
      (vec_size (damage t)) (Some zero_buffer) (os6, h4) = (Inr (AIRDROP_ERR_CRYPTO, Some zero_buffer), (os7, h4))"
    using self_test_detects [OF key len(1) small(4) _ damaged_tag_rejected [OF con av key small(4) len(1,3) dec [rule_format]]]
      len(3) by auto
  show thesis
    using room2 opened(5) h2(3) by (intro that [OF enc(1) _ opened(1-4) _ tampered]) simp_all
qed

lemma self_test_passes:
  fixes plib :: "('o, 'k, 'p) pkey_lib" and lib :: "('o, 'c) cipher_lib" and h :: heap
  assumes kex: "kex_contract plib st priv pubk pub dh hkdf" and honest: "honest_dh pub dh"
    and con: "gcm_contract lib st' E D T" and av: "cipher_available lib"
    and txt_ok: "decode test_plaintext \<noteq> None" and h: "heap_ok h" and room: "85 \<le> heap_room h"
  shows "\<exists>os' h'. CoreSelfTest_run decode no_text illegible plib lib (os, h) =
      (Inr (map step_passed [KeyGenerationStep, KeyExchangeStep, EncryptionStep, DecryptionStep, TamperStep]), (os', h')) \<and>
    heap_ok h' \<and> heap_room h' = heap_room h"
proof -
  obtain a os1 b os2 k os3 os4 where keys:
    "airdrop_generate_keypair plib (Some zero_array) (Some zero_array) os = (Inr (AIRDROP_OK, Some (pub a), Some a), os1)"
    "airdrop_generate_keypair plib (Some zero_array) (Some zero_array) os1 = (Inr (AIRDROP_OK, Some (pub b), Some b), os2)"
    "airdrop_derive_session_key plib (Some a) (Some (pub b)) (Some (with_c_string ''airdrop-session-v1''))
      (Some zero_array) os2 = (Inr (AIRDROP_OK, Some k), os3)"
    "airdrop_derive_session_key plib (Some b) (Some (pub a)) (Some (with_c_string ''airdrop-session-v1''))
      (Some zero_array) os3 = (Inr (AIRDROP_OK, Some k), os4)"
    and key: "key_ok k"
    by (rule self_test_keys [OF kex honest])
  obtain os5 h1 nb cb tb n c t h2 os6 h3 pb h4 os7 where sealed:
    "airdrop_encrypt_chunk lib (Some k) (Some test_plaintext) (vec_size test_plaintext) (Some zero_buffer)
      (Some zero_buffer) (Some zero_buffer) (os4, h) = (Inr (AIRDROP_OK, Some nb, Some cb, Some tb), (os5, h1))"
    and released: "\<forall>(m :: bytes \<Rightarrow> bytes \<Rightarrow> bytes \<Rightarrow> ('o \<times> heap, SelfTestStep list) prog) os.
      prog_bind (on_snd (buffer_array nb)) (\<lambda>n. prog_bind (on_snd (buffer_array cb)) (\<lambda>c.
      prog_bind (on_snd (buffer_array tb)) (\<lambda>t.
      prog_bind (on_snd (deliver_all airdrop_free_buffer [nb, cb, tb])) (\<lambda>_. m n c t)))) (os, h1) = m n c t (os, h2)"
    and opened: "airdrop_decrypt_chunk lib (Some k) (Some n) (vec_size n) (Some c) (vec_size c) (Some t) (vec_size t)
      (Some zero_buffer) (os5, h2) = (Inr (AIRDROP_OK, Some pb), (os6, h3))"
      "buffer_array pb h3 = (Inr test_plaintext, h3)" "airdrop_free_buffer pb h3 = (Inr (), h4)"
    and h4: "heap_ok h4" "heap_room h4 = heap_room h"
    and tampered: "airdrop_decrypt_chunk lib (Some k) (Some n) (vec_size n) (Some c) (vec_size c) (Some (damage t))
      (vec_size (damage t)) (Some zero_buffer) (os6, h4) = (Inr (AIRDROP_ERR_CRYPTO, Some zero_buffer), (os7, h4))"
    by (rule self_test_chunk [where state = os4, OF con av key h room])
  obtain str where "decode test_plaintext = Some str" using txt_ok by blast
  then have "CoreSelfTest_run decode no_text illegible plib lib (os, h) =
      (Inr (map step_passed [KeyGenerationStep, KeyExchangeStep, EncryptionStep, DecryptionStep, TamperStep]), (os7, h4))"
    using keys sealed opened tampered
    by (simp add: CoreSelfTest_run_def Let_def on_fst_def on_snd_def [of "buffer_array pb"] on_snd_def [of "airdrop_free_buffer pb"]
        buffer_var_def released [rule_format] step_passed_def del: deliver_all.simps)
  with h4 show ?thesis by auto
qed

section \<open>The self-test that fails\<close>

text \<open>
  \<open>returns m P\<close>: whatever \<open>m\<close> returns satisfies \<open>P\<close>. The list of steps is \<open>in_order\<close> when it is not empty, its titles come in the order
  of the code, and the first three steps succeed, except the last in a list that stops there.
\<close>

definition returns :: "('s, 'a) prog \<Rightarrow> ('a \<Rightarrow> bool) \<Rightarrow> bool" where
  "returns m P \<longleftrightarrow> (\<forall>s x s'. m s = (Inr x, s') \<longrightarrow> P x)"

lemma returns_bind: "(\<And>x. returns (f x) P) \<Longrightarrow> returns (prog_bind m f) P"
  by (force simp: returns_def prog_bind_def split: prod.splits sum.splits)

lemma returns_return: "P x \<Longrightarrow> returns (prog_return x) P"
  by (simp add: returns_def)

lemma returns_if: "(b \<Longrightarrow> returns m P) \<Longrightarrow> (\<not> b \<Longrightarrow> returns n P) \<Longrightarrow> returns (if b then m else n) P"
  by simp

lemma returns_pair: "(\<And>a b. returns (f a b) P) \<Longrightarrow> returns (case x of (a, b) \<Rightarrow> f a b) P"
  by (cases x) simp

definition in_order :: "SelfTestStep list \<Rightarrow> bool" where
  "in_order steps \<longleftrightarrow> steps \<noteq> [] \<and> length steps \<noteq> 4 \<and> map title steps = take (length steps) Enum.enum \<and>
     (length steps \<in> {1, 2, 3} \<longrightarrow> \<not> success (last steps)) \<and>
     list_all success (take (min 3 (length (butlast steps))) steps)"

lemma self_test_in_order: "returns (CoreSelfTest_run decode no_text illegible plib lib) in_order"
  unfolding CoreSelfTest_run_def Let_def
  by (intro returns_bind returns_pair returns_if returns_return)
     (simp_all add: in_order_def enum_step_title_def)

text \<open>The screen reports success when all steps of the list succeeded: then none is missing.\<close>

lemma all_passed_is_complete:
  assumes "in_order steps" and "list_all success steps"
  shows "map title steps = Enum.enum"
proof -
  have steps: "steps \<noteq> []" "length steps \<noteq> 4" "map title steps = take (length steps) Enum.enum"
    using assms(1) by (simp_all add: in_order_def)
  have "length steps \<le> 5" using arg_cong [OF steps(3), of length] by (simp add: enum_step_title_def)
  moreover have "success (last steps)" using assms(2) steps(1) by (simp add: list_all_iff)
  then have "length steps \<noteq> 1 \<and> length steps \<noteq> 2 \<and> length steps \<noteq> 3"
    using assms(1) by (simp add: in_order_def)
  moreover have "length steps \<noteq> 0" using steps(1) by simp
  ultimately have "length steps = 5" using steps(2) by arith
  with steps(3) show ?thesis by (simp add: enum_step_title_def)
qed

section \<open>The screen\<close>

text \<open>
  What \<open>ContentView.swift\<close> shows of the self-test. \<open>runSelfTest\<close> clears a flag and starts the test in the
  background; each run that finishes stores its steps. Runs may overlap and finish in any order. The
  verdict is shown only when the flag is set.
\<close>

record ContentView =
  selfTestSteps :: "SelfTestStep list"
  selfTestRan :: bool

definition ContentView_init :: ContentView where
  "ContentView_init = \<lparr>selfTestSteps = [], selfTestRan = False\<rparr>"

datatype self_test_event = RunStarted | RunFinished "SelfTestStep list"

fun runSelfTest :: "self_test_event \<Rightarrow> ContentView \<Rightarrow> ContentView" where
  "runSelfTest RunStarted v = v\<lparr>selfTestRan := False\<rparr>"
| "runSelfTest (RunFinished steps) v = v\<lparr>selfTestSteps := steps, selfTestRan := True\<rparr>"

definition verdict :: "ContentView \<Rightarrow> bool option" where
  "verdict v =
     (if \<not> selfTestRan v then None
      else let allOk = list_all success (selfTestSteps v) in Some allOk)"

text \<open>The flag is what keeps the empty list of the start from counting as a success.\<close>

lemma shown_steps_in_order:
  assumes "\<forall>steps. RunFinished steps \<in> set es \<longrightarrow> in_order steps"
    and "selfTestRan v \<Longrightarrow> in_order (selfTestSteps v)"
    and "selfTestRan (fold runSelfTest es v)"
  shows "in_order (selfTestSteps (fold runSelfTest es v))"
  using assms
proof (induction es arbitrary: v)
  case (Cons e es)
  have "in_order (selfTestSteps (runSelfTest e v))" if "selfTestRan (runSelfTest e v)"
    using that Cons.prems(1,2) by (cases e) auto
  with Cons.IH [of "runSelfTest e v"] Cons.prems(1,3) show ?case by simp
qed simp

lemma good_verdict_is_complete:
  assumes "\<forall>steps. RunFinished steps \<in> set es \<longrightarrow> in_order steps"
    and "verdict (fold runSelfTest es ContentView_init) = Some True"
  shows "map title (selfTestSteps (fold runSelfTest es ContentView_init)) = Enum.enum"
proof -
  from assms(2) have "selfTestRan (fold runSelfTest es ContentView_init)"
      "list_all success (selfTestSteps (fold runSelfTest es ContentView_init))"
    by (auto simp: verdict_def Let_def split: if_splits)
  moreover from this(1) have "in_order (selfTestSteps (fold runSelfTest es ContentView_init))"
    by (intro shown_steps_in_order [OF assms(1)]) (simp_all add: ContentView_init_def)
  ultimately show ?thesis by (intro all_passed_is_complete)
qed

end
