(* ===== verification/Scanner.thy ===== *)
theory Scanner
  imports Adapter
begin

text \<open>
  The Bluetooth half of the macOS application: \<open>platform/macos/AirdropSelfTest/BluetoothManager.swift\<close>, the
  state that its screen shows, and the two buttons of \<open>ContentView.swift\<close> that change it. CoreBluetooth is
  outside: its two managers have a state that changes by itself, and it reports changes and devices by
  calling the delegate methods, in any order.
\<close>

section \<open>The state\<close>

datatype CBManagerState = CBunknown | CBresetting | CBunsupported | CBunauthorized | CBpoweredOff | CBpoweredOn

fun rawValue :: "CBManagerState \<Rightarrow> int" where
  "rawValue CBunknown = 0"
| "rawValue CBresetting = 1"
| "rawValue CBunsupported = 2"
| "rawValue CBunauthorized = 3"
| "rawValue CBpoweredOff = 4"
| "rawValue CBpoweredOn = 5"

record DiscoveredPeer =
  peer_id :: string
  peer_name :: string
  peer_rssi :: int

text \<open>The texts of \<open>statusMessage\<close>, by what they say.\<close>

datatype status_message =
    Initialising
  | PeripheralNotReady
  | AdvertisingAs string
  | AdvertisingStopped
  | CentralNotReady
  | ScanningDevices
  | ScanningStopped nat
  | BluetoothReady
  | BluetoothOff
  | NotAuthorized
  | BluetoothUnavailable int

record BluetoothManager =
  isBluetoothPoweredOn :: bool
  isAdvertising :: bool
  isScanning :: bool
  discoveredPeers :: "DiscoveredPeer list"
  statusMessage :: status_message

definition BluetoothManager_init :: BluetoothManager where
  "BluetoothManager_init =
     \<lparr>isBluetoothPoweredOn = False, isAdvertising = False, isScanning = False, discoveredPeers = [],
      statusMessage = Initialising\<rparr>"

text \<open>
  The service that is advertised and scanned for. It has to be that of the bridge, or the application would
  not see the devices that run it.
\<close>

definition airdropServiceUUID :: string where
  "airdropServiceUUID = ''E7810A71-73AE-499D-8C15-FAA9AAA5D172''"

lemma service_of_bridge: "airdropServiceUUID = kAirdropServiceUUID"
  by (simp add: airdropServiceUUID_def kAirdropServiceUUID_def)

section \<open>The operations\<close>

text \<open>
  The argument of type \<open>CBManagerState\<close> is the state of the manager that the method reads. The calls to
  CoreBluetooth have no result; what follows from them are later events.
\<close>

definition startAdvertising :: "CBManagerState \<Rightarrow> string option \<Rightarrow> BluetoothManager \<Rightarrow> BluetoothManager" where
  "startAdvertising peripheral localizedName this =
     (if peripheral \<noteq> CBpoweredOn then this\<lparr>statusMessage := PeripheralNotReady\<rparr>
      else
        let deviceName = (case localizedName of None \<Rightarrow> ''Mac'' | Some n \<Rightarrow> n) in
        this\<lparr>isAdvertising := True, statusMessage := AdvertisingAs deviceName\<rparr>)"

definition stopAdvertising :: "BluetoothManager \<Rightarrow> BluetoothManager" where
  "stopAdvertising this = this\<lparr>isAdvertising := False, statusMessage := AdvertisingStopped\<rparr>"

definition startScanning :: "CBManagerState \<Rightarrow> BluetoothManager \<Rightarrow> BluetoothManager" where
  "startScanning central this =
     (if central \<noteq> CBpoweredOn then this\<lparr>statusMessage := CentralNotReady\<rparr>
      else this\<lparr>discoveredPeers := [], isScanning := True, statusMessage := ScanningDevices\<rparr>)"

definition stopScanning :: "BluetoothManager \<Rightarrow> BluetoothManager" where
  "stopScanning this =
     this\<lparr>isScanning := False, statusMessage := ScanningStopped (length (discoveredPeers this))\<rparr>"

definition peripheralManagerDidUpdateState :: "CBManagerState \<Rightarrow> BluetoothManager \<Rightarrow> BluetoothManager" where
  "peripheralManagerDidUpdateState peripheral this =
     (case peripheral of
        CBpoweredOn \<Rightarrow> this\<lparr>statusMessage := BluetoothReady\<rparr>
      | CBpoweredOff \<Rightarrow> this\<lparr>statusMessage := BluetoothOff, isAdvertising := False\<rparr>
      | CBunauthorized \<Rightarrow> this\<lparr>statusMessage := NotAuthorized\<rparr>
      | _ \<Rightarrow> this\<lparr>statusMessage := BluetoothUnavailable (rawValue peripheral)\<rparr>)"

definition centralManagerDidUpdateState :: "CBManagerState \<Rightarrow> BluetoothManager \<Rightarrow> BluetoothManager" where
  "centralManagerDidUpdateState central this =
     (let this = this\<lparr>isBluetoothPoweredOn := (central = CBpoweredOn)\<rparr> in
      if central = CBpoweredOn then this\<lparr>statusMessage := BluetoothReady\<rparr> else this)"

text \<open>The name of a device without one, in UTF-8.\<close>

definition unknown_device :: string where
  "unknown_device = map char_of_byte
     [0xD0, 0x9D, 0xD0, 0xB5, 0xD0, 0xB8, 0xD0, 0xB7, 0xD0, 0xB2, 0xD0, 0xB5, 0xD1, 0x81, 0xD1, 0x82, 0xD0,
      0xBD, 0xD0, 0xBE, 0xD0, 0xB5, 0x20, 0xD1, 0x83, 0xD1, 0x81, 0xD1, 0x82, 0xD1, 0x80, 0xD0, 0xBE, 0xD0,
      0xB9, 0xD1, 0x81, 0xD1, 0x82, 0xD0, 0xB2, 0xD0, 0xBE]"

text \<open>\<open>firstIndex(where:)\<close> on the identifiers, and the entry replaced in place or appended.\<close>

fun first_index :: "string \<Rightarrow> DiscoveredPeer list \<Rightarrow> nat option" where
  "first_index i [] = None"
| "first_index i (p # ps) = (if peer_id p = i then Some 0 else map_option Suc (first_index i ps))"

definition add_peer :: "DiscoveredPeer \<Rightarrow> DiscoveredPeer list \<Rightarrow> DiscoveredPeer list" where
  "add_peer p ps = (case first_index (peer_id p) ps of Some index \<Rightarrow> ps[index := p] | None \<Rightarrow> ps @ [p])"

text \<open>The peer that a report describes: the advertised name, else that of the peripheral.\<close>

definition reported_peer :: "string \<Rightarrow> string option \<Rightarrow> string option \<Rightarrow> int \<Rightarrow> DiscoveredPeer" where
  "reported_peer identifier localName peripheral_name RSSI =
     (let name = (case localName of Some n \<Rightarrow> n | None \<Rightarrow>
                   (case peripheral_name of Some n \<Rightarrow> n | None \<Rightarrow> unknown_device))
      in \<lparr>peer_id = identifier, peer_name = name, peer_rssi = RSSI\<rparr>)"

definition didDiscover ::
    "string \<Rightarrow> string option \<Rightarrow> string option \<Rightarrow> int \<Rightarrow> BluetoothManager \<Rightarrow> BluetoothManager" where
  "didDiscover identifier localName peripheral_name RSSI this =
     (let peer = reported_peer identifier localName peripheral_name RSSI
      in this\<lparr>discoveredPeers := add_peer peer (discoveredPeers this)\<rparr>)"

section \<open>The events\<close>

text \<open>
  \<open>CentralBecomes\<close> and \<open>PeripheralBecomes\<close>: a manager of CoreBluetooth changes its state, which it reports
  in a later event. A tap on a button that is disabled does nothing.
\<close>

datatype bluetooth_event =
    CentralBecomes CBManagerState
  | PeripheralBecomes CBManagerState
  | CentralReports
  | PeripheralReports
  | Discovers string "string option" "string option" int
  | TapAdvertise "string option"
  | TapScan

record bluetooth =
  central_state :: CBManagerState
  peripheral_state :: CBManagerState
  manager :: BluetoothManager

definition on_manager :: "(BluetoothManager \<Rightarrow> BluetoothManager) \<Rightarrow> bluetooth \<Rightarrow> bluetooth" where
  "on_manager f b = b\<lparr>manager := f (manager b)\<rparr>"

fun handle :: "bluetooth_event \<Rightarrow> bluetooth \<Rightarrow> bluetooth" where
  "handle (CentralBecomes st) b = b\<lparr>central_state := st\<rparr>"
| "handle (PeripheralBecomes st) b = b\<lparr>peripheral_state := st\<rparr>"
| "handle CentralReports b = on_manager (centralManagerDidUpdateState (central_state b)) b"
| "handle PeripheralReports b = on_manager (peripheralManagerDidUpdateState (peripheral_state b)) b"
| "handle (Discovers i a n r) b = on_manager (didDiscover i a n r) b"
| "handle (TapAdvertise n) b =
     (if \<not> isBluetoothPoweredOn (manager b) then b
      else on_manager (if isAdvertising (manager b) then stopAdvertising
                       else startAdvertising (peripheral_state b) n) b)"
| "handle TapScan b =
     (if \<not> isBluetoothPoweredOn (manager b) then b
      else on_manager (if isScanning (manager b) then stopScanning else startScanning (central_state b)) b)"

definition handle_all :: "bluetooth_event list \<Rightarrow> bluetooth \<Rightarrow> bluetooth" where
  "handle_all es b = fold handle es b"

definition bluetooth_start :: "CBManagerState \<Rightarrow> CBManagerState \<Rightarrow> bluetooth" where
  "bluetooth_start c p = \<lparr>central_state = c, peripheral_state = p, manager = BluetoothManager_init\<rparr>"

section \<open>The list of devices\<close>

text \<open>
  The reports that came in since the last scan was started, which empties the list, in the order in which
  they came.
\<close>

fun scan_log :: "bluetooth_event \<Rightarrow> bluetooth \<Rightarrow> DiscoveredPeer list \<Rightarrow> DiscoveredPeer list" where
  "scan_log (Discovers i a n r) b l = l @ [reported_peer i a n r]"
| "scan_log TapScan b l =
     (if isBluetoothPoweredOn (manager b) \<and> \<not> isScanning (manager b) \<and> central_state b = CBpoweredOn then [] else l)"
| "scan_log _ b l = l"

fun scan_reports :: "bluetooth_event list \<Rightarrow> bluetooth \<Rightarrow> DiscoveredPeer list \<Rightarrow> DiscoveredPeer list" where
  "scan_reports [] b l = l"
| "scan_reports (e # es) b l = scan_reports es (handle e b) (scan_log e b l)"

text \<open>What the list is to be: one entry per device, by its first report, with what its last report said.\<close>

definition last_report :: "DiscoveredPeer list \<Rightarrow> string \<Rightarrow> DiscoveredPeer option" where
  "last_report l i = find (\<lambda>p. peer_id p = i) (rev l)"

definition lists_reports :: "DiscoveredPeer list \<Rightarrow> DiscoveredPeer list \<Rightarrow> bool" where
  "lists_reports l ps \<longleftrightarrow>
     map peer_id ps = rev (remdups (rev (map peer_id l))) \<and>
     (\<forall>p \<in> set ps. last_report l (peer_id p) = Some p)"

lemma first_index_None: "first_index i ps = None \<longleftrightarrow> i \<notin> peer_id ` set ps"
  by (induction ps) auto

lemma first_index_Some:
  "first_index i ps = Some n \<Longrightarrow> n < length ps \<and> peer_id (ps ! n) = i"
  by (induction ps arbitrary: n) (auto split: if_splits)

lemma last_report_snoc: "last_report (l @ [p]) i = (if peer_id p = i then Some p else last_report l i)"
  by (simp add: last_report_def)

lemma lists_reports_ids:
  assumes "lists_reports l ps"
  shows "distinct (map peer_id ps)" and "peer_id ` set ps = peer_id ` set l"
proof -
  have "map peer_id ps = rev (remdups (rev (map peer_id l)))" using assms by (simp add: lists_reports_def)
  then have "distinct (map peer_id ps)" and "set (map peer_id ps) = set (map peer_id l)" by simp_all
  then show "distinct (map peer_id ps)" and "peer_id ` set ps = peer_id ` set l" by simp_all
qed

lemma add_peer_lists_reports:
  assumes "lists_reports l ps"
  shows "lists_reports (l @ [p]) (add_peer p ps)"
proof (cases "first_index (peer_id p) ps")
  case None
  then have new: "peer_id p \<notin> peer_id ` set ps" by (simp add: first_index_None)
  with lists_reports_ids(2) [OF assms] have "peer_id p \<notin> set (map peer_id l)" by auto
  with assms None new show ?thesis
    by (auto simp: lists_reports_def add_peer_def last_report_snoc)
next
  case (Some n)
  then have n: "n < length ps" "peer_id (ps ! n) = peer_id p" by (simp_all add: first_index_Some)
  have dist: "distinct (map peer_id ps)" by (rule lists_reports_ids(1) [OF assms])
  have "peer_id p \<in> peer_id ` set ps" using n by (metis image_eqI nth_mem)
  then have old: "peer_id p \<in> set (map peer_id l)" using lists_reports_ids(2) [OF assms] by simp
  have "map peer_id (ps[n := p]) = map peer_id ps"
    using n by (metis list_update_id map_update)
  then have ids: "map peer_id (ps[n := p]) = rev (remdups (rev (map peer_id (l @ [p]))))"
    using assms old by (simp add: lists_reports_def)
  have "last_report (l @ [p]) (peer_id q) = Some q" if "q \<in> set (ps[n := p])" for q
  proof (cases "q = p")
    case False
    with that obtain m where m: "m < length ps" "q = ps ! m" "m \<noteq> n"
      using n(1) by (auto simp: in_set_conv_nth nth_list_update split: if_splits)
    then have "peer_id q \<noteq> peer_id p"
      using dist n by (metis length_map nth_eq_iff_index_eq nth_map)
    with m assms show ?thesis by (simp add: lists_reports_def last_report_snoc)
  qed (simp add: last_report_snoc)
  with ids Some show ?thesis by (simp add: lists_reports_def add_peer_def)
qed

lemma handle_lists_reports:
  assumes "lists_reports l (discoveredPeers (manager b))"
  shows "lists_reports (scan_log e b l) (discoveredPeers (manager (handle e b)))"
proof (cases e)
  case (Discovers i a n r)
  with add_peer_lists_reports [OF assms] show ?thesis
    by (simp add: on_manager_def didDiscover_def)
qed (use assms in \<open>auto simp: on_manager_def centralManagerDidUpdateState_def peripheralManagerDidUpdateState_def
      startAdvertising_def stopAdvertising_def startScanning_def stopScanning_def lists_reports_def Let_def
      split: CBManagerState.split\<close>)

lemma handle_all_lists_reports:
  assumes "lists_reports l (discoveredPeers (manager b))"
  shows "lists_reports (scan_reports es b l) (discoveredPeers (manager (handle_all es b)))"
  using assms
proof (induction es arbitrary: b l)
  case (Cons e es)
  from Cons.IH [OF handle_lists_reports [OF Cons.prems, of e]] show ?case by (simp add: handle_all_def)
qed (simp add: handle_all_def)

section \<open>While Bluetooth is off\<close>

text \<open>Until the central manager reports again, the buttons are disabled and no flag changes but by reports.\<close>

lemma handle_while_off:
  assumes "e \<noteq> CentralReports" and "\<not> isBluetoothPoweredOn (manager b)"
  shows "\<not> isBluetoothPoweredOn (manager (handle e b))"
    and "isScanning (manager (handle e b)) = isScanning (manager b)"
    and "\<not> isAdvertising (manager b) \<Longrightarrow> \<not> isAdvertising (manager (handle e b))"
  using assms
  by (cases e; auto simp: on_manager_def peripheralManagerDidUpdateState_def didDiscover_def
      split: CBManagerState.split)+

lemma handle_all_while_off:
  assumes "CentralReports \<notin> set es" and "\<not> isBluetoothPoweredOn (manager b)" and "\<not> isAdvertising (manager b)"
  shows "\<not> isBluetoothPoweredOn (manager (handle_all es b)) \<and> \<not> isAdvertising (manager (handle_all es b)) \<and>
    isScanning (manager (handle_all es b)) = isScanning (manager b)"
  using assms
proof (induction es arbitrary: b)
  case (Cons e es)
  have e: "e \<noteq> CentralReports" using Cons.prems(1) by auto
  note off = handle_while_off [OF e Cons.prems(2)]
  show ?case
    using Cons.IH [of "handle e b"] off(1,2) off(3) [OF Cons.prems(3)] Cons.prems(1)
    by (simp add: handle_all_def)
qed (simp add: handle_all_def)

end
