(* ===== verification/App_Props.thy ===== *)
theory App_Props
  imports Self_Test Scanner Samples
begin

text \<open>
  The properties of the macOS application: its self-test through the C interface, and what its screen
  says about Bluetooth.
\<close>

section \<open>The self-test\<close>

text \<open>
  C27: the self-test of the application succeeds: with libraries that keep their contracts, a
  Diffie-Hellman function that is defined on honest keys, a text that is valid UTF-8 and 85 bytes of C heap,
  all five steps succeed, in order, the detection of a damaged tag among them, and the heap has its room back.
  And whatever the libraries do and however runs overlap, the screen says that all checks passed only when it shows
  all five steps, although a run stops early when one of the first three fails.
\<close>

theorem self_test_succeeds:
  fixes plib :: "('o, 'k, 'p) pkey_lib" and lib :: "('o, 'c) cipher_lib"
  assumes "kex_contract plib st priv pubk pub dh hkdf"
    and "\<forall>a b. length a = 32 \<longrightarrow> length b = 32 \<longrightarrow> dh a (pub b) \<noteq> None"
    and "gcm_contract lib st' E D T" and "cipher_available lib"
    and "decode test_plaintext \<noteq> None" and "heap_ok h" and "85 \<le> heap_room h"
  shows "\<exists>steps os' h'. CoreSelfTest_run decode no_text illegible plib lib (os, h) = (Inr steps, (os', h')) \<and>
      heap_room h' = heap_room h \<and> list_all success steps \<and>
      map title steps = [KeyGenerationStep, KeyExchangeStep, EncryptionStep, DecryptionStep, TamperStep] \<and>
    (\<forall>es. (\<forall>steps. RunFinished steps \<in> set es \<longrightarrow>
        (\<exists>(plib' :: ('o, 'k, 'p) pkey_lib) (lib' :: ('o, 'c) cipher_lib) s s'.
          CoreSelfTest_run decode no_text illegible plib' lib' s = (Inr steps, s'))) \<longrightarrow>
      verdict (fold runSelfTest es ContentView_init) = Some True \<longrightarrow>
      map title (selfTestSteps (fold runSelfTest es ContentView_init)) =
        [KeyGenerationStep, KeyExchangeStep, EncryptionStep, DecryptionStep, TamperStep])"
proof -
  have honest: "honest_dh pub dh" using assms(2) by (simp add: honest_dh_def)
  have "\<exists>os' h'. CoreSelfTest_run decode no_text illegible plib lib (os, h) =
      (Inr (map step_passed [KeyGenerationStep, KeyExchangeStep, EncryptionStep, DecryptionStep, TamperStep]), (os', h')) \<and>
    heap_ok h' \<and> heap_room h' = heap_room h"
    by (rule self_test_passes [OF assms(1) honest assms(3,4)]) (fact assms)+
  moreover have "in_order steps"
    if "CoreSelfTest_run decode no_text illegible plib' lib' s = (Inr steps, s')"
    for plib' :: "('o, 'k, 'p) pkey_lib" and lib' :: "('o, 'c) cipher_lib" and s steps s'
    using self_test_in_order [of decode no_text illegible plib' lib'] that unfolding returns_def by blast
  then have "map title (selfTestSteps (fold runSelfTest es ContentView_init)) = Enum.enum"
    if "\<forall>steps. RunFinished steps \<in> set es \<longrightarrow>
        (\<exists>(plib' :: ('o, 'k, 'p) pkey_lib) (lib' :: ('o, 'c) cipher_lib) s s'.
          CoreSelfTest_run decode no_text illegible plib' lib' s = (Inr steps, s'))"
      and "verdict (fold runSelfTest es ContentView_init) = Some True" for es
    using that by (intro good_verdict_is_complete) blast+
  ultimately show ?thesis by (fastforce simp: step_passed_def enum_step_title_def)
qed

definition app_heap :: heap where
  "app_heap = \<lparr>blocks = (\<lambda>_. None), next_block = 1, heap_room = 85\<rparr>"

theorem self_test_succeeds_witness:
  "\<exists>steps os' h'. CoreSelfTest_run Some [] [0x3F] toy_pkey toy_cipher (0, app_heap) = (Inr steps, (os', h')) \<and>
    heap_room h' = 85 \<and> list_all success steps \<and> length steps = 5"
proof -
  have h: "heap_ok app_heap" "85 \<le> heap_room app_heap" "heap_room app_heap = 85"
    by (simp_all add: app_heap_def heap_ok_def)
  have "\<forall>a b. length a = 32 \<longrightarrow> length b = 32 \<longrightarrow> toy_dh a (toy_pub b) \<noteq> None"
    using toy_dh_honest by blast
  from self_test_succeeds [where decode = Some and no_text = "[]" and illegible = "[0x3F]" and os = 0,
      OF toy_kex_contract this toy_contract toy_available _ h(1,2)] obtain steps os' h' where
    "CoreSelfTest_run Some [] [0x3F] toy_pkey toy_cipher (0, app_heap) = (Inr steps, (os', h'))"
    "heap_room h' = heap_room app_heap" "list_all success steps"
    and t: "map title steps = [KeyGenerationStep, KeyExchangeStep, EncryptionStep, DecryptionStep, TamperStep]"
    by auto
  moreover from arg_cong [OF t, of length] have "length steps = 5" by simp
  ultimately show ?thesis using h(3) by auto
qed

section \<open>The screen\<close>

text \<open>
  C28: the list of devices on the screen is true to the reports of CoreBluetooth, whatever else happens: every
  device reported since the last scan was started, once, in the order of the first reports, each with the
  name and the strength of its last report.
\<close>

theorem peers_are_the_last_reports:
  assumes "b = handle_all es (bluetooth_start c p)" and "l = scan_reports es (bluetooth_start c p) []"
  shows "map peer_id (discoveredPeers (manager b)) = rev (remdups (rev (map peer_id l))) \<and>
    (\<forall>q \<in> set (discoveredPeers (manager b)). find (\<lambda>r. peer_id r = peer_id q) (rev l) = Some q)"
proof -
  have "lists_reports [] (discoveredPeers (manager (bluetooth_start c p)))"
    by (simp add: lists_reports_def bluetooth_start_def BluetoothManager_init_def)
  from handle_all_lists_reports [OF this, of es] assms show ?thesis
    by (simp add: lists_reports_def last_report_def)
qed

theorem peers_are_the_last_reports_witness:
  "discoveredPeers (manager (handle_all
     [CentralReports, TapScan, Discovers ''X'' None (Some ''old'') (- 70), Discovers ''Y'' (Some ''mac'') None (- 50),
      Discovers ''X'' (Some ''new'') None (- 60)] (bluetooth_start CBpoweredOn CBpoweredOn)))
   = [\<lparr>peer_id = ''X'', peer_name = ''new'', peer_rssi = - 60\<rparr>, \<lparr>peer_id = ''Y'', peer_name = ''mac'', peer_rssi = - 50\<rparr>] \<and>
   map peer_id (discoveredPeers (manager (handle_all [TapScan, Discovers ''Z'' None None 0]
     (bluetooth_start CBpoweredOff CBpoweredOff)))) = [''Z'']"
proof
  show "map peer_id (discoveredPeers (manager (handle_all [TapScan, Discovers ''Z'' None None 0]
      (bluetooth_start CBpoweredOff CBpoweredOff)))) = [''Z'']"
    using conjunct1 [OF peers_are_the_last_reports [OF refl refl, of "[TapScan, Discovers ''Z'' None None 0]" CBpoweredOff CBpoweredOff]]
    by (simp add: bluetooth_start_def BluetoothManager_init_def reported_peer_def)
qed code_simp

text \<open>
  C29: the flag of the scan survives the scan. When Bluetooth is switched off while the application scans
  and advertises and both managers report it, the screen stops showing the advertisement, as the code intends, but
  goes on showing a scan; and since the buttons are disabled, no event short of a new report of the
  central manager changes that.
\<close>

theorem scan_flag_survives_power_off:
  assumes "isScanning (manager b)" and "CentralReports \<notin> set es"
    and "b' = handle_all ([CentralBecomes CBpoweredOff, PeripheralBecomes CBpoweredOff, CentralReports, PeripheralReports] @ es) b"
  shows "isScanning (manager b') \<and> \<not> isAdvertising (manager b') \<and> \<not> isBluetoothPoweredOn (manager b')"
proof -
  let ?off = "handle_all [CentralBecomes CBpoweredOff, PeripheralBecomes CBpoweredOff, CentralReports, PeripheralReports] b"
  have b': "b' = handle_all es ?off" using assms(3) by (simp add: handle_all_def)
  have "isScanning (manager ?off)" "\<not> isAdvertising (manager ?off)" "\<not> isBluetoothPoweredOn (manager ?off)"
    using assms(1)
    by (simp_all add: handle_all_def on_manager_def centralManagerDidUpdateState_def peripheralManagerDidUpdateState_def Let_def)
  with handle_all_while_off [OF assms(2), of ?off] b' show ?thesis by simp
qed

theorem scan_flag_survives_power_off_witness:
  "isScanning (manager (handle_all
     ([CentralBecomes CBpoweredOff, PeripheralBecomes CBpoweredOff, CentralReports, PeripheralReports] @ [TapScan, TapScan])
     (handle_all [CentralReports, TapAdvertise None, TapScan] (bluetooth_start CBpoweredOn CBpoweredOn))))"
proof -
  have "isScanning (manager (handle_all [CentralReports, TapAdvertise None, TapScan] (bluetooth_start CBpoweredOn CBpoweredOn)))"
    by code_simp
  from scan_flag_survives_power_off [OF this _ refl, of "[TapScan, TapScan]"] show ?thesis by simp
qed

end
