(* ===== verification/EndToEnd_Tests.thy ===== *)
theory EndToEnd_Tests
  imports EndToEnd
begin

text \<open>
  The three tests of \<open>core/tests/test_chunking_e2e.cpp\<close>: returning is passing, an exception is failing. Each
  is shown to pass, for every OpenSSL that keeps its contracts, on a disk that grants access and has room.
\<close>

section \<open>The tests\<close>

definition on_openssl :: "('o, 'a) prog \<Rightarrow> ('o world, 'a) prog" where
  "on_openssl m w = (let (r, os) = m (openssl w) in (r, w\<lparr>openssl := os\<rparr>))"

text \<open>\<open>std::remove\<close>, its result ignored.\<close>

definition remove_file :: "string \<Rightarrow> ('o world, unit) prog" where
  "remove_file path w = (Inr (), w\<lparr>disk := (disk w)\<lparr>files := (files (disk w))(path := None)\<rparr>\<rparr>)"

definition WriteTempFile :: "string \<Rightarrow> nat \<Rightarrow> ('o world, string) prog" where
  "WriteTempFile name size_bytes w =
     (let path = ''/tmp/'' @ name in
      case ofstream_open_trunc path (disk w) of
        (None, d) \<Rightarrow> (Inr path, w\<lparr>disk := d\<rparr>)
      | (Some f, d) \<Rightarrow>
          let (f, d) = foldl (\<lambda>(f, d) i. ostream_put (of_nat (i mod 251)) f d) (f, d) [0..<size_bytes]
          in (Inr path, w\<lparr>disk := d\<rparr>))"

text \<open>\<open>EndToEnd_SmallFileTransfersIntact\<close>: returning is passing, an exception is failing.\<close>

definition EndToEnd_SmallFileTransfersIntact ::
    "('o, 'k, 'p) pkey_lib \<Rightarrow> ('o, 'c) cipher_lib \<Rightarrow> ('o, 'm) digest_lib \<Rightarrow> ('o world, unit) prog" where
  "EndToEnd_SmallFileTransfersIntact plib lib dlib =
     prog_bind (on_openssl (GenerateKeyPair plib)) (\<lambda>alice_keys.
     prog_bind (on_openssl (GenerateKeyPair plib)) (\<lambda>bob_keys.
     prog_bind (on_openssl (DeriveSessionKey plib (private_key alice_keys) (public_key bob_keys)
       ''airdrop-session-v1'')) (\<lambda>session_key_alice.
     prog_bind (on_openssl (DeriveSessionKey plib (private_key bob_keys) (public_key alice_keys)
       ''airdrop-session-v1'')) (\<lambda>session_key_bob.
     prog_bind (ASSERT_TRUE ''session_key_alice == session_key_bob'' (session_key_alice = session_key_bob)) (\<lambda>_.
     prog_bind (WriteTempFile ''airdrop_test_small.bin'' 500) (\<lambda>src_path.
     prog_bind (PrepareFileOffer dlib src_path) (\<lambda>offer.
     prog_bind (ASSERT_EQ ''offer.total_chunks'' ''(uint32_t)1'' (total_chunks offer) 1) (\<lambda>_.
     let dst_path = ''/tmp/airdrop_test_small_received.bin'' in
     prog_bind (transfer lib session_key_alice session_key_bob src_path dst_path offer) (\<lambda>receiver.
     prog_bind (ASSERT_TRUE ''receiver.IsComplete()'' (IsComplete receiver)) (\<lambda>_.
     prog_bind (VerifyIntegrity dlib receiver) (\<lambda>intact.
     prog_bind (ASSERT_TRUE ''receiver.VerifyIntegrity()'' intact) (\<lambda>_.
     prog_bind (remove_file src_path) (\<lambda>_. remove_file dst_path)))))))))))))"

text \<open>\<open>EndToEnd_MultiChunkFileTransfersIntact\<close>\<close>

definition EndToEnd_MultiChunkFileTransfersIntact ::
    "('o, 'k, 'p) pkey_lib \<Rightarrow> ('o, 'c) cipher_lib \<Rightarrow> ('o, 'm) digest_lib \<Rightarrow> ('o world, unit) prog" where
  "EndToEnd_MultiChunkFileTransfersIntact plib lib dlib =
     prog_bind (on_openssl (GenerateKeyPair plib)) (\<lambda>alice_keys.
     prog_bind (on_openssl (GenerateKeyPair plib)) (\<lambda>bob_keys.
     prog_bind (on_openssl (DeriveSessionKey plib (private_key alice_keys) (public_key bob_keys) ''v1'')) (\<lambda>key.
     let bytes = unat kChunkSize * 3 + 1234 in
     prog_bind (WriteTempFile ''airdrop_test_multi.bin'' bytes) (\<lambda>src_path.
     prog_bind (PrepareFileOffer dlib src_path) (\<lambda>offer.
     prog_bind (ASSERT_EQ ''offer.total_chunks'' ''(uint32_t)4'' (total_chunks offer) 4) (\<lambda>_.
     let dst_path = ''/tmp/airdrop_test_multi_received.bin'' in
     prog_bind (transfer_direct lib key src_path dst_path offer) (\<lambda>receiver.
     prog_bind (ASSERT_TRUE ''receiver.IsComplete()'' (IsComplete receiver)) (\<lambda>_.
     prog_bind (VerifyIntegrity dlib receiver) (\<lambda>intact.
     prog_bind (ASSERT_TRUE ''receiver.VerifyIntegrity()'' intact) (\<lambda>_.
     prog_bind (remove_file src_path) (\<lambda>_. remove_file dst_path)))))))))))"

text \<open>\<open>EndToEnd_OutOfOrderChunksStillAssembleCorrectly\<close>: the device agrees on a key with itself.\<close>

definition EndToEnd_OutOfOrderChunksStillAssembleCorrectly ::
    "('o, 'k, 'p) pkey_lib \<Rightarrow> ('o, 'c) cipher_lib \<Rightarrow> ('o, 'm) digest_lib \<Rightarrow> ('o world, unit) prog" where
  "EndToEnd_OutOfOrderChunksStillAssembleCorrectly plib lib dlib =
     prog_bind (on_openssl (GenerateKeyPair plib)) (\<lambda>keys.
     prog_bind (on_openssl (DeriveSessionKey plib (private_key keys) (public_key keys) ''v1'')) (\<lambda>key.
     let bytes = unat kChunkSize * 2 + 500 in
     prog_bind (WriteTempFile ''airdrop_test_reorder.bin'' bytes) (\<lambda>src_path.
     prog_bind (PrepareFileOffer dlib src_path) (\<lambda>offer.
     prog_bind (collect_chunks lib key src_path) (\<lambda>chunks.
     prog_bind (ASSERT_EQ ''chunks.size()'' ''(size_t)offer.total_chunks''
       (vec_size chunks) (ucast (total_chunks offer))) (\<lambda>_.
     let chunks = rev chunks;
         dst_path = ''/tmp/airdrop_test_reorder_received.bin'' in
     prog_bind (receive_chunks lib key dst_path offer chunks) (\<lambda>receiver.
     prog_bind (ASSERT_TRUE ''receiver.IsComplete()'' (IsComplete receiver)) (\<lambda>_.
     prog_bind (VerifyIntegrity dlib receiver) (\<lambda>intact.
     prog_bind (ASSERT_TRUE ''receiver.VerifyIntegrity()'' intact) (\<lambda>_.
     prog_bind (remove_file src_path) (\<lambda>_. remove_file dst_path)))))))))))"

section \<open>The steps of a test\<close>

text \<open>The temporary file: a pattern of bytes, written one at a time.\<close>

definition temp_content :: "nat \<Rightarrow> bytes" where
  "temp_content n = map (\<lambda>i. of_nat (i mod 251)) [0..<n]"

lemma write_at_end: "length f < limit \<Longrightarrow> write_at limit (length f) [c] f = f @ [c]"
  by (simp add: write_at_fits)

lemma put_pattern:
  assumes "n \<le> file_limit d" and "files d path = Some []"
  shows "foldl (\<lambda>(f, d) i. ostream_put (of_nat (i mod 251)) f d)
      (\<lparr>out_path = path, out_pos = 0, out_good = True\<rparr>, d) [0..<n]
    = (\<lparr>out_path = path, out_pos = n, out_good = True\<rparr>, d\<lparr>files := (files d)(path \<mapsto> temp_content n)\<rparr>)"
  using assms(1)
proof (induction n)
  case 0
  from assms(2) have "(files d)(path \<mapsto> []) = files d" by (rule map_upd_triv)
  then show ?case by (simp add: temp_content_def)
next
  case (Suc n)
  then have IH: "foldl (\<lambda>(f, d) i. ostream_put (of_nat (i mod 251)) f d)
      (\<lparr>out_path = path, out_pos = 0, out_good = True\<rparr>, d) [0..<n]
    = (\<lparr>out_path = path, out_pos = n, out_good = True\<rparr>, d\<lparr>files := (files d)(path \<mapsto> temp_content n)\<rparr>)"
    by linarith
  have "write_at (file_limit d) n [of_nat (n mod 251)] (temp_content n) = temp_content (Suc n)"
    using write_at_end [of "temp_content n" "file_limit d"] Suc.prems by (simp add: temp_content_def)
  then have "ostream_put (of_nat (n mod 251)) \<lparr>out_path = path, out_pos = n, out_good = True\<rparr>
      (d\<lparr>files := (files d)(path \<mapsto> temp_content n)\<rparr>)
    = (\<lparr>out_path = path, out_pos = Suc n, out_good = True\<rparr>,
       d\<lparr>files := (files d)(path \<mapsto> temp_content (Suc n))\<rparr>)"
    using Suc.prems by (simp add: stream_ops)
  then show ?case by (simp only: upt_Suc_append le0 foldl_append foldl.simps IH prod.case)
qed

lemma WriteTempFile_content:
  assumes "writable (disk w) (''/tmp/'' @ name)" and "n \<le> file_limit (disk w)"
  shows "WriteTempFile name n w = (Inr (''/tmp/'' @ name),
    w\<lparr>disk := (disk w)\<lparr>files := (files (disk w))(''/tmp/'' @ name \<mapsto> temp_content n)\<rparr>\<rparr>)"
  using assms put_pattern [of n "(disk w)\<lparr>files := (files (disk w))(''/tmp/'' @ name \<mapsto> [])\<rparr>" "''/tmp/'' @ name"]
  by (auto simp: WriteTempFile_def stream_ops Let_def)

lemma on_openssl_eq: "m (openssl w) = (r, os) \<Longrightarrow> on_openssl m w = (r, w\<lparr>openssl := os\<rparr>)"
  by (simp add: on_openssl_def)

text \<open>
  Every step as a triple on the disk. \<open>test_key pub kp\<close>: a key pair as the library generates it.
\<close>

definition test_key :: "(bytes \<Rightarrow> bytes) \<Rightarrow> KeyPair \<Rightarrow> bool" where
  "test_key pub kp \<longleftrightarrow> (\<exists>a. length a = 32 \<and> kp = \<lparr>public_key = pub a, private_key = a\<rparr>)"

definition test_session ::
    "(bytes \<Rightarrow> bytes \<Rightarrow> bytes option) \<Rightarrow> (bytes \<Rightarrow> bytes \<Rightarrow> bytes \<Rightarrow> bytes) \<Rightarrow> KeyPair \<Rightarrow> KeyPair \<Rightarrow> string \<Rightarrow> bytes" where
  "test_session dh hkdf mine theirs info =
     (case dh (private_key mine) (public_key theirs) of
        None \<Rightarrow> [] | Some s \<Rightarrow> hkdf [] s (map byte_of_char info))"

lemma GenerateKeyPair_yields:
  assumes "kex_contract plib st priv pubk pub dh hkdf"
  shows "yields (\<lambda>w. disk w = d) (on_openssl (GenerateKeyPair plib)) (\<lambda>kp w. test_key pub kp \<and> disk w = d)"
proof (rule yieldsI)
  fix w :: "'a world" assume "disk w = d"
  obtain a os where "GenerateKeyPair plib (openssl w) = (Inr \<lparr>public_key = pub a, private_key = a\<rparr>, os)"
      "length a = 32"
    using GenerateKeyPair_fresh [OF assms] by blast
  then show "\<exists>kp w'. on_openssl (GenerateKeyPair plib) w = (Inr kp, w') \<and> test_key pub kp \<and> disk w' = d"
    using \<open>disk w = d\<close> by (auto simp: on_openssl_eq test_key_def)
qed

lemma test_session_agrees:
  assumes "kex_contract plib st priv pubk pub dh hkdf" and "honest_dh pub dh"
    and "test_key pub ka" and "test_key pub kb"
  shows "test_session dh hkdf ka kb info = test_session dh hkdf kb ka info"
    and "key_ok (test_session dh hkdf ka kb info)"
    and "dh (private_key ka) (public_key kb) \<noteq> None"
    and "key_ok (private_key ka)" and "key_ok (public_key kb)"
proof -
  have alg: "dh_algebra pub dh hkdf" using assms(1) by (simp add: kex_contract_def)
  obtain a b where ab: "length a = 32" "length b = 32" "ka = \<lparr>public_key = pub a, private_key = a\<rparr>"
      "kb = \<lparr>public_key = pub b, private_key = b\<rparr>"
    using assms(3,4) unfolding test_key_def by blast
  from assms(2) ab obtain s where s: "dh a (pub b) = Some s" by (auto simp: honest_dh_def)
  with alg ab(1,2) have s': "dh b (pub a) = Some s" by (simp add: dh_algebra_def)
  show "test_session dh hkdf ka kb info = test_session dh hkdf kb ka info"
    and "dh (private_key ka) (public_key kb) \<noteq> None"
    using ab s s' by (simp_all add: test_session_def)
  show "key_ok (test_session dh hkdf ka kb info)" and "key_ok (private_key ka)" and "key_ok (public_key kb)"
    using alg ab s by (simp_all add: test_session_def dh_algebra_def key_ok_def crypto_sizes)
qed

lemma DeriveSessionKey_yields:
  assumes "kex_contract plib st priv pubk pub dh hkdf" and "honest_dh pub dh"
    and "test_key pub ka" and "test_key pub kb" and "length info \<le> 1024"
  shows "yields (\<lambda>w. disk w = d) (on_openssl (DeriveSessionKey plib (private_key ka) (public_key kb) info))
    (\<lambda>k w. k = test_session dh hkdf ka kb info \<and> disk w = d)"
proof (rule yieldsI)
  fix w :: "'a world" assume "disk w = d"
  note keys = test_session_agrees [OF assms(1-4)]
  obtain s where "dh (private_key ka) (public_key kb) = Some s" using keys(3) by blast
  then show "\<exists>k w'. on_openssl (DeriveSessionKey plib (private_key ka) (public_key kb) info) w = (Inr k, w') \<and>
      k = test_session dh hkdf ka kb info \<and> disk w' = d"
    using DeriveSessionKey_outcome [OF assms(1) keys(4,5) assms(5), of "openssl w"] \<open>disk w = d\<close>
    by (auto simp: on_openssl_eq test_session_def)
qed

text \<open>A disk on which the tests can run.\<close>

definition test_disk :: "nat \<Rightarrow> filesystem \<Rightarrow> bool" where
  "test_disk room d \<longleftrightarrow> (\<forall>p. readable d p \<and> writable d p) \<and> room \<le> file_limit d"

lemma test_disk_files [simp]: "test_disk room (d\<lparr>files := m\<rparr>) \<longleftrightarrow> test_disk room d"
  by (simp add: test_disk_def)

lemma length_temp_content [simp]: "length (temp_content n) = n"
  by (simp add: temp_content_def)

lemma WriteTempFile_yields:
  assumes "test_disk room d" and "n \<le> room"
  shows "yields (\<lambda>w. disk w = d) (WriteTempFile name n)
    (\<lambda>path w. path = ''/tmp/'' @ name \<and> disk w = d\<lparr>files := (files d)(''/tmp/'' @ name \<mapsto> temp_content n)\<rparr>)"
proof (rule yieldsI)
  fix w :: "'a world" assume w: "disk w = d"
  have "writable (disk w) (''/tmp/'' @ name)" and "n \<le> file_limit (disk w)"
    using assms w by (simp_all add: test_disk_def)
  from WriteTempFile_content [OF this] w show "\<exists>path w'. WriteTempFile name n w = (Inr path, w') \<and>
      path = ''/tmp/'' @ name \<and> disk w' = d\<lparr>files := (files d)(''/tmp/'' @ name \<mapsto> temp_content n)\<rparr>"
    by simp
qed

lemma temp_file_transferable:
  assumes "test_disk room d" and "n \<le> room" and "n \<le> 2 ^ 16" and "src \<noteq> dst"
  shows "transferable (d\<lparr>files := (files d)(src \<mapsto> temp_content n)\<rparr>) src dst (temp_content n)"
  using assms by (auto simp: transferable_def test_disk_def num_chunks_def)

lemma PrepareFileOffer_yields:
  assumes "digest_ready dlib H" and "transferable d src dst content"
  shows "yields (\<lambda>w. disk w = d) (PrepareFileOffer dlib src)
    (\<lambda>offer w. offers offer content (H content) \<and> disk w = d)"
proof (rule yieldsI)
  fix w :: "'a world" assume w: "disk w = d"
  then have "transferable (disk w) src dst content" using assms(2) by simp
  then show "\<exists>offer w'. PrepareFileOffer dlib src w = (Inr offer, w') \<and> offers offer content (H content) \<and> disk w' = d"
    by (rule transferable_offer [OF assms(1)]) (use w in auto)
qed

text \<open>The three ways to bring the chunks across end alike: everything has arrived.\<close>

definition arrived ::
    "bytes \<Rightarrow> string \<Rightarrow> (bytes \<Rightarrow> bytes) \<Rightarrow> filesystem \<Rightarrow> FileReceiver \<Rightarrow> 'o world \<Rightarrow> bool" where
  "arrived content dst H d r w \<longleftrightarrow> assembling content dst (H content) d {..<num_chunks content} (w, r)"

lemma arrivesI:
  assumes "\<And>w. disk w = d \<Longrightarrow> \<exists>w' r. m w = (Inr r, w') \<and>
    assembling content dst (H content) (disk w) {..<num_chunks content} (w', r)"
  shows "yields (\<lambda>w. disk w = d) m (\<lambda>r w. IsComplete r \<and> arrived content dst H d r w)"
proof (rule yieldsI)
  fix w :: "'a world" assume "disk w = d"
  with assms [of w] assembling_all(1) show
    "\<exists>r w'. m w = (Inr r, w') \<and> IsComplete r \<and> arrived content dst H d r w'"
    unfolding arrived_def by blast
qed

lemma ASSERT_yields:
  "c \<Longrightarrow> yields P (ASSERT_TRUE txt c) (\<lambda>x w. True \<and> P w)"
  "a = b \<Longrightarrow> yields P (ASSERT_EQ ta tb a b) (\<lambda>x w. True \<and> P w)"
  by (simp_all add: yields_def ASSERT_TRUE_def ASSERT_EQ_def)

lemma VerifyIntegrity_yields:
  assumes "digest_ready dlib H" and "test_disk room d"
  shows "yields (arrived content dst H d r) (VerifyIntegrity dlib r) (\<lambda>b w. b \<and> test_disk room (disk w))"
proof (rule yieldsI)
  fix w :: "'a world" assume a: "arrived content dst H d r w"
  then have w: "test_disk room (disk w)"
    using assms(2) by (simp add: arrived_def assembling_def)
  have "files (disk w) dst = Some content"
    using a unfolding arrived_def by (rule assembling_all(2))
  moreover have "readable (disk w) dst" using w by (simp add: test_disk_def)
  ultimately obtain os where "Sha256File dlib (disk w) dst (openssl w) = (Inr (H content), os)"
    using sha.hash_content [OF assms(1)] by blast
  then have "VerifyIntegrity dlib r w = (Inr True, w\<lparr>openssl := os\<rparr>)"
    using a by (simp add: VerifyIntegrity_def arrived_def assembling_def)
  with w show "\<exists>b w'. VerifyIntegrity dlib r w = (Inr b, w') \<and> b \<and> test_disk room (disk w')"
    by (intro exI [of _ True]) simp
qed

lemma remove_file_yields:
  "yields (\<lambda>w. test_disk room (disk w)) (remove_file path) (\<lambda>x w. True \<and> test_disk room (disk w))"
  by (simp add: yields_def remove_file_def)

text \<open>The end that the tests share.\<close>

lemma test_end:
  assumes "digest_ready dlib H" and "test_disk room d" and "IsComplete r"
  shows "yields (arrived content dst H d r)
    (prog_bind (ASSERT_TRUE ta (IsComplete r)) (\<lambda>_.
     prog_bind (VerifyIntegrity dlib r) (\<lambda>intact.
     prog_bind (ASSERT_TRUE tb intact) (\<lambda>_.
     prog_bind (remove_file src) (\<lambda>_. remove_file dst)))))
    (\<lambda>_ w. test_disk room (disk w))"
proof (rule yields_step [OF ASSERT_yields(1) [OF assms(3)]])
  show "yields (arrived content dst H d r)
    (prog_bind (VerifyIntegrity dlib r) (\<lambda>intact.
     prog_bind (ASSERT_TRUE tb intact) (\<lambda>_.
     prog_bind (remove_file src) (\<lambda>_. remove_file dst))))
    (\<lambda>_ w. test_disk room (disk w))"
    by (rule yields_step [OF VerifyIntegrity_yields [OF assms(1,2)]],
        rule yields_step [OF ASSERT_yields(1)], assumption,
        rule yields_step [OF remove_file_yields], rule yields_weaken [OF remove_file_yields]) simp
qed

section \<open>The tests pass\<close>

definition passes :: "nat \<Rightarrow> ('o world, unit) prog \<Rightarrow> bool" where
  "passes room t \<longleftrightarrow> yields (\<lambda>w. test_disk room (disk w)) t (\<lambda>_ w. test_disk room (disk w))"

lemma passesI: "(\<And>d. test_disk room d \<Longrightarrow> yields (\<lambda>w. disk w = d) t (\<lambda>_ w. test_disk room (disk w))) \<Longrightarrow> passes room t"
  unfolding passes_def by (fastforce simp: yields_def)

lemma SmallFile_passes:
  fixes plib :: "('o, 'k, 'p) pkey_lib" and lib :: "('o, 'c) cipher_lib" and dlib :: "('o, 'm) digest_lib"
  assumes kex: "kex_contract plib st priv pubk pub dh hkdf" and honest: "honest_dh pub dh"
    and ready: "cipher_ready lib" and sha: "digest_ready dlib H" and room: "500 \<le> room"
  shows "passes room (EndToEnd_SmallFileTransfersIntact plib lib dlib)"
proof (rule passesI)
  fix d assume d: "test_disk room d"
  let ?src = "''/tmp/airdrop_test_small.bin''" and ?dst = "''/tmp/airdrop_test_small_received.bin''"
  let ?c = "temp_content 500"
  let ?d = "d\<lparr>files := (files d)(?src \<mapsto> ?c)\<rparr>"
  have tr: "transferable ?d ?src ?dst ?c" using temp_file_transferable [OF d, of 500 ?src ?dst] room by simp
  have temp: "yields (\<lambda>w. disk w = d) (WriteTempFile ''airdrop_test_small.bin'' 500)
      (\<lambda>path w. path = ?src \<and> disk w = ?d)"
    using WriteTempFile_yields [OF d, of 500 "''airdrop_test_small.bin''"] room by simp
  have n: "offers offer ?c h \<Longrightarrow> total_chunks offer = 1" for offer h
    by (simp add: offers_def num_chunks_def)
  show "yields (\<lambda>w. disk w = d) (EndToEnd_SmallFileTransfersIntact plib lib dlib) (\<lambda>_ w. test_disk room (disk w))"
    unfolding EndToEnd_SmallFileTransfersIntact_def Let_def
  proof (rule yields_step [OF GenerateKeyPair_yields [OF kex]], rule yields_step [OF GenerateKeyPair_yields [OF kex]],
      rule yields_value [OF DeriveSessionKey_yields [OF kex honest]], assumption, assumption, simp,
      rule yields_value [OF DeriveSessionKey_yields [OF kex honest]], assumption, assumption, simp,
      rule yields_step [OF ASSERT_yields(1)], erule (1) test_session_agrees(1) [OF kex honest],
      rule yields_value [OF temp], rule yields_step [OF PrepareFileOffer_yields [OF sha tr]],
      rule yields_step [OF ASSERT_yields(2)], erule n, rule yields_step [OF arrivesI])
    fix ka kb offer and w :: "'o world"
    assume keys: "test_key pub ka" "test_key pub kb" and offer: "offers offer ?c (H ?c)"
      and w: "disk w = ?d"
    let ?k = "test_session dh hkdf"
    have k: "?k ka kb ''airdrop-session-v1'' = ?k kb ka ''airdrop-session-v1''"
      "key_ok (?k ka kb ''airdrop-session-v1'')"
      by (rule test_session_agrees [OF kex honest keys])+
    show "\<exists>w' r. transfer lib (?k ka kb ''airdrop-session-v1'') (?k kb ka ''airdrop-session-v1'') ?src ?dst offer w
        = (Inr r, w') \<and> assembling ?c ?dst (H ?c) (disk w) {..<num_chunks ?c} (w', r)"
      using transfer_assembles [OF ready k(2), of w ?src ?dst ?c] tr offer w unfolding k(1) by simp
  qed (rule test_end [OF sha], simp_all add: d)
qed

lemma MultiChunk_passes:
  fixes plib :: "('o, 'k, 'p) pkey_lib" and lib :: "('o, 'c) cipher_lib" and dlib :: "('o, 'm) digest_lib"
  assumes kex: "kex_contract plib st priv pubk pub dh hkdf" and honest: "honest_dh pub dh"
    and ready: "cipher_ready lib" and sha: "digest_ready dlib H" and room: "2 ^ 16 \<le> room"
  shows "passes room (EndToEnd_MultiChunkFileTransfersIntact plib lib dlib)"
proof (rule passesI)
  fix d assume d: "test_disk room d"
  let ?src = "''/tmp/airdrop_test_multi.bin''" and ?dst = "''/tmp/airdrop_test_multi_received.bin''"
  let ?n = "unat kChunkSize * 3 + 1234"
  let ?c = "temp_content ?n"
  let ?d = "d\<lparr>files := (files d)(?src \<mapsto> ?c)\<rparr>"
  have tr: "transferable ?d ?src ?dst ?c" using temp_file_transferable [OF d, of ?n ?src ?dst] room by simp
  have temp: "yields (\<lambda>w. disk w = d) (WriteTempFile ''airdrop_test_multi.bin'' ?n)
      (\<lambda>path w. path = ?src \<and> disk w = ?d)"
    using WriteTempFile_yields [OF d, of ?n "''airdrop_test_multi.bin''"] room by simp
  have n: "offers offer ?c h \<Longrightarrow> total_chunks offer = 4" for offer h
    by (simp add: offers_def num_chunks_def)
  show "yields (\<lambda>w. disk w = d) (EndToEnd_MultiChunkFileTransfersIntact plib lib dlib) (\<lambda>_ w. test_disk room (disk w))"
    unfolding EndToEnd_MultiChunkFileTransfersIntact_def Let_def
  proof (rule yields_step [OF GenerateKeyPair_yields [OF kex]], rule yields_step [OF GenerateKeyPair_yields [OF kex]],
      rule yields_value [OF DeriveSessionKey_yields [OF kex honest]], assumption, assumption, simp,
      rule yields_value [OF temp], rule yields_step [OF PrepareFileOffer_yields [OF sha tr]],
      rule yields_step [OF ASSERT_yields(2)], erule n, rule yields_step [OF arrivesI])
    fix ka kb offer and w :: "'o world"
    assume keys: "test_key pub ka" "test_key pub kb" and offer: "offers offer ?c (H ?c)" and w: "disk w = ?d"
    have k: "key_ok (test_session dh hkdf ka kb ''v1'')" by (rule test_session_agrees(2) [OF kex honest keys])
    show "\<exists>w' r. transfer_direct lib (test_session dh hkdf ka kb ''v1'') ?src ?dst offer w
        = (Inr r, w') \<and> assembling ?c ?dst (H ?c) (disk w) {..<num_chunks ?c} (w', r)"
      using transfer_direct_assembles [OF ready k, of w ?src ?dst ?c] tr offer w by simp
  qed (rule test_end [OF sha], simp_all add: d)
qed

lemma collect_chunks_yields:
  assumes "cipher_ready lib" and "key_ok key" and tr: "transferable d src dst content"
  shows "yields (\<lambda>w. disk w = d) (collect_chunks lib key src)
    (\<lambda>cs w. list_all2 (chunk_of lib key content) [0..<num_chunks content] cs \<and> disk w = d)"
proof (rule yieldsI)
  fix w :: "'a world" assume w: "disk w = d"
  then have "transferable (disk w) src dst content" using tr by simp
  then show "\<exists>cs w'. collect_chunks lib key src w = (Inr cs, w') \<and>
      list_all2 (chunk_of lib key content) [0..<num_chunks content] cs \<and> disk w' = d"
    by (rule collect_chunks_all [OF assms(1,2)]) (use w in auto)
qed

lemma OutOfOrder_passes:
  fixes plib :: "('o, 'k, 'p) pkey_lib" and lib :: "('o, 'c) cipher_lib" and dlib :: "('o, 'm) digest_lib"
  assumes kex: "kex_contract plib st priv pubk pub dh hkdf" and honest: "honest_dh pub dh"
    and ready: "cipher_ready lib" and sha: "digest_ready dlib H" and room: "2 ^ 16 \<le> room"
  shows "passes room (EndToEnd_OutOfOrderChunksStillAssembleCorrectly plib lib dlib)"
proof (rule passesI)
  fix d assume d: "test_disk room d"
  let ?src = "''/tmp/airdrop_test_reorder.bin''" and ?dst = "''/tmp/airdrop_test_reorder_received.bin''"
  let ?n = "unat kChunkSize * 2 + 500"
  let ?c = "temp_content ?n"
  let ?d = "d\<lparr>files := (files d)(?src \<mapsto> ?c)\<rparr>"
  have tr: "transferable ?d ?src ?dst ?c" using temp_file_transferable [OF d, of ?n ?src ?dst] room by simp
  have temp: "yields (\<lambda>w. disk w = d) (WriteTempFile ''airdrop_test_reorder.bin'' ?n)
      (\<lambda>path w. path = ?src \<and> disk w = ?d)"
    using WriteTempFile_yields [OF d, of ?n "''airdrop_test_reorder.bin''"] room by simp
  have n: "vec_size cs = ucast (total_chunks offer)"
    if "offers offer ?c h" and "list_all2 P [0..<num_chunks ?c] cs" for offer h P and cs :: "ChunkPayload list"
  proof -
    have "length cs = 3" using list_all2_lengthD [OF that(2)] by (simp add: num_chunks_def)
    with that(1) show ?thesis by (simp add: offers_def num_chunks_def vec_size_def)
  qed
  show "yields (\<lambda>w. disk w = d) (EndToEnd_OutOfOrderChunksStillAssembleCorrectly plib lib dlib)
      (\<lambda>_ w. test_disk room (disk w))"
    unfolding EndToEnd_OutOfOrderChunksStillAssembleCorrectly_def Let_def
  proof (rule yields_step [OF GenerateKeyPair_yields [OF kex]],
      rule yields_value [OF DeriveSessionKey_yields [OF kex honest]], assumption, assumption, simp,
      rule yields_value [OF temp], rule yields_step [OF PrepareFileOffer_yields [OF sha tr]],
      rule yields_step [OF collect_chunks_yields [OF ready _ tr]], rule test_session_agrees(2) [OF kex honest],
      assumption, assumption, rule yields_step [OF ASSERT_yields(2)], erule (1) n, rule yields_step [OF arrivesI])
    fix ka offer cs and w :: "'o world"
    assume offer: "offers offer ?c (H ?c)" and w: "disk w = ?d"
      and cs: "list_all2 (chunk_of lib (test_session dh hkdf ka ka ''v1'') ?c) [0..<num_chunks ?c] cs"
    show "\<exists>w' r. receive_chunks lib (test_session dh hkdf ka ka ''v1'') ?dst offer (rev cs) w
        = (Inr r, w') \<and> assembling ?c ?dst (H ?c) (disk w) {..<num_chunks ?c} (w', r)"
      using receive_chunks_assembles [of w ?src ?dst ?c, OF _ offer cs set_rev] tr w by simp
  qed (rule test_end [OF sha], simp_all add: d)
qed

end
