(* ===== verification/Unit_Tests.thy ===== *)
theory Unit_Tests
  imports EndToEnd_Tests
begin

text \<open>
  The test runner \<open>core/tests/mini_test.hpp\<close> with \<open>test_main.cpp\<close>, the tests of \<open>test_protocol.cpp\<close> and
  \<open>test_crypto.cpp\<close>, and the test program with all seventeen tests of the core. Thirteen of them succeed by
  the contracts of the libraries; the verdict of the other four depends on the cryptography itself, and
  \<open>expected\<close> states on what.
\<close>

section \<open>The runner\<close>

record 'w Test =
  test_name :: string
  test_fn :: "('w, unit) prog"

text \<open>The constructor of \<open>Registrar\<close>: a test is put behind those registered before.\<close>

definition Registrar :: "string \<Rightarrow> ('w, unit) prog \<Rightarrow> 'w Test list \<Rightarrow> 'w Test list" where
  "Registrar name fn Registry = Registry @ [\<lparr>test_name = name, test_fn = fn\<rparr>]"

text \<open>
  What the handlers of \<open>RunAll\<close> make of an exception: the text behind the name of the test, or \<open>None\<close> when
  none of them catches it. The text of \<open>std::bad_function_call\<close> is that of the library.
\<close>

fun failure_text :: "failure \<Rightarrow> string option" where
  "failure_text (AssertionFailure m) = Some m"
| "failure_text (RuntimeError m) = Some (''unexpected exception: '' @ m)"
| "failure_text BadFunctionCall = Some ''unexpected exception: bad_function_call''"
| "failure_text (Panic m) = None"
| "failure_text OutOfBounds = None"

text \<open>
  The loop over the registry, with the counter \<open>failed\<close> and the lines printed so far, and the summary printed
  at the end: an empty line and the number of passed tests.
\<close>

fun run_tests :: "'w Test list \<Rightarrow> nat \<Rightarrow> string list \<Rightarrow> 'w \<Rightarrow> (nat \<times> string list) result \<times> 'w" where
  "run_tests [] failed out w = (Inr (failed, out), w)"
| "run_tests (t # ts) failed out w =
     (case test_fn t w of
        (Inr _, w) \<Rightarrow> run_tests ts failed (out @ [''[ OK ] '' @ test_name t]) w
      | (Inl e, w) \<Rightarrow>
          (case failure_text e of
             None \<Rightarrow> (Inl e, w)
           | Some txt \<Rightarrow>
               run_tests ts (failed + 1) (out @ [''[FAIL] '' @ test_name t @ '': '' @ txt]) w))"

fun decimal :: "nat \<Rightarrow> string" where
  "decimal n =
     (if n < 10 then [char_of (48 + n)] else decimal (n div 10) @ [char_of (48 + n mod 10)])"

declare decimal.simps [simp del]

lemma decimal_17: "decimal 17 = ''17''"
  by code_simp

definition RunAll :: "'w Test list \<Rightarrow> ('w, nat \<times> string list) prog" where
  "RunAll Registry =
     prog_bind (run_tests Registry 0 []) (\<lambda>(failed, out).
     prog_return (failed, out @
       ['''', decimal (length Registry - failed) @ ''/'' @ decimal (length Registry) @ '' passed'']))"

text \<open>The runner counts: every test is run, in order, and the result is the number of those that failed.\<close>

definition caught :: "unit result \<Rightarrow> bool" where
  "caught r \<longleftrightarrow> (case r of Inl e \<Rightarrow> failure_text e \<noteq> None | Inr _ \<Rightarrow> True)"

definition verdict_line :: "'w Test \<Rightarrow> unit result \<Rightarrow> string" where
  "verdict_line t r =
     (case r of
        Inr _ \<Rightarrow> ''[ OK ] '' @ test_name t
      | Inl e \<Rightarrow> ''[FAIL] '' @ test_name t @ '': '' @ (case failure_text e of None \<Rightarrow> '''' | Some txt \<Rightarrow> txt))"

lemma run_tests_counts:
  assumes "attempt_all test_fn ts w = (rs, w')" and "\<forall>r \<in> set rs. caught r"
  shows "run_tests ts n out w = (Inr (n + length (filter (\<lambda>r. r \<noteq> Inr ()) rs), out @ map2 verdict_line ts rs), w')"
  using assms
proof (induction ts arbitrary: n out w rs)
  case (Cons t ts)
  obtain r w1 where t: "test_fn t w = (r, w1)" by fastforce
  obtain rs1 where rest: "attempt_all test_fn ts w1 = (rs1, w')" "rs = r # rs1"
    using Cons.prems(1) t by (auto split: prod.splits)
  have "\<forall>r \<in> set rs1. caught r" and r: "caught r" using Cons.prems(2) rest(2) by simp_all
  note IH = Cons.IH [OF rest(1) this(1)]
  show ?case
  proof (cases r)
    case (Inl e)
    with r obtain m where "failure_text e = Some m" by (auto simp: caught_def)
    with Inl t rest(2) IH show ?thesis by (simp add: verdict_line_def)
  qed (use t rest(2) IH in \<open>simp add: verdict_line_def\<close>)
qed simp

text \<open>
  \<open>leads P m R\<close>: from every state with \<open>P\<close>, \<open>R\<close> holds of the outcome of \<open>m\<close>, a value or an exception, and of the
  new state. A test reports \<open>R\<close> when it leads to an outcome with \<open>R\<close> and leaves a disk on which tests can run.
\<close>

definition leads :: "('s \<Rightarrow> bool) \<Rightarrow> ('s, 'a) prog \<Rightarrow> ('a result \<Rightarrow> 's \<Rightarrow> bool) \<Rightarrow> bool" where
  "leads P m R \<longleftrightarrow> (\<forall>s. P s \<longrightarrow> (\<exists>r s'. m s = (r, s') \<and> R r s'))"

lemma leadsI: "(\<And>s. P s \<Longrightarrow> \<exists>r s'. m s = (r, s') \<and> R r s') \<Longrightarrow> leads P m R"
  by (simp add: leads_def)

lemma leads_step:
  assumes "yields P m (\<lambda>x s. A x \<and> Q x s)" and "\<And>x. A x \<Longrightarrow> leads (Q x) (f x) R"
  shows "leads P (prog_bind m f) R"
  using assms by (fastforce simp: yields_def leads_def prog_bind_def)

lemma leads_value:
  assumes "yields P m (\<lambda>x s. x = v \<and> Q s)" and "leads Q (f v) R"
  shows "leads P (prog_bind m f) R"
  using assms by (intro leads_step [where A = "\<lambda>x. x = v" and Q = "\<lambda>_. Q"]) simp_all

lemma leads_weaken: "leads P m Q \<Longrightarrow> (\<And>r s. Q r s \<Longrightarrow> R r s) \<Longrightarrow> leads P m R"
  by (fastforce simp: leads_def)

definition reports :: "nat \<Rightarrow> ('o world, unit) prog \<Rightarrow> (unit result \<Rightarrow> bool) \<Rightarrow> bool" where
  "reports room t R \<longleftrightarrow>
     leads (\<lambda>w. test_disk room (disk w)) t (\<lambda>r w. R r \<and> test_disk room (disk w))"

lemma reportsI:
  "(\<And>d. leads (\<lambda>w. disk w = d) t (\<lambda>r w. R r \<and> disk w = d)) \<Longrightarrow> reports room t R"
  unfolding reports_def by (fastforce simp: leads_def)

lemma passes_reports: "passes room t \<Longrightarrow> reports room t (\<lambda>r. r = Inr ())"
  unfolding reports_def passes_def by (fastforce simp: leads_def yields_def)

lemma reports_all:
  assumes "\<forall>t \<in> set ts. reports room (test_fn t) (R t)" and "test_disk room (disk w)"
  shows "\<exists>rs w'. attempt_all test_fn ts w = (rs, w') \<and> list_all2 R ts rs \<and> test_disk room (disk w')"
  using assms
proof (induction ts arbitrary: w)
  case (Cons t ts)
  from Cons.prems obtain r w1 where t: "test_fn t w = (r, w1)" "R t r" "test_disk room (disk w1)"
    by (auto simp: reports_def leads_def)
  from Cons.IH [OF _ t(3)] Cons.prems(1) t(1,2) show ?case by fastforce
qed simp

text \<open>Only tests with a given property fail, so no more than those.\<close>

lemma failures_bounded:
  assumes "list_all2 R ts rs" and "\<And>t r. R t r \<Longrightarrow> r \<noteq> Inr () \<Longrightarrow> Q t"
  shows "length (filter (\<lambda>r. r \<noteq> Inr ()) rs) \<le> length (filter Q ts)"
  using assms(1) by (induction rule: list_all2_induct) (use assms(2) in \<open>auto simp: le_SucI\<close>)

section \<open>Assertions\<close>

text \<open>\<open>ASSERT_THROWS(expr)\<close>\<close>

definition ASSERT_THROWS :: "string \<Rightarrow> ('s, 'a) prog \<Rightarrow> ('s, unit) prog" where
  "ASSERT_THROWS txt m s =
     (case m s of
        (Inl e, s) \<Rightarrow> if e = OutOfBounds then (Inl e, s) else (Inr (), s)
      | (Inr _, s) \<Rightarrow> (Inl (AssertionFailure (''expected exception: '' @ txt)), s))"

section \<open>The tests of the protocol\<close>

definition Hello_RoundTrip :: "('s, unit) prog" where
  "Hello_RoundTrip =
     (let p = \<lparr>device_name = ''Alexander'' @ [CHR 39] @ ''s MacBook'', x25519_public_key = replicate 32 0xAB\<rparr>;
          encoded = EncodeHello p in
      prog_bind (prog_of (DecodeHello encoded)) (\<lambda>decoded.
      prog_bind (ASSERT_EQ ''decoded.device_name'' ''p.device_name'' (device_name decoded) (device_name p)) (\<lambda>_.
      ASSERT_TRUE ''decoded.x25519_public_key == p.x25519_public_key''
        (x25519_public_key decoded = x25519_public_key p))))"

definition FileOffer_RoundTrip :: "('s, unit) prog" where
  "FileOffer_RoundTrip =
     (let p = \<lparr>file_name = ''report.pdf'', file_size = 123456789, sha256 = replicate 32 0x11, total_chunks = 42\<rparr>;
          encoded = EncodeFileOffer p in
      prog_bind (prog_of (DecodeFileOffer encoded)) (\<lambda>decoded.
      prog_bind (ASSERT_EQ ''decoded.file_name'' ''p.file_name'' (file_name decoded) (file_name p)) (\<lambda>_.
      prog_bind (ASSERT_EQ ''decoded.file_size'' ''p.file_size'' (file_size decoded) (file_size p)) (\<lambda>_.
      prog_bind (ASSERT_TRUE ''decoded.sha256 == p.sha256'' (sha256 decoded = sha256 p)) (\<lambda>_.
      ASSERT_EQ ''decoded.total_chunks'' ''p.total_chunks'' (total_chunks decoded) (total_chunks p))))))"

definition Chunk_RoundTrip :: "('s, unit) prog" where
  "Chunk_RoundTrip =
     (let p = \<lparr>chunk_index = 7, nonce = replicate 12 0x22, ciphertext = [1, 2, 3, 4, 5], tag = replicate 16 0x33\<rparr>;
          encoded = EncodeChunk p in
      prog_bind (prog_of (DecodeChunk encoded)) (\<lambda>decoded.
      prog_bind (ASSERT_EQ ''decoded.chunk_index'' ''p.chunk_index'' (chunk_index decoded) (chunk_index p)) (\<lambda>_.
      prog_bind (ASSERT_TRUE ''decoded.nonce == p.nonce'' (nonce decoded = nonce p)) (\<lambda>_.
      prog_bind (ASSERT_TRUE ''decoded.ciphertext == p.ciphertext'' (ciphertext decoded = ciphertext p)) (\<lambda>_.
      ASSERT_TRUE ''decoded.tag == p.tag'' (tag decoded = tag p))))))"

definition FrameMessage_HeaderParsesCorrectly :: "('s, unit) prog" where
  "FrameMessage_HeaderParsesCorrectly =
     (let payload = [9, 9, 9];
          framed = FrameMessage kFileOffer payload in
      prog_bind (prog_of (ParseHeader framed)) (\<lambda>hdr.
      prog_bind (ASSERT_EQ ''header.version'' ''kProtocolVersion'' (version hdr) kProtocolVersion) (\<lambda>_.
      prog_bind (ASSERT_TRUE ''header.type == MessageType::kFileOffer'' (msg_type hdr = kFileOffer)) (\<lambda>_.
      ASSERT_EQ ''header.payload_len'' ''(uint32_t)payload.size()''
        (payload_len hdr) (of_nat (length payload))))))"

definition ParseHeader_RejectsUnknownVersion :: "('s, unit) prog" where
  "ParseHeader_RejectsUnknownVersion =
     (let bad = [99, 1, 0, 0, 0, 0] in ASSERT_THROWS ''ParseHeader(bad)'' (prog_of (ParseHeader bad)))"

definition ParseHeader_RejectsTruncatedData :: "('s, unit) prog" where
  "ParseHeader_RejectsTruncatedData =
     (let tooShort = [1, 1] in ASSERT_THROWS ''ParseHeader(tooShort)'' (prog_of (ParseHeader tooShort)))"

definition DecodeFileOffer_RejectsTruncatedPayload :: "('s, unit) prog" where
  "DecodeFileOffer_RejectsTruncatedPayload =
     (let garbage = [1, 2, 3] in
      ASSERT_THROWS ''DecodeFileOffer(garbage)'' (prog_of (DecodeFileOffer garbage)))"

lemmas protocol_tests_def =
  Hello_RoundTrip_def FileOffer_RoundTrip_def Chunk_RoundTrip_def FrameMessage_HeaderParsesCorrectly_def
  ParseHeader_RejectsUnknownVersion_def ParseHeader_RejectsTruncatedData_def
  DecodeFileOffer_RejectsTruncatedPayload_def

lemma prog_of_step [simp]:
  "prog_bind (prog_of (Inr x)) f = f x"
  by (simp add: fun_eq_iff prog_bind_def prog_of_def)

lemma ASSERT_step [simp]:
  "prog_bind (ASSERT_TRUE txt True) f = f ()"
  "prog_bind (ASSERT_EQ ta tb a a) f = f ()"
  "ASSERT_TRUE txt True s = (Inr (), s)"
  "ASSERT_EQ ta tb a a s = (Inr (), s)"
  by (simp_all add: fun_eq_iff prog_bind_def ASSERT_TRUE_def ASSERT_EQ_def)

lemma decode_encode:
  "hello_ok h \<Longrightarrow> DecodeHello (EncodeHello h) = Inr h"
  "offer_ok f \<Longrightarrow> DecodeFileOffer (EncodeFileOffer f) = Inr f"
  "chunk_ok c \<Longrightarrow> DecodeChunk (EncodeChunk c) = Inr c"
  using hello.roundtrip [of h "[]"] offer.roundtrip [of f "[]"] chunk.roundtrip [of c "[]"] encodings_fit
  by simp_all

lemma protocol_tests_pass:
  "Hello_RoundTrip s = (Inr (), s)"
  "FileOffer_RoundTrip s = (Inr (), s)"
  "Chunk_RoundTrip s = (Inr (), s)"
  "FrameMessage_HeaderParsesCorrectly s = (Inr (), s)"
  "ParseHeader_RejectsUnknownVersion s = (Inr (), s)"
  "ParseHeader_RejectsTruncatedData s = (Inr (), s)"
  "DecodeFileOffer_RejectsTruncatedPayload s = (Inr (), s)"
proof -
  show "Hello_RoundTrip s = (Inr (), s)" "FileOffer_RoundTrip s = (Inr (), s)" "Chunk_RoundTrip s = (Inr (), s)"
    by (simp_all add: protocol_tests_def Let_def decode_encode hello_ok_def offer_ok_def chunk_ok_def)
  show "FrameMessage_HeaderParsesCorrectly s = (Inr (), s)"
    by (simp add: protocol_tests_def Let_def ParseHeader_FrameMessage)
  have "ParseHeader [99, 1, 0, 0, 0, 0]
      = Inl (RuntimeError ''protocol: version mismatch, peer uses a different protocol version'')"
    and "ParseHeader [1, 1] = Inl (RuntimeError ''protocol: header too short'')"
    and "DecodeFileOffer [1, 2, 3] = Inl (RuntimeError ''protocol: truncated length prefix'')"
    by code_simp+
  then show "ParseHeader_RejectsUnknownVersion s = (Inr (), s)" "ParseHeader_RejectsTruncatedData s = (Inr (), s)"
    "DecodeFileOffer_RejectsTruncatedPayload s = (Inr (), s)"
    by (simp_all add: protocol_tests_def ASSERT_THROWS_def prog_of_def)
qed

section \<open>The tests of the cryptography\<close>

definition KeyExchange_ProducesMatchingSessionKeyOnBothSides ::
    "('o, 'k, 'p) pkey_lib \<Rightarrow> ('o world, unit) prog" where
  "KeyExchange_ProducesMatchingSessionKeyOnBothSides plib =
     prog_bind (on_openssl (GenerateKeyPair plib)) (\<lambda>alice.
     prog_bind (on_openssl (GenerateKeyPair plib)) (\<lambda>bob.
     prog_bind (on_openssl (DeriveSessionKey plib (private_key alice) (public_key bob)
       ''airdrop-session-v1'')) (\<lambda>alice_session.
     prog_bind (on_openssl (DeriveSessionKey plib (private_key bob) (public_key alice)
       ''airdrop-session-v1'')) (\<lambda>bob_session.
     ASSERT_TRUE ''alice_session == bob_session'' (alice_session = bob_session)))))"

definition EncryptDecrypt_RoundTripRecoversPlaintext ::
    "('o, 'k, 'p) pkey_lib \<Rightarrow> ('o, 'c) cipher_lib \<Rightarrow> ('o world, unit) prog" where
  "EncryptDecrypt_RoundTripRecoversPlaintext plib lib =
     prog_bind (on_openssl (GenerateKeyPair plib)) (\<lambda>alice.
     prog_bind (on_openssl (GenerateKeyPair plib)) (\<lambda>bob.
     prog_bind (on_openssl (DeriveSessionKey plib (private_key alice) (public_key bob)
       ''airdrop-session-v1'')) (\<lambda>key.
     let plaintext = [1, 2, 3, 4, 5, 255, 0, 42] in
     prog_bind (on_openssl (EncryptChunk lib key plaintext)) (\<lambda>enc.
     prog_bind (on_openssl (DecryptChunk lib key enc)) (\<lambda>decrypted.
     ASSERT_EQ ''decrypted'' ''plaintext'' decrypted plaintext)))))"

definition EncryptDecrypt_EmptyPlaintextWorks ::
    "('o, 'k, 'p) pkey_lib \<Rightarrow> ('o, 'c) cipher_lib \<Rightarrow> ('o world, unit) prog" where
  "EncryptDecrypt_EmptyPlaintextWorks plib lib =
     prog_bind (on_openssl (GenerateKeyPair plib)) (\<lambda>alice.
     prog_bind (on_openssl (DeriveSessionKey plib (private_key alice) (public_key alice) ''self-test'')) (\<lambda>key.
     let empty = [] in
     prog_bind (on_openssl (EncryptChunk lib key empty)) (\<lambda>enc.
     prog_bind (on_openssl (DecryptChunk lib key enc)) (\<lambda>decrypted.
     ASSERT_TRUE ''decrypted.empty()'' (decrypted = [])))))"

text \<open>A chunk that decrypts to \<open>p\<close>, whatever the state of the library.\<close>

lemma EncryptChunk_yields:
  assumes "cipher_ready lib" and "key_ok k" and "length p < 2 ^ 31"
  shows "yields (\<lambda>w. disk w = d) (on_openssl (EncryptChunk lib k p))
    (\<lambda>enc w. (\<forall>os. fst (DecryptChunk lib k enc os) = Inr p) \<and> disk w = d)"
proof (rule yieldsI)
  fix w :: "'a world" assume "disk w = d"
  obtain enc os where "EncryptChunk lib k p (openssl w) = (Inr enc, os)" "\<forall>os. fst (DecryptChunk lib k enc os) = Inr p"
    using gcm.enc_dec [OF assms, of "openssl w"] by blast
  then show "\<exists>enc w'. on_openssl (EncryptChunk lib k p) w = (Inr enc, w') \<and>
      (\<forall>os. fst (DecryptChunk lib k enc os) = Inr p) \<and> disk w' = d"
    using \<open>disk w = d\<close> by (auto simp: on_openssl_eq)
qed

lemma DecryptChunk_yields:
  assumes "\<forall>os. fst (DecryptChunk lib k enc os) = Inr p"
  shows "yields (\<lambda>w. disk w = d) (on_openssl (DecryptChunk lib k enc)) (\<lambda>d2 w. d2 = p \<and> disk w = d)"
proof (rule yieldsI)
  fix w :: "'a world" assume "disk w = d"
  obtain os where "DecryptChunk lib k enc (openssl w) = (Inr p, os)" using assms by (metis prod.collapse)
  then show "\<exists>d2 w'. on_openssl (DecryptChunk lib k enc) w = (Inr d2, w') \<and> d2 = p \<and> disk w' = d"
    using \<open>disk w = d\<close> by (simp add: on_openssl_eq)
qed

lemma ASSERT_last: "c \<Longrightarrow> test_disk room d \<Longrightarrow>
    yields (\<lambda>w. disk w = d) (ASSERT_TRUE msg c) (\<lambda>_ w. test_disk room (disk w))"
  by (simp add: yields_def)

lemma ASSERT_EQ_last: "test_disk room d \<Longrightarrow>
    yields (\<lambda>w. disk w = d) (ASSERT_EQ ta tb a a) (\<lambda>_ w. test_disk room (disk w))"
  by (simp add: yields_def)

lemma crypto_tests_pass:
  assumes kex: "kex_contract plib st priv pubk pub dh hkdf" and honest: "honest_dh pub dh"
    and ready: "cipher_ready lib"
  shows "passes room (KeyExchange_ProducesMatchingSessionKeyOnBothSides plib)"
    and "passes room (EncryptDecrypt_RoundTripRecoversPlaintext plib lib)"
    and "passes room (EncryptDecrypt_EmptyPlaintextWorks plib lib)"
proof -
  note gen = yields_step [OF GenerateKeyPair_yields [OF kex]]
  note derive = yields_value [OF DeriveSessionKey_yields [OF kex honest]]
  show "passes room (KeyExchange_ProducesMatchingSessionKeyOnBothSides plib)"
    unfolding KeyExchange_ProducesMatchingSessionKeyOnBothSides_def
    by (rule passesI, rule gen, rule gen, rule derive, assumption, assumption, simp,
        rule derive, assumption, assumption, simp, rule ASSERT_last)
       (rule test_session_agrees(1) [OF kex honest])
  show "passes room (EncryptDecrypt_RoundTripRecoversPlaintext plib lib)"
    unfolding EncryptDecrypt_RoundTripRecoversPlaintext_def Let_def
    by (rule passesI, rule gen, rule gen, rule derive, assumption, assumption, simp,
        rule yields_step [OF EncryptChunk_yields [OF ready]], rule test_session_agrees(2) [OF kex honest],
        assumption, assumption, simp, rule yields_value [OF DecryptChunk_yields], assumption, rule ASSERT_EQ_last)
  show "passes room (EncryptDecrypt_EmptyPlaintextWorks plib lib)"
    unfolding EncryptDecrypt_EmptyPlaintextWorks_def Let_def
    by (rule passesI, rule gen, rule derive, assumption, assumption, simp,
        rule yields_step [OF EncryptChunk_yields [OF ready]], rule test_session_agrees(2) [OF kex honest],
        assumption, assumption, simp, rule yields_value [OF DecryptChunk_yields], assumption, rule ASSERT_last) simp
qed

text \<open>
  The four tests whose verdict depends on the functions that OpenSSL computes: whether HKDF gives two keys for
  two contexts, whether the tag of a chunk changes with its first byte or with the key, and what the digest of
  nothing is. The contracts say nothing about these, and no assumption about them is made here: the lemmas
  state the condition under which the test succeeds, and that it fails by its own assertion otherwise.
\<close>

definition KeyExchange_DifferentInfoProducesDifferentKey ::
    "('o, 'k, 'p) pkey_lib \<Rightarrow> ('o world, unit) prog" where
  "KeyExchange_DifferentInfoProducesDifferentKey plib =
     prog_bind (on_openssl (GenerateKeyPair plib)) (\<lambda>alice.
     prog_bind (on_openssl (GenerateKeyPair plib)) (\<lambda>bob.
     prog_bind (on_openssl (DeriveSessionKey plib (private_key alice) (public_key bob) ''context-a'')) (\<lambda>k1.
     prog_bind (on_openssl (DeriveSessionKey plib (private_key alice) (public_key bob) ''context-b'')) (\<lambda>k2.
     ASSERT_TRUE ''k1 != k2'' (k1 \<noteq> k2)))))"

text \<open>\<open>v[0] ^= 0xFF\<close>\<close>

definition flip_first :: "bytes \<Rightarrow> bytes result" where
  "flip_first v = (case v of [] \<Rightarrow> Inl OutOfBounds | b # rest \<Rightarrow> Inr ((b XOR 0xFF) # rest))"

definition Decrypt_TamperedCiphertextFailsAuthentication ::
    "('o, 'k, 'p) pkey_lib \<Rightarrow> ('o, 'c) cipher_lib \<Rightarrow> ('o world, unit) prog" where
  "Decrypt_TamperedCiphertextFailsAuthentication plib lib =
     prog_bind (on_openssl (GenerateKeyPair plib)) (\<lambda>alice.
     prog_bind (on_openssl (GenerateKeyPair plib)) (\<lambda>bob.
     prog_bind (on_openssl (DeriveSessionKey plib (private_key alice) (public_key bob)
       ''airdrop-session-v1'')) (\<lambda>key.
     let plaintext = [10, 20, 30] in
     prog_bind (on_openssl (EncryptChunk lib key plaintext)) (\<lambda>enc.
     prog_bind (prog_of (flip_first (enc_ciphertext enc))) (\<lambda>ct.
     let enc = enc\<lparr>enc_ciphertext := ct\<rparr> in
     ASSERT_THROWS ''DecryptChunk(key, enc)'' (on_openssl (DecryptChunk lib key enc)))))))"

definition Decrypt_WrongSessionKeyFailsAuthentication ::
    "('o, 'k, 'p) pkey_lib \<Rightarrow> ('o, 'c) cipher_lib \<Rightarrow> ('o world, unit) prog" where
  "Decrypt_WrongSessionKeyFailsAuthentication plib lib =
     prog_bind (on_openssl (GenerateKeyPair plib)) (\<lambda>alice.
     prog_bind (on_openssl (GenerateKeyPair plib)) (\<lambda>bob.
     prog_bind (on_openssl (GenerateKeyPair plib)) (\<lambda>eve.
     prog_bind (on_openssl (DeriveSessionKey plib (private_key alice) (public_key bob)
       ''airdrop-session-v1'')) (\<lambda>real_key.
     prog_bind (on_openssl (DeriveSessionKey plib (private_key eve) (public_key bob)
       ''airdrop-session-v1'')) (\<lambda>wrong_key.
     prog_bind (on_openssl (EncryptChunk lib real_key [1, 2, 3])) (\<lambda>enc.
     ASSERT_THROWS ''DecryptChunk(wrong_key, enc)'' (on_openssl (DecryptChunk lib wrong_key enc))))))))"

definition Sha256_KnownVector :: "('o, 'm) digest_lib \<Rightarrow> ('o world, unit) prog" where
  "Sha256_KnownVector dlib =
     prog_bind (on_openssl (Sha256Bytes dlib [])) (\<lambda>digest.
     prog_bind (ASSERT_EQ ''digest.size()'' ''(size_t)32'' (length digest) 32) (\<lambda>_.
     prog_bind (prog_of (read_byte digest 0)) (\<lambda>b0.
     prog_bind (ASSERT_EQ ''digest[0]'' ''0xe3'' b0 0xe3) (\<lambda>_.
     prog_bind (prog_of (read_byte digest 1)) (\<lambda>b1.
     prog_bind (ASSERT_EQ ''digest[1]'' ''0xb0'' b1 0xb0) (\<lambda>_.
     prog_bind (prog_of (read_byte digest 31)) (\<lambda>b31.
     ASSERT_EQ ''digest[31]'' ''0x55'' b31 0x55)))))))"

text \<open>A settled test: it succeeds when \<open>c\<close> holds, and fails by an assertion when it does not.\<close>

definition settled :: "bool \<Rightarrow> unit result \<Rightarrow> bool" where
  "settled c r \<longleftrightarrow> (if c then r = Inr () else (\<exists>m. r = Inl (AssertionFailure m)))"

lemma ASSERT_TRUE_settles:
  "leads (\<lambda>w. disk w = d) (ASSERT_TRUE msg c) (\<lambda>r w. settled c r \<and> disk w = d)"
  by (simp add: leads_def ASSERT_TRUE_def settled_def)

lemma ASSERT_THROWS_settles:
  assumes "\<And>os. fst (m os) = (if c then Inl e else Inr x)" and "e \<noteq> OutOfBounds"
  shows "leads (\<lambda>w. disk w = d) (ASSERT_THROWS msg (on_openssl m)) (\<lambda>r w. settled c r \<and> disk w = d)"
proof (rule leadsI)
  fix w :: "'a world" assume w: "disk w = d"
  obtain os where "m (openssl w) = (if c then Inl e else Inr x, os)"
    using assms(1) [of "openssl w"] by (metis prod.collapse)
  with w assms(2) show "\<exists>r w'. ASSERT_THROWS msg (on_openssl m) w = (r, w') \<and> settled c r \<and> disk w' = d"
    by (cases c) (simp_all add: ASSERT_THROWS_def on_openssl_eq settled_def)
qed

text \<open>A chunk that was sealed, opened with any key and any ciphertext in its place.\<close>

lemma DecryptChunk_throws:
  assumes con: "gcm_contract lib st E D T" and av: "cipher_available lib" and key: "key_ok key"
    and ch: "length (enc_nonce ch) = 12" "length (enc_tag ch) = 16" "length (enc_ciphertext ch) < 2 ^ 31"
  shows "leads (\<lambda>w. disk w = d) (ASSERT_THROWS msg (on_openssl (DecryptChunk lib key ch)))
    (\<lambda>r w. settled (T key (enc_nonce ch) (enc_ciphertext ch) \<noteq> enc_tag ch) r \<and> disk w = d)"
proof (rule ASSERT_THROWS_settles)
  have made: "(fst (EVP_CIPHER_CTX_new lib os) = None) = False" for os
    using av unfolding cipher_available_def by (metis fst_conv option.discI)
  show "fst (DecryptChunk lib key ch os) = (if T key (enc_nonce ch) (enc_ciphertext ch) \<noteq> enc_tag ch
      then Inl auth_failed else Inr (D key (enc_nonce ch) (enc_ciphertext ch)))" for os
    unfolding DecryptChunk_outcome [OF con key ch(3)] made using ch by (simp add: crypto_sizes)
  show "auth_failed \<noteq> OutOfBounds" by (simp add: auth_failed_def)
qed

lemma sealed_yields:
  assumes "gcm_contract lib st E D T" and "cipher_available lib" and "key_ok k" and "length p < 2 ^ 31"
  shows "yields (\<lambda>w. disk w = d) (on_openssl (EncryptChunk lib k p))
    (\<lambda>enc w. (\<exists>iv. length iv = 12 \<and> enc = sealed_chunk E T k iv p) \<and> disk w = d)"
proof (rule yieldsI)
  fix w :: "'a world" assume "disk w = d"
  obtain iv os where "length iv = kGcmNonceSize" "EncryptChunk lib k p (openssl w) = (Inr (sealed_chunk E T k iv p), os)"
    using EncryptChunk_succeeds [OF assms] by blast
  then show "\<exists>enc w'. on_openssl (EncryptChunk lib k p) w = (Inr enc, w') \<and>
      (\<exists>iv. length iv = 12 \<and> enc = sealed_chunk E T k iv p) \<and> disk w' = d"
    using \<open>disk w = d\<close> by (auto simp: on_openssl_eq crypto_sizes)
qed

text \<open>
  What a test is expected to end with. The keys, nonces and bytes that a condition speaks of are those the test
  drew.
\<close>

definition expected ::
    "(bytes \<Rightarrow> bytes) \<Rightarrow> (bytes \<Rightarrow> bytes \<Rightarrow> bytes option) \<Rightarrow> (bytes \<Rightarrow> bytes \<Rightarrow> bytes \<Rightarrow> bytes) \<Rightarrow>
     (bytes \<Rightarrow> bytes \<Rightarrow> bytes \<Rightarrow> bytes) \<Rightarrow> (bytes \<Rightarrow> bytes \<Rightarrow> bytes \<Rightarrow> bytes) \<Rightarrow> (bytes \<Rightarrow> bytes) \<Rightarrow>
     string \<Rightarrow> unit result \<Rightarrow> bool" where
  "expected pub dh hkdf E T H name r \<longleftrightarrow>
     (if name = ''KeyExchange_DifferentInfoProducesDifferentKey'' then
        (\<exists>alice bob. test_key pub alice \<and> test_key pub bob \<and>
           settled (test_session dh hkdf alice bob ''context-a'' \<noteq> test_session dh hkdf alice bob ''context-b'') r)
      else if name = ''Decrypt_TamperedCiphertextFailsAuthentication'' then
        (\<exists>alice bob key iv b rest. test_key pub alice \<and> test_key pub bob \<and>
           key = test_session dh hkdf alice bob ''airdrop-session-v1'' \<and> length iv = 12 \<and>
           E key iv [10, 20, 30] = b # rest \<and>
           settled (T key iv ((b XOR 0xFF) # rest) \<noteq> T key iv (b # rest)) r)
      else if name = ''Decrypt_WrongSessionKeyFailsAuthentication'' then
        (\<exists>alice bob eve real_key wrong_key iv. test_key pub alice \<and> test_key pub bob \<and> test_key pub eve \<and>
           real_key = test_session dh hkdf alice bob ''airdrop-session-v1'' \<and>
           wrong_key = test_session dh hkdf eve bob ''airdrop-session-v1'' \<and> length iv = 12 \<and>
           settled (T wrong_key iv (E real_key iv [1, 2, 3]) \<noteq> T real_key iv (E real_key iv [1, 2, 3])) r)
      else if name = ''Sha256_KnownVector'' then
        settled (H [] ! 0 = 0xe3 \<and> H [] ! 1 = 0xb0 \<and> H [] ! 31 = 0x55) r
      else r = Inr ())"

lemma expected_tampered:
  assumes "test_key pub alice" and "test_key pub bob"
    and "key = test_session dh hkdf alice bob ''airdrop-session-v1''" and "length iv = 12"
    and "E key iv [10, 20, 30] = b # rest" and "settled (T key iv ((b XOR 0xFF) # rest) \<noteq> T key iv (b # rest)) r"
  shows "expected pub dh hkdf E T H ''Decrypt_TamperedCiphertextFailsAuthentication'' r"
proof -
  have "\<exists>alice bob key iv b rest. test_key pub alice \<and> test_key pub bob \<and>
      key = test_session dh hkdf alice bob ''airdrop-session-v1'' \<and> length iv = 12 \<and>
      E key iv [10, 20, 30] = b # rest \<and> settled (T key iv ((b XOR 0xFF) # rest) \<noteq> T key iv (b # rest)) r"
    by (intro exI conjI) (fact assms)+
  then show ?thesis by (simp add: expected_def)
qed

lemma expected_wrong_key:
  assumes "test_key pub alice" and "test_key pub bob" and "test_key pub eve"
    and "real_key = test_session dh hkdf alice bob ''airdrop-session-v1''"
    and "wrong_key = test_session dh hkdf eve bob ''airdrop-session-v1''" and "length iv = 12"
    and "settled (T wrong_key iv (E real_key iv [1, 2, 3]) \<noteq> T real_key iv (E real_key iv [1, 2, 3])) r"
  shows "expected pub dh hkdf E T H ''Decrypt_WrongSessionKeyFailsAuthentication'' r"
proof -
  have "\<exists>alice bob eve real_key wrong_key iv. test_key pub alice \<and> test_key pub bob \<and> test_key pub eve \<and>
      real_key = test_session dh hkdf alice bob ''airdrop-session-v1'' \<and>
      wrong_key = test_session dh hkdf eve bob ''airdrop-session-v1'' \<and> length iv = 12 \<and>
      settled (T wrong_key iv (E real_key iv [1, 2, 3]) \<noteq> T real_key iv (E real_key iv [1, 2, 3])) r"
    by (intro exI conjI) (fact assms)+
  then show ?thesis by (simp add: expected_def)
qed

definition unsettled_tests :: "string set" where
  "unsettled_tests =
     {''KeyExchange_DifferentInfoProducesDifferentKey'', ''Decrypt_TamperedCiphertextFailsAuthentication'',
      ''Decrypt_WrongSessionKeyFailsAuthentication'', ''Sha256_KnownVector''}"

lemma settled_caught: "settled c r \<Longrightarrow> caught r"
  by (auto simp: settled_def caught_def split: if_splits)

lemma caught_Inr [simp]: "caught (Inr x)"
  by (simp add: caught_def)

lemma expected_caught: "expected pub dh hkdf E T H n r \<Longrightarrow> caught r"
  unfolding expected_def by (auto split: if_splits intro: settled_caught)

lemma list_all2_expected_caught:
  "list_all2 (\<lambda>t. expected pub dh hkdf E T H (test_name t)) ts rs \<Longrightarrow> \<forall>r \<in> set rs. caught r"
  by (induction rule: list_all2_induct) (auto dest: expected_caught)

lemma expected_unsettled: "expected pub dh hkdf E T H n r \<Longrightarrow> r \<noteq> Inr () \<Longrightarrow> n \<in> unsettled_tests"
  by (auto simp: expected_def unsettled_tests_def split: if_splits)

lemma DifferentInfo_reports:
  assumes kex: "kex_contract plib st priv pubk pub dh hkdf" and honest: "honest_dh pub dh"
  shows "reports room (KeyExchange_DifferentInfoProducesDifferentKey plib)
    (expected pub dh hkdf E T H ''KeyExchange_DifferentInfoProducesDifferentKey'')"
  unfolding KeyExchange_DifferentInfoProducesDifferentKey_def
  by (rule reportsI, rule leads_step [OF GenerateKeyPair_yields [OF kex]],
      rule leads_step [OF GenerateKeyPair_yields [OF kex]],
      rule leads_value [OF DeriveSessionKey_yields [OF kex honest]], assumption, assumption, simp,
      rule leads_value [OF DeriveSessionKey_yields [OF kex honest]], assumption, assumption, simp,
      rule leads_weaken [OF ASSERT_TRUE_settles])
     (auto simp: expected_def)

lemma Tampered_reports:
  assumes kex: "kex_contract plib st priv pubk pub dh hkdf" and honest: "honest_dh pub dh"
    and con: "gcm_contract lib st' E D T" and av: "cipher_available lib"
  shows "reports room (Decrypt_TamperedCiphertextFailsAuthentication plib lib)
    (expected pub dh hkdf E T H ''Decrypt_TamperedCiphertextFailsAuthentication'')"
proof -
  have openings: "leads (\<lambda>w. disk w = d)
      (prog_bind (prog_of (flip_first (enc_ciphertext (sealed_chunk E T k iv [10, 20, 30])))) (\<lambda>ct.
       ASSERT_THROWS msg (on_openssl (DecryptChunk lib k
         (sealed_chunk E T k iv [10, 20, 30] \<lparr>enc_ciphertext := ct\<rparr>)))))
      (\<lambda>r w. expected pub dh hkdf E T H ''Decrypt_TamperedCiphertextFailsAuthentication'' r \<and> disk w = d)"
    if keys: "test_key pub alice" "test_key pub bob" and k: "k = test_session dh hkdf alice bob ''airdrop-session-v1''"
      and iv: "length iv = 12" for alice bob k iv msg d
  proof -
    have ok: "key_ok k" unfolding k by (rule test_session_agrees(2) [OF kex honest keys])
    have alg: "gcm_algebra E D T" using con by (simp add: gcm_contract_def)
    then have "length (E k iv [10, 20, 30]) = 3" by (simp add: gcm_algebra_def)
    then obtain b rest where ct: "E k iv [10, 20, 30] = b # rest" "length rest = 2"
      by (cases "E k iv [10, 20, 30]") auto
    let ?ch = "\<lparr>enc_nonce = iv, enc_ciphertext = (b XOR 0xFF) # rest, enc_tag = T k iv (b # rest)\<rparr>"
    have "length (T k iv (b # rest)) = 16" using alg by (simp add: gcm_algebra_def crypto_sizes)
    then have "leads (\<lambda>w. disk w = d) (ASSERT_THROWS msg (on_openssl (DecryptChunk lib k ?ch)))
        (\<lambda>r w. settled (T k iv ((b XOR 0xFF) # rest) \<noteq> T k iv (b # rest)) r \<and> disk w = d)"
      using DecryptChunk_throws [OF con av ok, of ?ch d msg] iv ct(2) by simp
    from leads_weaken [OF this] expected_tampered [where E = E, OF keys k iv ct(1)] show ?thesis
      by (simp add: sealed_chunk_def flip_first_def ct(1))
  qed
  show ?thesis
    unfolding Decrypt_TamperedCiphertextFailsAuthentication_def Let_def
    by (rule reportsI, rule leads_step [OF GenerateKeyPair_yields [OF kex]],
        rule leads_step [OF GenerateKeyPair_yields [OF kex]],
        rule leads_value [OF DeriveSessionKey_yields [OF kex honest]], assumption, assumption, simp,
        rule leads_step [OF sealed_yields [OF con av]], rule test_session_agrees(2) [OF kex honest],
        assumption, assumption, simp, elim exE conjE, hypsubst, rule openings [OF _ _ refl])
qed

lemma WrongKey_reports:
  assumes kex: "kex_contract plib st priv pubk pub dh hkdf" and honest: "honest_dh pub dh"
    and con: "gcm_contract lib st' E D T" and av: "cipher_available lib"
  shows "reports room (Decrypt_WrongSessionKeyFailsAuthentication plib lib)
    (expected pub dh hkdf E T H ''Decrypt_WrongSessionKeyFailsAuthentication'')"
proof -
  have openings: "leads (\<lambda>w. disk w = d)
      (ASSERT_THROWS msg (on_openssl (DecryptChunk lib k' (sealed_chunk E T k iv [1, 2, 3]))))
      (\<lambda>r w. expected pub dh hkdf E T H ''Decrypt_WrongSessionKeyFailsAuthentication'' r \<and> disk w = d)"
    if keys: "test_key pub alice" "test_key pub bob" "test_key pub eve"
      and k: "k = test_session dh hkdf alice bob ''airdrop-session-v1''"
      and k': "k' = test_session dh hkdf eve bob ''airdrop-session-v1''"
      and iv: "length iv = 12" for alice bob eve k k' iv msg d
  proof -
    have ok: "key_ok k'" unfolding k' by (rule test_session_agrees(2) [OF kex honest keys(3,2)])
    have alg: "gcm_algebra E D T" using con by (simp add: gcm_contract_def)
    let ?ch = "sealed_chunk E T k iv [1, 2, 3]"
    have "length (enc_nonce ?ch) = 12" "length (enc_tag ?ch) = 16" "length (enc_ciphertext ?ch) < 2 ^ 31"
      using alg iv by (simp_all add: sealed_chunk_def gcm_algebra_def crypto_sizes)
    from leads_weaken [OF DecryptChunk_throws [OF con av ok this]] expected_wrong_key [OF keys k k' iv] show ?thesis
      by (simp add: sealed_chunk_def)
  qed
  show ?thesis
    unfolding Decrypt_WrongSessionKeyFailsAuthentication_def
    by (rule reportsI, rule leads_step [OF GenerateKeyPair_yields [OF kex]],
        rule leads_step [OF GenerateKeyPair_yields [OF kex]], rule leads_step [OF GenerateKeyPair_yields [OF kex]],
        rule leads_value [OF DeriveSessionKey_yields [OF kex honest]], assumption, assumption, simp,
        rule leads_value [OF DeriveSessionKey_yields [OF kex honest]], assumption, assumption, simp,
        rule leads_step [OF sealed_yields [OF con av]], rule test_session_agrees(2) [OF kex honest],
        assumption, assumption, simp, elim exE conjE, hypsubst, rule openings [OF _ _ _ refl refl])
qed

lemma KnownVector_reports:
  fixes dlib :: "('o, 'm) digest_lib"
  assumes "digest_contract dlib absorbed H"
  shows "reports room (Sha256_KnownVector dlib) (expected pub dh hkdf E T H ''Sha256_KnownVector'')"
proof (rule reportsI, rule leadsI)
  fix d and w :: "'o world" assume w: "disk w = d"
  have l: "length (H []) = 32" using digest_steps(1) [OF assms] by (simp add: SHA256_DIGEST_LENGTH_def)
  then have "H [] \<noteq> []" by auto
  obtain os' where "Sha256Bytes dlib [] (openssl w) = (Inr (H []), os')"
    using Sha256Bytes_hash [OF assms, of "[]" "openssl w"] by (metis prod.collapse)
  with w l \<open>H [] \<noteq> []\<close> show "\<exists>r w'. Sha256_KnownVector dlib w = (r, w') \<and>
      expected pub dh hkdf E T H ''Sha256_KnownVector'' r \<and> disk w' = d"
    by (simp add: Sha256_KnownVector_def on_openssl_eq read_byte_def expected_def settled_def
        prog_bind_def ASSERT_EQ_def)
qed

section \<open>The suite\<close>

text \<open>
  The registry of the test program. Within a file the tests register in order. In which order the files do is
  left to the linker by the language: here it is that of \<open>CMakeLists.txt\<close>, in which the usual tool chains
  initialise them.
\<close>

definition core_tests ::
    "('o, 'k, 'p) pkey_lib \<Rightarrow> ('o, 'c) cipher_lib \<Rightarrow> ('o, 'm) digest_lib \<Rightarrow> 'o world Test list" where
  "core_tests plib lib dlib =
     fold (\<lambda>(name, fn). Registrar name fn)
       [(''KeyExchange_ProducesMatchingSessionKeyOnBothSides'',
           KeyExchange_ProducesMatchingSessionKeyOnBothSides plib),
        (''KeyExchange_DifferentInfoProducesDifferentKey'', KeyExchange_DifferentInfoProducesDifferentKey plib),
        (''EncryptDecrypt_RoundTripRecoversPlaintext'', EncryptDecrypt_RoundTripRecoversPlaintext plib lib),
        (''EncryptDecrypt_EmptyPlaintextWorks'', EncryptDecrypt_EmptyPlaintextWorks plib lib),
        (''Decrypt_TamperedCiphertextFailsAuthentication'', Decrypt_TamperedCiphertextFailsAuthentication plib lib),
        (''Decrypt_WrongSessionKeyFailsAuthentication'', Decrypt_WrongSessionKeyFailsAuthentication plib lib),
        (''Sha256_KnownVector'', Sha256_KnownVector dlib),
        (''Hello_RoundTrip'', Hello_RoundTrip),
        (''FileOffer_RoundTrip'', FileOffer_RoundTrip),
        (''Chunk_RoundTrip'', Chunk_RoundTrip),
        (''FrameMessage_HeaderParsesCorrectly'', FrameMessage_HeaderParsesCorrectly),
        (''ParseHeader_RejectsUnknownVersion'', ParseHeader_RejectsUnknownVersion),
        (''ParseHeader_RejectsTruncatedData'', ParseHeader_RejectsTruncatedData),
        (''DecodeFileOffer_RejectsTruncatedPayload'', DecodeFileOffer_RejectsTruncatedPayload),
        (''EndToEnd_SmallFileTransfersIntact'', EndToEnd_SmallFileTransfersIntact plib lib dlib),
        (''EndToEnd_MultiChunkFileTransfersIntact'', EndToEnd_MultiChunkFileTransfersIntact plib lib dlib),
        (''EndToEnd_OutOfOrderChunksStillAssembleCorrectly'',
           EndToEnd_OutOfOrderChunksStillAssembleCorrectly plib lib dlib)] []"

lemma stateless_passes: "(\<And>s. t s = (Inr (), s)) \<Longrightarrow> passes room t"
  by (simp add: passes_def yields_def)

lemma core_tests_report:
  assumes kex: "kex_contract plib st priv pubk pub dh hkdf" and honest: "honest_dh pub dh"
    and con: "gcm_contract lib st' E D T" and av: "cipher_available lib"
    and sha: "digest_contract dlib absorbed H" and room: "2 ^ 16 \<le> room"
  shows "\<forall>t \<in> set (core_tests plib lib dlib). reports room (test_fn t) (expected pub dh hkdf E T H (test_name t))"
proof -
  have ready: "cipher_ready lib" and digest: "digest_ready dlib H"
    using con av sha unfolding cipher_ready_def digest_ready_def by blast+
  have ok: "expected pub dh hkdf E T H n = (\<lambda>r. r = Inr ())"
    if "n \<noteq> ''KeyExchange_DifferentInfoProducesDifferentKey''" "n \<noteq> ''Decrypt_TamperedCiphertextFailsAuthentication''"
      "n \<noteq> ''Decrypt_WrongSessionKeyFailsAuthentication''" "n \<noteq> ''Sha256_KnownVector''" for n
    using that by (simp add: expected_def fun_eq_iff)
  note certain = passes_reports [OF stateless_passes] protocol_tests_pass passes_reports [OF crypto_tests_pass(1) [OF kex honest ready]]
    passes_reports [OF crypto_tests_pass(2) [OF kex honest ready]] passes_reports [OF crypto_tests_pass(3) [OF kex honest ready]]
    passes_reports [OF SmallFile_passes [OF kex honest ready digest]]
    passes_reports [OF MultiChunk_passes [OF kex honest ready digest room]]
    passes_reports [OF OutOfOrder_passes [OF kex honest ready digest room]]
  show ?thesis
    using room DifferentInfo_reports [OF kex honest] Tampered_reports [OF kex honest con av]
      WrongKey_reports [OF kex honest con av] KnownVector_reports [OF sha]
    by (simp add: core_tests_def Registrar_def ok certain)
qed

end
