(* ===== verification/Spec2Isabelle.thy ===== *)
theory Spec2Isabelle
  imports Protocol_Props Crypto_Props Transfer_Props Platform_Props Bridge_Props App_Props Unit_Tests
begin

text \<open>
  OffDrop sends a file between two devices without a network: the C++ core under \<open>core/\<close> holds the wire
  format, the cryptography, the cutting of files into chunks and their reassembly; a platform layer
  brings the bytes across (Bluetooth under \<open>platform/macos\<close>, an in-memory loopback in the tests), and a
  daemon in Go under \<open>cmd/daemon\<close> uses the core through a flat C interface, as does a small macOS application
  in Swift that tests the core and shows what Bluetooth reports. This development models the core, both
  transports, the C interface, the daemon and the application behind it, and the core's own tests.

  The parts and where they are modelled. Definitions carry the names of the source.

    \<^item> \<open>Prelude\<close>: \<open>uint8_t\<close>, \<open>uint32_t\<close>, \<open>uint64_t\<close> and \<open>size_t\<close> as words, vectors as lists, exceptions as
      values of \<open>failure\<close>. Stateful code is a function from a state to an outcome and a new state
      (\<open>prog\<close>); \<open>yields P m Q\<close> says that \<open>m\<close>, run in a state of \<open>P\<close>, returns a value and a state of \<open>Q\<close>. Every
      read and write of a buffer is bounds-checked by the model: outside is the value \<open>OutOfBounds\<close>, so
      that memory safety is something to prove. \<open>unique_ptr\<close> and \<open>owned\<close> hold a handle for the rest of a
      routine and run its deleter on every way out, exceptions included.
    \<^item> \<open>Wire\<close>, \<open>Protocol\<close>: \<open>core/src/protocol.cpp\<close> and \<open>core/include/protocol.hpp\<close>. \<open>PutU32\<close> to \<open>ReadString\<close>,
      the three payload codecs, \<open>FrameMessage\<close>, \<open>ParseHeader\<close>. A reader takes the offset it advances and
      returns the new one; the offset arithmetic is that of 64-bit words.
    \<^item> \<open>Files\<close>: what the core uses of \<open>std::filesystem\<close> and the file streams: a map from paths to
      contents with access rights and a limit, streams with their position and state flag.
    \<^item> \<open>Crypto\<close>, \<open>Digest\<close>, \<open>KeyExchange\<close>: \<open>core/src/crypto.cpp\<close>. OpenSSL is a parameter: three records of
      functions, one per family of calls, over a library state. Every call, return code test and buffer
      write of the source is in the definitions. The contracts \<open>gcm_contract\<close>, \<open>digest_contract\<close> and
      \<open>kex_contract\<close> state what OpenSSL documents about the calls, as the life of a context and the
      algebra of cipher, hash and key agreement; they say nothing of secrecy. \<open>Handles\<close>: keys and contexts
      counted as they are allocated and freed, by a library of which nothing else is asked; code is
      \<open>balanced\<close> when it leaves their number as it was, with one rule per construct.
    \<^item> \<open>Chunking\<close>, \<open>Receiver\<close>: \<open>core/src/chunking.cpp\<close>. \<open>SendFileChunks\<close> takes the caller's sink, which
      acts on the world and on what it captured; \<open>FileReceiver\<close> is the object with its six members.
      \<open>Receiver_Spec\<close>: the table of slots that a receiver implements. \<open>Hostile\<close>: the receiving callback under
      arbitrary blocks of bytes, and the \<open>patchwork\<close> of the sent blocks that a network without the key can make.
    \<^item> \<open>Transport\<close>, \<open>Loopback_Clients\<close>: \<open>core/include/transport.hpp\<close>. \<open>ITransport\<close> is the datatype of its calls,
      client code and callbacks are trees of calls. \<open>LoopbackTransport\<close> objects live in a store because
      two of them point at each other; \<open>run_client\<close> runs code whose callbacks call transports again.
    \<^item> \<open>Adapter\<close>: the C++ class \<open>BluetoothTransportAdapter\<close> of \<open>platform/macos/BluetoothBridge.mm\<close>, with the
      table of pending connections as an \<open>unordered_map\<close> whose iterators a rehash invalidates, and the
      object that owns it. What CoreBluetooth reports is an arbitrary sequence of events (\<open>on_event\<close>). The
      delegate methods that are to report it are comments in the source and do nothing here: on the bridge as
      it stands no callback is ever called (\<open>bridge_never_calls_back\<close>). \<open>Adapter_Spec\<close>: its abstract specification, a
      map from peers to the callbacks they are owed.
    \<^item> \<open>CApi\<close>: \<open>core/src/c_api.cpp\<close>, with nullable pointers, a \<open>malloc\<close> heap and the status codes.
    \<^item> \<open>Bridge\<close>: \<open>cmd/daemon/bridge.go\<close> and \<open>main.go\<close> over it: Go error values, panics, deferred calls, and
      what cgo copies to and from the heap of C.
    \<^item> \<open>Self_Test\<close>, \<open>Scanner\<close>: the Swift application under \<open>platform/macos/AirdropSelfTest\<close>.
      \<open>CoreSelfTest.swift\<close> over the C interface, with the reads of Swift from C buffers, and what
      \<open>ContentView.swift\<close> shows of its runs; \<open>BluetoothManager.swift\<close> with its delegate methods and the two
      buttons, over any sequence of events of CoreBluetooth and the user.
    \<^item> \<open>EndToEnd\<close>, \<open>EndToEnd_Tests\<close>: \<open>core/tests/test_chunking_e2e.cpp\<close>: the three ways its tests put a
      transfer together, and the tests. \<open>Unit_Tests\<close>: \<open>core/tests/mini_test.hpp\<close> with the registry and
      \<open>RunAll\<close>, the tests of \<open>test_protocol.cpp\<close> and \<open>test_crypto.cpp\<close>, and all seventeen tests as the
      program \<open>core_tests\<close>. The verdict of four of them depends on what the cryptography computes (other keys for
      other inputs, the hash of a known vector): \<open>expected\<close> states on what, and nothing is assumed about it.
    \<^item> \<open>Samples\<close>: libraries that keep the contracts, and a small world, for the witnesses.
    \<^item> \<open>Protocol_Props\<close>, \<open>Crypto_Props\<close>, \<open>Transfer_Props\<close>, \<open>Platform_Props\<close> (transports), \<open>Bridge_Props\<close>,
      \<open>App_Props\<close> and this theory: the properties.

  The interfaces between the parts are locales, each interpreted on the model.

    \<^item> \<open>field_codec\<close>, \<open>int_codec\<close> (\<open>Wire\<close>): a reader accepts exactly what its writer writes and stops behind
      it. \<open>payload_codec\<close> (\<open>Protocol\<close>): the same of whole payloads; round trip, prefix-freeness, rejection of
      cut messages and memory safety are proved once in it.
    \<^item> \<open>session_cipher\<close> (\<open>Crypto\<close>), \<open>file_hash\<close> (\<open>Digest\<close>): what the chunking needs of the cryptography.
    \<^item> \<open>chunk_sink\<close> and its special case \<open>slot_sink\<close> (\<open>Chunking\<close>): what the sender asks of a sink: it is
      followed by a predicate on the chunks handed over so far. A queue, the receiver and the whole path
      over the transport are instances, so the delivery of a file is one lemma for all three.
    \<^item> \<open>transport\<close> (\<open>Transport\<close>): a block sent arrives whole and in order. \<open>receiving_transport\<close> (\<open>Adapter\<close>): the
      callback last set gets what arrives, with the name of the sender; the loopback and the adapter are
      its instances.
    \<^item> \<open>buffer_store\<close> (\<open>CApi\<close>): result buffers keep their bytes until released.

  What the lemmas show. For the codecs: the exact set of accepted inputs. For the cryptography: every
  outcome of every routine under the contracts. For the sender: the blocks of the file, once and in order.
  For the receiver: the class invariant \<open>receiver_ok\<close>, the life of a receiver as the inductive relation
  \<open>receiving\<close>, the state \<open>assembling\<close> of the output file while chunks arrive. The refinement runs in two
  steps: \<open>receiver_implements\<close> relates the object and its file to the table of slots, message by message;
  \<open>filled content S\<close> relates the seeks and writes of an honest transfer to the abstract step \<open>insert i S\<close>.
  Under attack the invariant is \<open>attacked\<close>: the output file is a patchwork of sent blocks, and its hash decides.
  For the adapter: that it implements the table of promises (\<open>promises_of\<close> is the abstraction, \<open>calm_adapter\<close> the
  invariant under which every event is simulated), that a pending connection is answered once, and what goes
  wrong when a callback asks again. For the daemon and the application: their outcomes,
  the memory they release and the memory they do not. For the screen: the invariant \<open>lists_reports\<close> of the list of
  devices against the reports that came in, and that its verdict on the self-test needs all steps.

  Bounds. The loops of the core are total functions, so no fuel is needed: the read loops end because
  every turn consumes bytes or ends the stream. Only client code on loopback transports may run for ever,
  because \<open>Send\<close> calls the peer's callback before it returns: \<open>run_client\<close> is a partial function, its
  termination is proved for callbacks whose answers decrease in a measure, and two sides that answer each other are proved
  not to come back. When an \<open>unordered_map\<close> rehashes is left to the parameter \<open>rehash\<close>. A vector or string is
  shorter than \<open>vec_limit = 2 ^ 63\<close>. A plaintext passed to the cipher is below \<open>2 ^ 31\<close> bytes, because the
  source casts its length to \<open>int\<close>; the sender never exceeds \<open>kChunkSize\<close>. A ciphertext that a peer sends may be longer:
  of that case only memory safety is proved, for a library that is \<open>writes_within\<close>. A transfer has fewer than \<open>2 ^ 32\<close>
  chunks, because their number is cut to 32 bits.

  Not modelled: the strength of the cryptography, of which only \<open>unforged\<close> is assumed, of the blocks of a
  hostile network;
  allocation failure of C++ containers; directories and special files; changes of a file while it is being
  read; what CoreBluetooth does with the calls that the comments of the bridge announce; the lines the daemon
  prints; the layout of the screens of the application, the texts of its steps and messages beyond what
  they say, and the thread its self-test runs on, of which only the order of the results is kept.
\<close>

section \<open>The whole transfer\<close>

text \<open>
  C1: a file sent is the file received. For every readable file with fewer than \<open>2 ^ 32\<close> blocks, an
  output path that can be written, and libraries that keep their contracts: offering the file, and
  sending its chunks encoded, framed and over the connected transports to a receiver built from the offer,
  ends without an exception; the receiver is complete, the integrity check succeeds, and the output file
  is the sent file, byte for byte. No other file is changed.
\<close>

theorem sent_file_is_received:
  assumes "cipher_ready lib" and "digest_ready dlib H" and "key_ok key"
    and "transferable (disk w) src dst content"
  shows "\<exists>offer w1 r w2. PrepareFileOffer dlib src w = (Inr offer, w1) \<and>
    transfer lib key key src dst offer w1 = (Inr r, w2) \<and>
    IsComplete r \<and> fst (VerifyIntegrity dlib r w2) = Inr True \<and>
    files (disk w2) = (files (disk w))(dst \<mapsto> content)"
proof -
  obtain offer os where offer: "PrepareFileOffer dlib src w = (Inr offer, w\<lparr>openssl := os\<rparr>)"
      "offers offer content (H content)" "transferable (disk (w\<lparr>openssl := os\<rparr>)) src dst content"
    by (rule transferable_offer [OF assms(2,4)])
  from transfer_assembles [OF assms(1,3) offer(3,2)] obtain w2 r where
    r: "transfer lib key key src dst offer (w\<lparr>openssl := os\<rparr>) = (Inr r, w2)"
      "assembling content dst (H content) (disk w) {..<num_chunks content} (w2, r)"
    by auto
  with offer(1) assembled_all [OF r(2) assms(2)] show ?thesis by blast
qed

theorem sent_file_is_received_witness:
  "\<exists>offer w1 r w2. PrepareFileOffer toy_digest ''/tmp/a.bin'' sample_world = (Inr offer, w1) \<and>
    transfer toy_cipher sample_key sample_key ''/tmp/a.bin'' ''/tmp/b.bin'' offer w1 = (Inr r, w2) \<and>
    IsComplete r \<and> fst (VerifyIntegrity toy_digest r w2) = Inr True \<and>
    files (disk w2) = (files (disk sample_world))(''/tmp/b.bin'' \<mapsto> sample_content)"
  by (rule sent_file_is_received [OF toy_ready toy_digest_ready sample_key_ok sample_transferable])

text \<open>
  C2: the order does not matter, nor do repetitions. When the chunks are queued first and the queue is
  rearranged in any way that keeps the set of its chunks (the test reverses it), the receiver is complete,
  the integrity check succeeds and the output file is the sent file.
\<close>

theorem any_order_is_received:
  assumes "cipher_ready lib" and "digest_ready dlib H" and "key_ok key"
    and "transferable (disk w) src dst content" and "\<forall>cs. set (rearrange cs) = set cs"
  shows "\<exists>offer w1 r w2. PrepareFileOffer dlib src w = (Inr offer, w1) \<and>
    transfer_queued lib key src dst offer rearrange w1 = (Inr r, w2) \<and>
    IsComplete r \<and> fst (VerifyIntegrity dlib r w2) = Inr True \<and>
    files (disk w2) = (files (disk w))(dst \<mapsto> content)"
proof -
  obtain offer os where offer: "PrepareFileOffer dlib src w = (Inr offer, w\<lparr>openssl := os\<rparr>)"
      "offers offer content (H content)" "transferable (disk (w\<lparr>openssl := os\<rparr>)) src dst content"
    by (rule transferable_offer [OF assms(2,4)])
  have "set (rearrange cs) = set cs" for cs using assms(5) by blast
  from transfer_queued_assembles [OF assms(1,3) offer(3,2) this] obtain w2 r where
    r: "transfer_queued lib key src dst offer rearrange (w\<lparr>openssl := os\<rparr>) = (Inr r, w2)"
      "assembling content dst (H content) (disk w) {..<num_chunks content} (w2, r)"
    by auto
  with offer(1) assembled_all [OF r(2) assms(2)] show ?thesis by blast
qed

theorem any_order_is_received_witness:
  "\<exists>offer w1 r w2. PrepareFileOffer toy_digest ''/tmp/a.bin'' sample_world = (Inr offer, w1) \<and>
    transfer_queued toy_cipher sample_key ''/tmp/a.bin'' ''/tmp/b.bin'' offer (\<lambda>cs. rev cs @ cs) w1 = (Inr r, w2) \<and>
    IsComplete r \<and> fst (VerifyIntegrity toy_digest r w2) = Inr True \<and>
    files (disk w2) = (files (disk sample_world))(''/tmp/b.bin'' \<mapsto> sample_content)"
  by (rule any_order_is_received [OF toy_ready toy_digest_ready sample_key_ok sample_transferable]) simp

section \<open>The tests of the repository\<close>



text \<open>The small transfer alone needs room for its 500 bytes only.\<close>

theorem end_to_end_test_passes:
  fixes plib :: "('o, 'k, 'p) pkey_lib" and lib :: "('o, 'c) cipher_lib" and dlib :: "('o, 'm) digest_lib"
  assumes "kex_contract plib st priv pubk pub dh hkdf"
    and "\<forall>a b. length a = 32 \<longrightarrow> length b = 32 \<longrightarrow> dh a (pub b) \<noteq> None"
    and "cipher_ready lib" and "digest_ready dlib H"
    and "\<forall>p. readable (disk w) p \<and> writable (disk w) p" and "500 \<le> file_limit (disk w)"
  shows "fst (EndToEnd_SmallFileTransfersIntact plib lib dlib w) = Inr ()"
proof -
  have "honest_dh pub dh" using assms(2) by (simp add: honest_dh_def)
  note pass = SmallFile_passes [OF assms(1) this assms(3,4) order_refl]
  have "test_disk 500 (disk w)" using assms(5,6) by (simp add: test_disk_def)
  with pass show ?thesis by (auto simp: passes_def yields_def)
qed

end
